theory Spec2Isabelle
  imports Complex_Main "HOL-Library.Word" "HOL-Library.Multiset"
begin

unbundle bit_operations_syntax

type_synonym u32 = "32 word"

datatype error =
    AssertFailed string   \<comment> \<open>the text of the failed \<^verbatim>\<open>assert\<close>\<close>
  | OutOfRange string     \<comment> \<open>a vector indexed outside its bounds\<close>

definition ebind :: "error + 'a \<Rightarrow> ('a \<Rightarrow> error + 'b) \<Rightarrow> error + 'b" where
  "ebind m f = (case m of Inl e \<Rightarrow> Inl e | Inr x \<Rightarrow> f x)"

definition assert_that :: "bool \<Rightarrow> string \<Rightarrow> error + unit" where
  "assert_that c msg = (if c then Inr () else Inl (AssertFailed msg))"

text \<open>A \<^verbatim>\<open>for\<close> loop over a sequence that its body does not change.\<close>

fun for_each :: "'a list \<Rightarrow> ('a \<Rightarrow> 's \<Rightarrow> error + 's) \<Rightarrow> 's \<Rightarrow> error + 's" where
  "for_each [] body s = Inr s"
| "for_each (x # xs) body s = ebind (body x s) (for_each xs body)"

definition nth_checked :: "'a list \<Rightarrow> nat \<Rightarrow> string \<Rightarrow> error + 'a" where
  "nth_checked xs i name = (if i < length xs then Inr (xs ! i) else Inl (OutOfRange name))"

subsection \<open>Scalars and vectors\<close>

text \<open>
  A value of type \<^verbatim>\<open>Primitive\<close> that can be the sentinel
  \<^verbatim>\<open>std::numeric_limits<Primitive>::max()\<close> (an event time) is a \<open>scalar\<close>: a real
  number or the sentinel \<open>NumMax\<close>. The sentinel is above every number, and adding a
  number to it or subtracting one from it leaves it unchanged, as the floating-point
  addition of a small number to the largest finite value does.
\<close>

datatype scalar = Num real | NumMax

fun scalar_less :: "scalar \<Rightarrow> scalar \<Rightarrow> bool" where
  "scalar_less (Num a) (Num b) = (a < b)"
| "scalar_less (Num a) NumMax = True"
| "scalar_less NumMax b = False"

fun scalar_add :: "scalar \<Rightarrow> real \<Rightarrow> scalar" where
  "scalar_add (Num a) b = Num (a + b)"
| "scalar_add NumMax b = NumMax"

fun scalar_min :: "scalar \<Rightarrow> scalar \<Rightarrow> scalar" where
  "scalar_min a b = (if scalar_less b a then b else a)"

type_synonym vec2 = "real \<times> real"
type_synonym vec3 = "real \<times> real \<times> real"

text \<open>
  Modelled from the spec: the vector helpers of \<^verbatim>\<open>Math/Vector.h\<close> and
  \<^verbatim>\<open>Math/Geometry.h\<close> are not among the sources. \<^verbatim>\<open>Equivalent(p,q,epsilon)\<close>
  "compares two points/vectors component-wise within epsilon", read as
  \<open>\<bar>p - q\<bar> < epsilon\<close> in every component; the others are the usual vector operations.
\<close>

definition Equivalent :: "real \<Rightarrow> real \<Rightarrow> real \<Rightarrow> bool" where
  "Equivalent a b tolerance \<longleftrightarrow> \<bar>a - b\<bar> < tolerance"

definition Equivalent2 :: "vec2 \<Rightarrow> vec2 \<Rightarrow> real \<Rightarrow> bool" where
  "Equivalent2 p q tolerance \<longleftrightarrow>
     Equivalent (fst p) (fst q) tolerance \<and> Equivalent (snd p) (snd q) tolerance"

definition Equivalent3 :: "vec3 \<Rightarrow> vec3 \<Rightarrow> real \<Rightarrow> bool" where
  "Equivalent3 p q tolerance \<longleftrightarrow>
     Equivalent (fst p) (fst q) tolerance \<and> Equivalent (fst (snd p)) (fst (snd q)) tolerance \<and>
     Equivalent (snd (snd p)) (snd (snd q)) tolerance"

definition Zero2 :: vec2 where
  "Zero2 = (0, 0)"

definition vadd :: "vec2 \<Rightarrow> vec2 \<Rightarrow> vec2" where
  "vadd p q = (fst p + fst q, snd p + snd q)"

definition vsub :: "vec2 \<Rightarrow> vec2 \<Rightarrow> vec2" where
  "vsub p q = (fst p - fst q, snd p - snd q)"

definition vscale :: "vec2 \<Rightarrow> real \<Rightarrow> vec2" where
  "vscale p k = (fst p * k, snd p * k)"

definition Dot :: "vec2 \<Rightarrow> vec2 \<Rightarrow> real" where
  "Dot p q = fst p * fst q + snd p * snd q"

definition MagnitudeSquared :: "vec2 \<Rightarrow> real" where
  "MagnitudeSquared p = Dot p p"

definition Normalize :: "vec2 \<Rightarrow> vec2" where
  "Normalize p = (fst p / sqrt (MagnitudeSquared p), snd p / sqrt (MagnitudeSquared p))"

definition LinearInterpolate :: "vec2 \<Rightarrow> vec2 \<Rightarrow> real \<Rightarrow> vec2" where
  "LinearInterpolate p q alpha = vadd p (vscale (vsub q p) alpha)"

definition Truncate :: "vec3 \<Rightarrow> vec2" where
  "Truncate p = (fst p, fst (snd p))"

definition Expand :: "vec2 \<Rightarrow> real \<Rightarrow> vec3" where
  "Expand p t = (fst p, snd p, t)"

subsection \<open>The graph\<close>

definition BoundaryVertexFlag :: u32 where
  "BoundaryVertexFlag = push_bit 31 1"

definition NoIndex :: u32 where
  \<comment> \<open>\<^verbatim>\<open>~0u\<close>\<close>
  "NoIndex = NOT 0"

record Vertex =
  position :: vec2
  skeletonVertexId :: u32
  initialTime :: real
  velocity :: vec2

record Segment =
  head :: u32
  tail :: u32
  leftFace :: u32
  rightFace :: u32

record MotorcycleSegment =
  m_head :: u32
  m_tail :: u32   \<comment> \<open>the fixed vertex\<close>
  m_leftFace :: u32
  m_rightFace :: u32

record Graph =
  vertices :: "Vertex list"
  wavefrontEdges :: "Segment list"
  motorcycleSegments :: "MotorcycleSegment list"
  boundaryPoints :: "vec2 list"

datatype WindingType = Left | Right | Straight

definition CalculateWindingType :: "vec2 \<Rightarrow> vec2 \<Rightarrow> vec2 \<Rightarrow> real \<Rightarrow> WindingType" where
  "CalculateWindingType zero one two threshold =
     (let sign = (fst one - fst zero) * (snd two - snd zero)
               - (fst two - fst zero) * (snd one - snd zero)
      in if sign > threshold then Left
         else if sign < - threshold then Right
         else Straight)"

text \<open>
  \<^verbatim>\<open>GetEpsilon<Primitive>()\<close> is the parameter \<open>eps\<close> of the functions below. Its two
  values are the literal \<^verbatim>\<open>1e-4f\<close> in the \<^verbatim>\<open>float\<close> build and the literal \<^verbatim>\<open>1e-8\<close> in the
  \<^verbatim>\<open>double\<close> build, here with the exact values of these literals.
\<close>

definition GetEpsilon_float :: real where
  "GetEpsilon_float = 13743895 / 2 ^ 37"

definition GetEpsilon_double :: real where
  "GetEpsilon_double = 3022314549036573 / 2 ^ 78"

text \<open>
  \<^verbatim>\<open>CalculateVertexVelocity\<close>. The assertion that the result is finite always holds of a
  real number.
\<close>

definition checked_velocity :: "real \<Rightarrow> real \<Rightarrow> vec2 \<Rightarrow> vec2 \<Rightarrow> error + vec2" where
  "checked_velocity x y N0 N1 =
     (if Dot (x, y) (vadd N0 N1) > 0 then Inr (x, y)
      else Inl (AssertFailed ''Dot(Vector2T<Primitive>(x, y), N0+N1) > Primitive(0)''))"

definition CalculateVertexVelocity :: "real \<Rightarrow> vec2 \<Rightarrow> vec2 \<Rightarrow> vec2 \<Rightarrow> error + vec2" where
  "CalculateVertexVelocity eps vex0 vex1 vex2 =
     (if Equivalent2 vex0 vex2 eps then Inr Zero2
      else
        (let t0 = vsub vex1 vex0;
             t1 = vsub vex2 vex1
         in if Equivalent2 t0 Zero2 eps then Inr Zero2
            else if Equivalent2 t1 Zero2 eps then Inr Zero2
            else
              (let N0 = Normalize (- snd t0, fst t0);
                   N1 = Normalize (- snd t1, fst t1);
                   a = fst N0; b = snd N0;
                   c = fst N1; d = snd N1;
                   t = 1;
                   B0 = (if d < - eps \<or> d > eps then a - b * c / d else 0);
                   B1 = (if c < - eps \<or> c > eps then b - a * d / c else 0)
               in if \<bar>B0\<bar> > \<bar>B1\<bar> then
                    (if B0 > - eps \<and> B0 < eps then Inr Zero2
                     else
                       (let A = 1 - b / d;
                            x = t * A / B0;
                            y = (t - x * c) / d
                        in checked_velocity x y N0 N1))
                  else
                    (if B1 > - eps \<and> B1 < eps then Inr Zero2
                     else
                       (let A = 1 - a / c;
                            y = t * A / B1;
                            x = (t - y * d) / c
                        in checked_velocity x y N0 N1)))))"

subsection \<open>BuildGraphFromVertexLoop\<close>

text \<open>
  \<^verbatim>\<open>const auto threshold = Primitive(1e-6f)\<close>: the value of the \<^verbatim>\<open>float\<close> literal, which is not
  \<open>1/1000000\<close> but \<open>8796093 / 2\<^sup>4\<^sup>3\<close> (about \<^verbatim>\<open>9.99999997e-07\<close>), in the \<^verbatim>\<open>float\<close> build and,
  converted without loss, in the \<^verbatim>\<open>double\<close> build.
\<close>

definition build_threshold :: real where
  "build_threshold = 8796093 / 2 ^ 43"

text \<open>The body of the first loop, for the input vertex \<open>v\<close>.\<close>

definition build_vertex :: "real \<Rightarrow> vec2 list \<Rightarrow> nat \<Rightarrow> Graph \<Rightarrow> error + Graph" where
  "build_vertex eps vs v result =
     (let v0 = (v + length vs - 1) mod length vs;
          v1 = v;
          v2 = (v + 1) mod length vs;
          edges = wavefrontEdges result @
                    [\<lparr>head = of_nat v2, tail = of_nat v, leftFace = NoIndex, rightFace = of_nat v\<rparr>]
      in ebind (CalculateVertexVelocity eps (vs ! v0) (vs ! v1) (vs ! v2)) (\<lambda>vel.
         ebind (assert_that (\<not> Equivalent2 vel Zero2 eps)
                  ''!Equivalent(velocity, Zero<Vector2T<Primitive>>(), GetEpsilon<Primitive>())'') (\<lambda>_.
         Inr (result\<lparr>wavefrontEdges := edges,
                     vertices := vertices result @
                       [\<lparr>position = vs ! v, skeletonVertexId = BoundaryVertexFlag OR of_nat v,
                         initialTime = 0, velocity = vel\<rparr>]\<rparr>))))"

text \<open>The body of the second loop: a reflex vertex gets a motorcycle and its fixed vertex.\<close>

definition build_motorcycle :: "vec2 list \<Rightarrow> nat \<Rightarrow> Graph \<Rightarrow> error + Graph" where
  "build_motorcycle vs v result =
     (let v0 = (v + length vs - 1) mod length vs;
          v1 = v;
          v2 = (v + 1) mod length vs
      in if CalculateWindingType (vs ! v0) (vs ! v1) (vs ! v2) build_threshold = Right then
           (let fixedVertex = (of_nat (length (vertices result)) :: u32)
            in Inr (result\<lparr>vertices := vertices result @
                          [\<lparr>position = vs ! v, skeletonVertexId = BoundaryVertexFlag OR of_nat v,
                            initialTime = 0, velocity = Zero2\<rparr>],
                        motorcycleSegments := motorcycleSegments result @
                          [\<lparr>m_head = of_nat v, m_tail = fixedVertex,
                            m_leftFace = of_nat v0, m_rightFace = of_nat v1\<rparr>]\<rparr>))
         else Inr result)"

definition BuildGraphFromVertexLoop :: "real \<Rightarrow> vec2 list \<Rightarrow> error + Graph" where
  "BuildGraphFromVertexLoop eps vs =
     ebind (assert_that (length vs \<ge> 2) ''vertices.size() >= 2'') (\<lambda>_.
     ebind (for_each [0..<length vs] (build_vertex eps vs)
              \<lparr>vertices = [], wavefrontEdges = [], motorcycleSegments = [], boundaryPoints = []\<rparr>) (\<lambda>result.
     ebind (for_each [0..<length vs] (build_motorcycle vs) result) (\<lambda>result.
     Inr (result\<lparr>boundaryPoints := vs\<rparr>))))"

subsection \<open>CalculateCollapseTime\<close>

text \<open>
  The literal \<^verbatim>\<open>1e-3f\<close> that the separation on the other axis is compared with: the value of
  the \<^verbatim>\<open>float\<close> literal is \<open>8589935 / 2\<^sup>3\<^sup>3\<close> (about \<^verbatim>\<open>1.00000005e-03\<close>), and the comparison
  is made with this value in the \<^verbatim>\<open>float\<close> and in the \<^verbatim>\<open>double\<close> build.
\<close>

definition tolerance_1e_3f :: real where
  "tolerance_1e_3f = 8589935 / 2 ^ 33"

definition CalculateCollapseTime_points :: "real \<Rightarrow> vec2 \<Rightarrow> vec2 \<Rightarrow> vec2 \<Rightarrow> vec2 \<Rightarrow> scalar" where
  "CalculateCollapseTime_points eps p0 v0 p1 v1 =
     (let d0x = fst v0 - fst v1;
          d0y = snd v0 - snd v1
      in if \<bar>d0x\<bar> > \<bar>d0y\<bar> then
           (if \<bar>d0x\<bar> < eps then NumMax
            else
              (let t = (fst p1 - fst p0) / d0x;
                   ySep = snd p0 + t * snd v0 - snd p1 - t * snd v1
               in if \<bar>ySep\<bar> < tolerance_1e_3f then Num t else NumMax))
         else
           (if \<bar>d0y\<bar> < eps then NumMax
            else
              (let t = (snd p1 - snd p0) / d0y;
                   xSep = fst p0 + t * fst v0 - fst p1 - t * fst v1
               in if \<bar>xSep\<bar> < tolerance_1e_3f then Num t else NumMax)))"

text \<open>
  The last line, \<^verbatim>\<open>return calcTime + CalculateCollapseTime(p0, v0, p1, v1)\<close>, adds
  \<^verbatim>\<open>calcTime\<close> to the sentinel too. In the two floating-point builds the sum is rounded to
  the sentinel again, which \<open>scalar_add\<close> says; the \<^verbatim>\<open>int32_t\<close> build, where it overflows, is
  \<open>CalculateCollapseTime_i32\<close> below.
\<close>

definition CalculateCollapseTime :: "real \<Rightarrow> Vertex \<Rightarrow> Vertex \<Rightarrow> scalar" where
  "CalculateCollapseTime eps v0 v1 =
     (if Equivalent2 (velocity v0) Zero2 eps then NumMax
      else if Equivalent2 (velocity v1) Zero2 eps then NumMax
      else
        (let calcTime = min (initialTime v0) (initialTime v1);
             p0 = vadd (position v0) (vscale (velocity v0) (calcTime - initialTime v0));
             p1 = vadd (position v1) (vscale (velocity v1) (calcTime - initialTime v1))
         in scalar_add (CalculateCollapseTime_points eps p0 (velocity v0) p1 (velocity v1)) calcTime))"

subsection \<open>The output skeleton\<close>

text \<open>
  Modelled from the spec: \<^verbatim>\<open>StraightSkeleton.h\<close> is not among the sources. The output
  "exposes: \<open>steinerVertices: sequence<Point3D>\<close> (x,y,time), \<open>faces: sequence<Face>\<close> where
  each \<open>Face.edges: sequence<{head,tail,type}>\<close>, and \<open>unplacedEdges\<close>", with the edge-type
  tag one of Wavefront and VertexPath. A face is modelled by its edge list.
\<close>

datatype EdgeType = Wavefront | VertexPath

record Edge =
  e_head :: u32
  e_tail :: u32
  e_type :: EdgeType

record StraightSkeleton =
  steinerVertices :: "vec3 list"
  faces :: "Edge list list"
  unplacedEdges :: "Edge list"

text \<open>\<^verbatim>\<open>std::find_if\<close>, as the position of the first element that satisfies \<open>P\<close>.\<close>

fun find_if :: "('a \<Rightarrow> bool) \<Rightarrow> 'a list \<Rightarrow> nat option" where
  "find_if P [] = None"
| "find_if P (x # xs) =
     (if P x then Some 0 else (case find_if P xs of None \<Rightarrow> None | Some i \<Rightarrow> Some (Suc i)))"

text \<open>
  \<^verbatim>\<open>AddSteinerVertex\<close>, with the check of the \<^verbatim>\<open>_DEBUG\<close> build. The assertions that the
  coordinates are finite and are not the sentinel always hold of real numbers.
\<close>

definition AddSteinerVertex :: "real \<Rightarrow> StraightSkeleton \<Rightarrow> vec3 \<Rightarrow> error + (u32 \<times> StraightSkeleton)" where
  "AddSteinerVertex eps skeleton vertex =
     ebind (assert_that (snd (snd vertex) \<noteq> 0) ''vertex[2] != Primitive(0)'') (\<lambda>_.
       (case find_if (\<lambda>v. Equivalent3 v vertex eps) (steinerVertices skeleton) of
          Some existing \<Rightarrow> Inr (of_nat existing, skeleton)
        | None \<Rightarrow>
            ebind (assert_that
                     (find_if (\<lambda>v. Equivalent2 (Truncate v) (Truncate vertex) eps)
                        (steinerVertices skeleton) = None)
                     ''test == skeleton._steinerVertices.end()'') (\<lambda>_.
            Inr (of_nat (length (steinerVertices skeleton)),
                 skeleton\<lparr>steinerVertices := steinerVertices skeleton @ [vertex]\<rparr>))))"

definition PositionAtTime :: "Vertex \<Rightarrow> real \<Rightarrow> vec2" where
  "PositionAtTime v time = vadd (position v) (vscale (velocity v) (time - initialTime v))"

definition ClampedPositionAtTime :: "real \<Rightarrow> Vertex \<Rightarrow> real \<Rightarrow> vec3" where
  "ClampedPositionAtTime eps v time =
     (if Equivalent2 (velocity v) Zero2 eps then Expand (position v) (initialTime v)
      else Expand (PositionAtTime v time) time)"

subsection \<open>CalculateCrashTime\<close>

record CrashEvent =
  c_time :: scalar
  edgeSegment :: u32

text \<open>The test of one root \<open>t\<close> of the quadratic against the edge \<open>e\<close> (\<^verbatim>\<open>for (auto t:ts)\<close>).\<close>

definition crash_candidate :: "real \<Rightarrow> Vertex \<Rightarrow> Vertex \<Rightarrow> Vertex \<Rightarrow> nat \<Rightarrow> CrashEvent \<Rightarrow> real \<Rightarrow> CrashEvent" where
  "crash_candidate eps headV tailV v e bestCollisionEvent t =
     (if scalar_less (c_time bestCollisionEvent) (Num t) \<or> t \<le> max (initialTime headV) (initialTime tailV)
      then bestCollisionEvent
      else
        (let P0 = PositionAtTime headV t;
             P1 = PositionAtTime tailV t;
             P2 = PositionAtTime v t
         in if Dot (vsub P1 P0) (vsub P2 P0) > 0 \<and> Dot (vsub P0 P1) (vsub P2 P1) > 0 then
              \<lparr>c_time = Num t, edgeSegment = of_nat e\<rparr>
            else if Equivalent2 P0 P2 eps \<or> Equivalent2 P1 P2 eps then
              \<lparr>c_time = Num t, edgeSegment = of_nat e\<rparr>
            else bestCollisionEvent))"

text \<open>The body of the loop over the wavefront edges, for the edge at position \<open>e\<close>.\<close>

definition crash_with_edge :: "real \<Rightarrow> Graph \<Rightarrow> Vertex \<Rightarrow> nat \<Rightarrow> CrashEvent \<Rightarrow> error + CrashEvent" where
  "crash_with_edge eps graph v e bestCollisionEvent =
     ebind (nth_checked (vertices graph) (unat (head (wavefrontEdges graph ! e))) ''_vertices'') (\<lambda>headV.
     ebind (nth_checked (vertices graph) (unat (tail (wavefrontEdges graph ! e))) ''_vertices'') (\<lambda>tailV.
       (let calcTime = max (max (initialTime headV) (initialTime tailV)) (initialTime v);
            p0 = PositionAtTime headV calcTime;
            p1 = PositionAtTime tailV calcTime;
            v0 = velocity headV;
            v1 = velocity tailV;
            p2 = PositionAtTime v calcTime;
            v2 = velocity v;
            a = (fst v1 - fst v0) * (snd v2 - snd v0) - (fst v2 - fst v0) * (snd v1 - snd v0)
        in if Equivalent a 0 eps then Inr bestCollisionEvent
           else
             (let c = (fst p1 - fst p0) * (snd p2 - snd p0) - (fst p2 - fst p0) * (snd p1 - snd p0);
                  b = (fst p1 - fst p0) * (snd v2 - snd v0) + (fst v1 - fst v0) * (snd p2 - snd p0)
                    - (fst p2 - fst p0) * (snd v1 - snd v0) - (fst v2 - fst v0) * (snd p1 - snd p0);
                  K = b * b - 4 * a * c
              in if K < 0 then Inr bestCollisionEvent
                 else
                   (let Q = sqrt K;
                        ts = [calcTime + (- b + Q) / (2 * a), calcTime + (- b - Q) / (2 * a)]
                    in Inr (foldl (crash_candidate eps headV tailV v e) bestCollisionEvent ts))))))"

definition CalculateCrashTime :: "real \<Rightarrow> Graph \<Rightarrow> Vertex \<Rightarrow> error + CrashEvent" where
  "CalculateCrashTime eps graph v =
     for_each [0..<length (wavefrontEdges graph)] (crash_with_edge eps graph v)
       \<lparr>c_time = NumMax, edgeSegment = NoIndex\<rparr>"

subsection \<open>FindInAndOut, FreezeInPlace, AddUnique, AddEdge\<close>

text \<open>
  \<^verbatim>\<open>FindInAndOut\<close> returns two pointers into the edge list; here they are positions in
  the list, \<open>None\<close> for \<^verbatim>\<open>nullptr\<close>.
\<close>

definition find_in_out_edge :: "Segment list \<Rightarrow> u32 \<Rightarrow> nat \<Rightarrow> nat option \<times> nat option \<Rightarrow> error + (nat option \<times> nat option)" where
  "find_in_out_edge edges pivotVertex i result =
     (if head (edges ! i) = pivotVertex then
        ebind (assert_that (fst result = None) ''!result.first'') (\<lambda>_. Inr (Some i, snd result))
      else if tail (edges ! i) = pivotVertex then
        ebind (assert_that (snd result = None) ''!result.second'') (\<lambda>_. Inr (fst result, Some i))
      else Inr result)"

definition FindInAndOut :: "Segment list \<Rightarrow> u32 \<Rightarrow> error + (nat option \<times> nat option)" where
  "FindInAndOut edges pivotVertex =
     for_each [0..<length edges] (find_in_out_edge edges pivotVertex) (None, None)"

definition IsFrozen :: "Vertex \<Rightarrow> bool" where
  "IsFrozen v = Equivalent2 (velocity v) Zero2 0"

definition FreezeInPlace :: "Vertex \<Rightarrow> real \<Rightarrow> error + Vertex" where
  "FreezeInPlace v atTime =
     ebind (assert_that (atTime \<noteq> 0) ''atTime != Primitive(0)'') (\<lambda>_.
     Inr (v\<lparr>position := PositionAtTime v atTime,
            initialTime := atTime,
            skeletonVertexId := NoIndex,
            velocity := Zero2\<rparr>))"

definition AddUnique :: "Edge list \<Rightarrow> Edge \<Rightarrow> error + Edge list" where
  "AddUnique dst edge =
     (case find (\<lambda>e. e_head e = e_head edge \<and> e_tail e = e_tail edge) dst of
        None \<Rightarrow> Inr (dst @ [edge])
      | Some existing \<Rightarrow>
          ebind (assert_that (e_type existing = e_type edge) ''existing->_type == edge._type'') (\<lambda>_.
          Inr dst))"

text \<open>\<^verbatim>\<open>AddUnique(dest._faces[face]._edges, edge)\<close> and \<^verbatim>\<open>AddUnique(dest._unplacedEdges, edge)\<close>.\<close>

definition add_face_edge :: "StraightSkeleton \<Rightarrow> u32 \<Rightarrow> Edge \<Rightarrow> error + StraightSkeleton" where
  "add_face_edge dest face edge =
     ebind (nth_checked (faces dest) (unat face) ''_faces'') (\<lambda>edges.
     ebind (AddUnique edges edge) (\<lambda>edges'.
     Inr (dest\<lparr>faces := (faces dest)[unat face := edges']\<rparr>)))"

definition add_unplaced_edge :: "StraightSkeleton \<Rightarrow> Edge \<Rightarrow> error + StraightSkeleton" where
  "add_unplaced_edge dest edge =
     ebind (AddUnique (unplacedEdges dest) edge) (\<lambda>edges'.
     Inr (dest\<lparr>unplacedEdges := edges'\<rparr>))"

definition AddEdge :: "StraightSkeleton \<Rightarrow> u32 \<Rightarrow> u32 \<Rightarrow> u32 \<Rightarrow> u32 \<Rightarrow> EdgeType \<Rightarrow> error + StraightSkeleton" where
  "AddEdge dest headVertex tailVertex leftEdge rightEdge ty =
     (if headVertex = tailVertex then Inr dest
      else
        ebind (if rightEdge \<noteq> NoIndex
               then add_face_edge dest rightEdge \<lparr>e_head = headVertex, e_tail = tailVertex, e_type = ty\<rparr>
               else add_unplaced_edge dest \<lparr>e_head = headVertex, e_tail = tailVertex, e_type = ty\<rparr>) (\<lambda>dest.
        if leftEdge \<noteq> NoIndex
        then add_face_edge dest leftEdge \<lparr>e_head = tailVertex, e_tail = headVertex, e_type = ty\<rparr>
        else add_unplaced_edge dest \<lparr>e_head = tailVertex, e_tail = headVertex, e_type = ty\<rparr>))"

subsection \<open>AddEdgeForVertexPath\<close>

definition AddEdgeForVertexPath :: "real \<Rightarrow> Graph \<Rightarrow> StraightSkeleton \<Rightarrow> u32 \<Rightarrow> u32 \<Rightarrow> error + StraightSkeleton" where
  "AddEdgeForVertexPath eps g dst v finalVertId =
     ebind (nth_checked (vertices g) (unat v) ''_vertices'') (\<lambda>vert.
     ebind (FindInAndOut (wavefrontEdges g) v) (\<lambda>inAndOut.
       (let leftFace = (case fst inAndOut of
                          Some i \<Rightarrow> rightFace (wavefrontEdges g ! i) | None \<Rightarrow> NoIndex);
            rightFace = (case snd inAndOut of
                          Some i \<Rightarrow> rightFace (wavefrontEdges g ! i) | None \<Rightarrow> NoIndex)
        in if skeletonVertexId vert \<noteq> NoIndex then
             ebind (if skeletonVertexId vert AND BoundaryVertexFlag \<noteq> 0 then
                      (let q = skeletonVertexId vert AND NOT BoundaryVertexFlag
                       in AddEdge dst finalVertId (skeletonVertexId vert)
                            (of_nat ((unat q + length (boundaryPoints g) - 1) mod length (boundaryPoints g)))
                            q VertexPath)
                    else Inr dst) (\<lambda>dst.
             AddEdge dst finalVertId (skeletonVertexId vert) leftFace rightFace VertexPath)
           else
             ebind (AddSteinerVertex eps dst (Expand (position vert) (initialTime vert))) (\<lambda>added.
             AddEdge (snd added) finalVertId (fst added) leftFace rightFace VertexPath))))"

definition erase_at :: "'a list \<Rightarrow> nat \<Rightarrow> 'a list" where
  "erase_at xs i = take i xs @ drop (Suc i) xs"

subsection \<open>CalculateSkeleton: finding the next event\<close>

text \<open>
  The body of the loop over the wavefront edges that collects the earliest collapses:
  \<open>best\<close> is \<^verbatim>\<open>bestCollapseTime\<close> with \<^verbatim>\<open>bestCollapse\<close>, and \<open>e\<close> the position of
  the edge.
\<close>

definition collapse_candidate ::
  "real \<Rightarrow> Graph \<Rightarrow> real \<Rightarrow> nat \<Rightarrow> scalar \<times> (scalar \<times> nat) list \<Rightarrow> error + (scalar \<times> (scalar \<times> nat) list)" where
  "collapse_candidate eps g lastEventTime e best =
     ebind (nth_checked (vertices g) (unat (head (wavefrontEdges g ! e))) ''_vertices'') (\<lambda>v0.
     ebind (nth_checked (vertices g) (unat (tail (wavefrontEdges g ! e))) ''_vertices'') (\<lambda>v1.
       (let collapseTime = CalculateCollapseTime eps v0 v1;
            bestCollapseTime = fst best;
            bestCollapse = snd best
        in if scalar_less collapseTime (Num 0) then Inr best
           else
             ebind (assert_that (\<not> scalar_less collapseTime (Num lastEventTime))
                      ''collapseTime >= lastEventTime'') (\<lambda>_.
             if scalar_less collapseTime (scalar_add bestCollapseTime (- eps)) then
               Inr (collapseTime, [(collapseTime, e)])
             else if scalar_less collapseTime (scalar_add bestCollapseTime eps) then
               Inr (scalar_min collapseTime bestCollapseTime, bestCollapse @ [(collapseTime, e)])
             else Inr best))))"

definition find_best_collapse ::
  "real \<Rightarrow> Graph \<Rightarrow> real \<Rightarrow> error + (scalar \<times> (scalar \<times> nat) list)" where
  "find_best_collapse eps g lastEventTime =
     ebind (for_each [0..<length (wavefrontEdges g)] (collapse_candidate eps g lastEventTime)
              (NumMax, [])) (\<lambda>best.
     Inr (fst best, filter (\<lambda>e. scalar_less (fst e) (scalar_add (fst best) eps)) (snd best)))"

text \<open>
  The body of the loop over the motorcycles: \<open>best\<close> is \<^verbatim>\<open>bestMotorcycleCrashTime\<close> with
  \<^verbatim>\<open>bestMotorcycleCrash\<close>, and \<open>m\<close> the position of the motorcycle.
\<close>

definition crash_candidate_of ::
  "real \<Rightarrow> Graph \<Rightarrow> real \<Rightarrow> scalar \<Rightarrow> nat \<Rightarrow> scalar \<times> (CrashEvent \<times> nat) list
     \<Rightarrow> error + (scalar \<times> (CrashEvent \<times> nat) list)" where
  "crash_candidate_of eps g lastEventTime bestCollapseTime m best =
     ebind (nth_checked (vertices g) (unat (m_head (motorcycleSegments g ! m))) ''_vertices'') (\<lambda>headV.
       if Equivalent2 (velocity headV) Zero2 eps then Inr best
       else
         ebind (assert_that (initialTime headV = 0) ''head._initialTime == Primitive(0)'') (\<lambda>_.
         ebind (CalculateCrashTime eps g headV) (\<lambda>crashEvent.
           (let bestMotorcycleCrashTime = fst best;
                bestMotorcycleCrash = snd best
            in if scalar_less (c_time crashEvent) (Num 0) then Inr best
               else
                 ebind (assert_that (\<not> scalar_less (c_time crashEvent) (Num lastEventTime))
                          ''crashEvent._time >= lastEventTime'') (\<lambda>_.
                 if scalar_less (c_time crashEvent) (scalar_add bestCollapseTime eps) then
                   (if scalar_less (c_time crashEvent) (scalar_add bestMotorcycleCrashTime (- eps)) then
                      Inr (c_time crashEvent, [(crashEvent, m)])
                    else if scalar_less (c_time crashEvent) (scalar_add bestMotorcycleCrashTime eps) then
                      Inr (scalar_min (c_time crashEvent) bestMotorcycleCrashTime,
                           bestMotorcycleCrash @ [(crashEvent, m)])
                    else Inr best)
                 else Inr best)))))"

definition find_best_crash ::
  "real \<Rightarrow> Graph \<Rightarrow> real \<Rightarrow> scalar \<Rightarrow> error + (scalar \<times> (CrashEvent \<times> nat) list)" where
  "find_best_crash eps g lastEventTime bestCollapseTime =
     for_each [0..<length (motorcycleSegments g)]
       (crash_candidate_of eps g lastEventTime bestCollapseTime) (NumMax, [])"

subsection \<open>CalculateSkeleton: a motorcycle crash\<close>

definition midpoint3 :: "vec3 \<Rightarrow> vec3 \<Rightarrow> vec3" where
  \<comment> \<open>\<^verbatim>\<open>(v0+v2)/Primitive(2)\<close>\<close>
  "midpoint3 p q = ((fst p + fst q) / 2, (fst (snd p) + fst (snd q)) / 2, (snd (snd p) + snd (snd q)) / 2)"

text \<open>
  The closing edge that replaces two edges that end in one point: it takes its faces,
  swapped, from an edge that runs the other way, when there is one.
\<close>

definition closing_edge :: "Segment list \<Rightarrow> u32 \<Rightarrow> u32 \<Rightarrow> Segment" where
  "closing_edge edges h t =
     (case find (\<lambda>s. head s = t \<and> tail s = h) edges of
        Some existing \<Rightarrow>
          \<lparr>head = h, tail = t, leftFace = rightFace existing, rightFace = leftFace existing\<rparr>
      | None \<Rightarrow> \<lparr>head = h, tail = t, leftFace = NoIndex, rightFace = NoIndex\<rparr>)"

text \<open>The block "is there volume on the tout side?".\<close>

definition crash_tout ::
  "real \<Rightarrow> MotorcycleSegment \<Rightarrow> Segment \<Rightarrow> vec2 \<Rightarrow> u32 \<Rightarrow> real \<Rightarrow> Graph \<times> StraightSkeleton
     \<Rightarrow> error + (Graph \<times> StraightSkeleton)" where
  "crash_tout eps motor crashSegment crashPt crashPtSkeleton calcTime st =
     (let g = fst st in
      ebind (FindInAndOut (wavefrontEdges g) (m_head motor)) (\<lambda>inAndOut.
      ebind (assert_that (snd inAndOut \<noteq> None) ''tout'') (\<lambda>_.
        (let ti = the (snd inAndOut);
             tout = wavefrontEdges g ! ti
         in ebind (nth_checked (vertices g) (unat (tail crashSegment)) ''_vertices'') (\<lambda>vt.
            ebind (nth_checked (vertices g) (unat (head tout)) ''_vertices'') (\<lambda>vh.
              (let v0 = ClampedPositionAtTime eps vt calcTime;
                   v2 = ClampedPositionAtTime eps vh calcTime
               in if head tout = tail crashSegment \<or> Equivalent3 v0 v2 eps then
                    ebind (assert_that (leftFace crashSegment = NoIndex \<and> leftFace tout = NoIndex)
                             ''crashSegment._leftFace == ~0u && tout->_leftFace == ~0u'') (\<lambda>_.
                    ebind (AddSteinerVertex eps (snd st) (midpoint3 v0 v2)) (\<lambda>added.
                    ebind (AddEdge (snd added) (fst added) crashPtSkeleton
                             (rightFace crashSegment) (rightFace tout) VertexPath) (\<lambda>result.
                    ebind (AddEdgeForVertexPath eps g result (head tout) (fst added)) (\<lambda>result.
                    ebind (AddEdgeForVertexPath eps g result (tail crashSegment) (fst added)) (\<lambda>result.
                      (let toutHead = head tout;
                           edges = erase_at (wavefrontEdges g) ti;
                           edges' = (if toutHead \<noteq> tail crashSegment
                                     then edges @ [closing_edge edges toutHead (tail crashSegment)]
                                     else edges)
                       in Inr (g\<lparr>wavefrontEdges := edges'\<rparr>, result)))))))
                  else
                    (let newVertex = (of_nat (length (vertices g)) :: u32);
                         edges = (wavefrontEdges g)[ti := tout\<lparr>tail := newVertex\<rparr>]
                                   @ [\<lparr>head = newVertex, tail = tail crashSegment,
                                       leftFace = leftFace crashSegment,
                                       rightFace = rightFace crashSegment\<rparr>]
                     in ebind (CalculateVertexVelocity eps (Truncate v0) crashPt (Truncate v2)) (\<lambda>vel.
                        Inr (g\<lparr>wavefrontEdges := edges,
                               vertices := vertices g @
                                 [\<lparr>position = crashPt, skeletonVertexId = crashPtSkeleton,
                                   initialTime = calcTime, velocity = vel\<rparr>]\<rparr>,
                             snd st))))))))))"

text \<open>The block "is there volume on the tin side?".\<close>

definition crash_tin ::
  "real \<Rightarrow> MotorcycleSegment \<Rightarrow> Segment \<Rightarrow> vec2 \<Rightarrow> u32 \<Rightarrow> real \<Rightarrow> Graph \<times> StraightSkeleton
     \<Rightarrow> error + (Graph \<times> StraightSkeleton)" where
  "crash_tin eps motor crashSegment crashPt crashPtSkeleton calcTime st =
     (let g = fst st in
      ebind (FindInAndOut (wavefrontEdges g) (m_head motor)) (\<lambda>inAndOut.
      ebind (assert_that (fst inAndOut \<noteq> None) ''tin'') (\<lambda>_.
        (let ti = the (fst inAndOut);
             tin = wavefrontEdges g ! ti
         in ebind (nth_checked (vertices g) (unat (tail tin)) ''_vertices'') (\<lambda>vt.
            ebind (nth_checked (vertices g) (unat (head crashSegment)) ''_vertices'') (\<lambda>vh.
              (let v0 = ClampedPositionAtTime eps vt calcTime;
                   v2 = ClampedPositionAtTime eps vh calcTime
               in if tail tin = head crashSegment \<or> Equivalent3 v0 v2 eps then
                    ebind (assert_that (leftFace crashSegment = NoIndex \<and> leftFace tin = NoIndex)
                             ''crashSegment._leftFace == ~0u && tin->_leftFace == ~0u'') (\<lambda>_.
                    ebind (AddSteinerVertex eps (snd st) (midpoint3 v0 v2)) (\<lambda>added.
                    ebind (AddEdge (snd added) (fst added) crashPtSkeleton
                             (rightFace tin) (rightFace crashSegment) VertexPath) (\<lambda>result.
                    ebind (AddEdgeForVertexPath eps g result (tail tin) (fst added)) (\<lambda>result.
                    ebind (AddEdgeForVertexPath eps g result (head crashSegment) (fst added)) (\<lambda>result.
                      (let tinTail = tail tin;
                           edges = erase_at (wavefrontEdges g) ti;
                           edges' = (if tinTail \<noteq> head crashSegment
                                     then edges @ [closing_edge edges (head crashSegment) tinTail]
                                     else edges)
                       in Inr (g\<lparr>wavefrontEdges := edges'\<rparr>, result)))))))
                  else
                    (let newVertex = (of_nat (length (vertices g)) :: u32);
                         edges = (wavefrontEdges g)[ti := tin\<lparr>head := newVertex\<rparr>]
                                   @ [\<lparr>head = head crashSegment, tail = newVertex,
                                       leftFace = leftFace crashSegment,
                                       rightFace = rightFace crashSegment\<rparr>]
                     in ebind (CalculateVertexVelocity eps (Truncate v0) crashPt (Truncate v2)) (\<lambda>vel.
                        Inr (g\<lparr>wavefrontEdges := edges,
                               vertices := vertices g @
                                 [\<lparr>position = crashPt, skeletonVertexId = crashPtSkeleton,
                                   initialTime = calcTime, velocity = vel\<rparr>]\<rparr>,
                             snd st))))))))))"

text \<open>
  The crash of the motorcycle at position \<open>m\<close> at the time \<open>t\<close> of \<open>crashEvent\<close>. The two
  segments \<^verbatim>\<open>newSegment0\<close> and \<^verbatim>\<open>newSegment1\<close> of the source are never used.
\<close>

definition process_crash ::
  "real \<Rightarrow> CrashEvent \<Rightarrow> nat \<Rightarrow> real \<Rightarrow> Graph \<times> StraightSkeleton \<Rightarrow> error + (Graph \<times> StraightSkeleton)" where
  "process_crash eps crashEvent m t st =
     (let g = fst st;
          motor = motorcycleSegments g ! m
      in ebind (assert_that (edgeSegment crashEvent \<noteq> NoIndex) ''crashEvent._edgeSegment != ~0u'') (\<lambda>_.
         ebind (nth_checked (vertices g) (unat (m_head motor)) ''_vertices'') (\<lambda>motorHead.
           (let crashPt = PositionAtTime motorHead t
            in ebind (AddSteinerVertex eps (snd st) (Expand crashPt t)) (\<lambda>added.
               ebind (nth_checked (wavefrontEdges g) (unat (edgeSegment crashEvent)) ''_wavefrontEdges'') (\<lambda>crashSegment.
               ebind (crash_tout eps motor crashSegment crashPt (fst added) t (g, snd added)) (\<lambda>st.
               ebind (crash_tin eps motor crashSegment crashPt (fst added) t st) (\<lambda>st.
                 (let g = fst st;
                      edges = filter (\<lambda>s. \<not> (head s = head crashSegment \<and> tail s = tail crashSegment))
                                (wavefrontEdges g)
                  in ebind (nth_checked (vertices g) (unat (m_tail motor)) ''_vertices'') (\<lambda>anchor.
                     ebind (assert_that (skeletonVertexId anchor \<noteq> NoIndex)
                              ''_vertices[motor._tail]._skeletonVertexId != ~0u'') (\<lambda>_.
                     ebind (AddEdge (snd st) (fst added) (skeletonVertexId anchor)
                              (m_leftFace motor) (m_rightFace motor) VertexPath) (\<lambda>result.
                     ebind (nth_checked (vertices g) (unat (m_head motor)) ''_vertices'') (\<lambda>motorHead.
                     ebind (FreezeInPlace motorHead t) (\<lambda>frozen.
                     Inr (g\<lparr>wavefrontEdges := edges,
                            vertices := (vertices g)[unat (m_head motor) := frozen],
                            motorcycleSegments := erase_at (motorcycleSegments g) m\<rparr>,
                          result)))))))))))))))"

subsection \<open>CalculateSkeleton: a group of collapses\<close>

lemma count_update_less:
  "i < length xs \<Longrightarrow> xs ! i = a \<Longrightarrow> b \<noteq> a \<Longrightarrow>
     length (filter (\<lambda>x. x = a) (xs[i := b])) < length (filter (\<lambda>x. x = a) xs)"
proof (induction xs arbitrary: i)
  case Nil
  then show ?case by simp
next
  case (Cons x xs)
  show ?case
  proof (cases i)
    case 0
    with Cons.prems show ?thesis by simp
  next
    case (Suc j)
    with Cons.prems Cons.IH [of j] show ?thesis by simp
  qed
qed

text \<open>
  "got back as far as possible, from tail to tail": the first inner \<^verbatim>\<open>for (;;)\<close>. The
  entries of \<open>bestCollapse\<close> hold positions of \<open>edges\<close>.
\<close>

function search_tail ::
  "Segment list \<Rightarrow> (scalar \<times> nat) list \<Rightarrow> u32 \<Rightarrow> u32 list \<Rightarrow> u32 \<Rightarrow> error + (u32 list \<times> u32)" where
  "search_tail edges bestCollapse nextCollapseGroup collapseGroups searchingTail =
     (case find_if (\<lambda>t. head (edges ! snd t) = searchingTail) bestCollapse of
        None \<Rightarrow> Inr (collapseGroups, searchingTail)
      | Some i \<Rightarrow>
          if \<not> i < length collapseGroups then Inl (OutOfRange ''collapseGroups'')
          else if collapseGroups ! i = nextCollapseGroup then Inr (collapseGroups, searchingTail)
          else if collapseGroups ! i \<noteq> NoIndex then
            Inl (AssertFailed ''collapseGroups[std::distance(bestCollapse.begin(), i)] == ~0u'')
          else search_tail edges bestCollapse nextCollapseGroup
                 (collapseGroups[i := nextCollapseGroup]) (tail (edges ! snd (bestCollapse ! i))))"
  by pat_completeness auto
termination
  by (relation "measure (\<lambda>(edges, bestCollapse, nextCollapseGroup, collapseGroups, searchingTail).
                  length (filter (\<lambda>x. x = NoIndex) collapseGroups))")
    (auto intro: count_update_less)

declare search_tail.simps [simp del]

text \<open>"also go forward head to head": the second inner \<^verbatim>\<open>for (;;)\<close>.\<close>

function search_head ::
  "Segment list \<Rightarrow> (scalar \<times> nat) list \<Rightarrow> u32 \<Rightarrow> u32 list \<Rightarrow> u32 \<Rightarrow> error + (u32 list \<times> u32)" where
  "search_head edges bestCollapse nextCollapseGroup collapseGroups searchingHead =
     (case find_if (\<lambda>t. tail (edges ! snd t) = searchingHead) bestCollapse of
        None \<Rightarrow> Inr (collapseGroups, searchingHead)
      | Some i \<Rightarrow>
          if \<not> i < length collapseGroups then Inl (OutOfRange ''collapseGroups'')
          else if collapseGroups ! i = nextCollapseGroup then Inr (collapseGroups, searchingHead)
          else if collapseGroups ! i \<noteq> NoIndex then
            Inl (AssertFailed ''collapseGroups[std::distance(bestCollapse.begin(), i)] == ~0u'')
          else search_head edges bestCollapse nextCollapseGroup
                 (collapseGroups[i := nextCollapseGroup]) (head (edges ! snd (bestCollapse ! i))))"
  by pat_completeness auto
termination
  by (relation "measure (\<lambda>(edges, bestCollapse, nextCollapseGroup, collapseGroups, searchingHead).
                  length (filter (\<lambda>x. x = NoIndex) collapseGroups))")
    (auto intro: count_update_less)

declare search_head.simps [simp del]

record CollapseGroupInfo =
  g_head :: u32
  g_tail :: u32
  g_newVertex :: u32

text \<open>
  The state of the loop that separates the collapses into groups: \<^verbatim>\<open>collapseGroups\<close>,
  \<^verbatim>\<open>collapseGroupInfos\<close> and \<^verbatim>\<open>nextCollapseGroup\<close>.
\<close>

type_synonym grouping = "u32 list \<times> CollapseGroupInfo list \<times> u32"

definition assign_group :: "Segment list \<Rightarrow> (scalar \<times> nat) list \<Rightarrow> nat \<Rightarrow> grouping \<Rightarrow> error + grouping" where
  "assign_group edges bestCollapse c st =
     (let collapseGroups = fst st;
          collapseGroupInfos = fst (snd st);
          nextCollapseGroup = snd (snd st)
      in if collapseGroups ! c \<noteq> NoIndex then Inr st
         else
           ebind (search_tail edges bestCollapse nextCollapseGroup
                    (collapseGroups[c := nextCollapseGroup])
                    (tail (edges ! snd (bestCollapse ! c)))) (\<lambda>back.
           ebind (search_head edges bestCollapse nextCollapseGroup (fst back)
                    (head (edges ! snd (bestCollapse ! c)))) (\<lambda>forward.
           Inr (fst forward,
                collapseGroupInfos @ [\<lparr>g_head = snd forward, g_tail = snd back, g_newVertex = NoIndex\<rparr>],
                nextCollapseGroup + 1))))"

definition find_collapse_groups :: "Segment list \<Rightarrow> (scalar \<times> nat) list \<Rightarrow> error + grouping" where
  "find_collapse_groups edges bestCollapse =
     for_each [0..<length bestCollapse] (assign_group edges bestCollapse)
       (replicate (length bestCollapse) NoIndex, [], 0)"

text \<open>
  The sum of the positions of the ends of the edges of a group at the collapse time, with
  the number of positions added.
\<close>

definition add_contributors :: "Graph \<Rightarrow> real \<Rightarrow> Segment \<Rightarrow> vec2 \<times> u32 \<Rightarrow> error + (vec2 \<times> u32)" where
  "add_contributors g bestCollapseTime seg acc =
     ebind (nth_checked (vertices g) (unat (head seg)) ''_vertices'') (\<lambda>headV.
     ebind (nth_checked (vertices g) (unat (tail seg)) ''_vertices'') (\<lambda>tailV.
     ebind (assert_that (\<not> IsFrozen tailV) ''!IsFrozen(_vertices[seg._tail])'') (\<lambda>_.
     ebind (assert_that (\<not> IsFrozen headV) ''!IsFrozen(_vertices[seg._head])'') (\<lambda>_.
     Inr (vadd (vadd (fst acc) (PositionAtTime headV bestCollapseTime))
               (PositionAtTime tailV bestCollapseTime),
          snd acc + 2)))))"

text \<open>The validation of the \<^verbatim>\<open>_DEBUG\<close> build: every end is close to the collapse point.\<close>

definition validate_contributor :: "Graph \<Rightarrow> real \<Rightarrow> vec2 \<Rightarrow> Segment \<Rightarrow> unit \<Rightarrow> error + unit" where
  "validate_contributor g bestCollapseTime collisionPt seg u =
     ebind (nth_checked (vertices g) (unat (head seg)) ''_vertices'') (\<lambda>headV.
     ebind (nth_checked (vertices g) (unat (tail seg)) ''_vertices'') (\<lambda>tailV.
     ebind (assert_that (Equivalent2 (PositionAtTime headV bestCollapseTime) collisionPt tolerance_1e_3f)
              ''Equivalent(one, collisionPt, Primitive(1e-3f))'') (\<lambda>_.
     assert_that (Equivalent2 (PositionAtTime tailV bestCollapseTime) collisionPt tolerance_1e_3f)
       ''Equivalent(two, collisionPt, Primitive(1e-3f))'')))"

definition freeze_vertex :: "Graph \<Rightarrow> u32 \<Rightarrow> real \<Rightarrow> error + Graph" where
  \<comment> \<open>\<^verbatim>\<open>FreezeInPlace(_vertices[v], atTime)\<close>\<close>
  "freeze_vertex g v atTime =
     ebind (nth_checked (vertices g) (unat v) ''_vertices'') (\<lambda>vert.
     ebind (FreezeInPlace vert atTime) (\<lambda>frozen.
     Inr (g\<lparr>vertices := (vertices g)[unat v := frozen]\<rparr>)))"

text \<open>"connect up edges in the output graph", for one edge of the group.\<close>

definition connect_and_freeze ::
  "real \<Rightarrow> real \<Rightarrow> u32 \<Rightarrow> Segment \<Rightarrow> Graph \<times> StraightSkeleton \<Rightarrow> error + (Graph \<times> StraightSkeleton)" where
  "connect_and_freeze eps bestCollapseTime collisionVertId seg st =
     ebind (AddEdgeForVertexPath eps (fst st) (snd st) (head seg) collisionVertId) (\<lambda>result.
     ebind (AddEdgeForVertexPath eps (fst st) result (tail seg) collisionVertId) (\<lambda>result.
     ebind (freeze_vertex (fst st) (tail seg) bestCollapseTime) (\<lambda>g.
     ebind (freeze_vertex g (head seg) bestCollapseTime) (\<lambda>g.
     Inr (g, result)))))"

text \<open>
  The body of the loop over the collapse groups. A group without an edge would divide by
  zero, and the assertion of \<^verbatim>\<open>AddSteinerVertex\<close> that the point is finite would fail.
\<close>

definition collapse_group ::
  "real \<Rightarrow> (scalar \<times> nat) list \<Rightarrow> real \<Rightarrow> u32 list \<Rightarrow> nat
     \<Rightarrow> Graph \<times> StraightSkeleton \<times> CollapseGroupInfo list
     \<Rightarrow> error + (Graph \<times> StraightSkeleton \<times> CollapseGroupInfo list)" where
  "collapse_group eps bestCollapse bestCollapseTime collapseGroups collapseGroup st =
     (let g = fst st;
          members = filter (\<lambda>c. collapseGroups ! c = of_nat collapseGroup) [0..<length bestCollapse];
          segs = map (\<lambda>c. wavefrontEdges g ! snd (bestCollapse ! c)) members
      in ebind (for_each segs (add_contributors g bestCollapseTime) (Zero2, 0)) (\<lambda>acc.
         ebind (assert_that (snd acc \<noteq> 0)
                  ''IsFiniteNumber(vertex[0]) && IsFiniteNumber(vertex[1]) && IsFiniteNumber(vertex[2])'') (\<lambda>_.
           (let collisionPt = vscale (fst acc) (1 / real (unat (snd acc)))
            in ebind (for_each segs (validate_contributor g bestCollapseTime collisionPt) ()) (\<lambda>_.
               ebind (AddSteinerVertex eps (fst (snd st)) (Expand collisionPt bestCollapseTime)) (\<lambda>added.
               ebind (for_each segs (connect_and_freeze eps bestCollapseTime (fst added)) (g, snd added)) (\<lambda>st'.
               Inr ((fst st')\<lparr>vertices := vertices (fst st') @
                       [\<lparr>position = collisionPt, skeletonVertexId = fst added,
                         initialTime = bestCollapseTime, velocity = Zero2\<rparr>]\<rparr>,
                    snd st',
                    (snd (snd st))[collapseGroup :=
                       (snd (snd st) ! collapseGroup)\<lparr>g_newVertex := of_nat (length (vertices (fst st')))\<rparr>]))))))))"

text \<open>
  "Remove all of the collapsed edges (by shifting them to the end)": \<open>is\<close> are the positions
  of the collapsed edges, last first, and \<open>r\<close> the position that the next one is swapped to.
\<close>

fun swap_to_end :: "nat list \<Rightarrow> bool \<Rightarrow> nat \<Rightarrow> Segment list \<Rightarrow> error + (nat \<times> Segment list)" where
  "swap_to_end [] first r edges = Inr (r, edges)"
| "swap_to_end (i # is) first r edges =
     (if \<not> first \<and> r = 0 then Inl (OutOfRange ''_wavefrontEdges'')
      else
        (let r' = (if first then r else r - 1)
         in if \<not> (r' < length edges \<and> i < length edges) then Inl (OutOfRange ''_wavefrontEdges'')
            else swap_to_end is False r' (edges[r' := edges ! i, i := edges ! r'])))"

definition remove_collapsed :: "Segment list \<Rightarrow> (scalar \<times> nat) list \<Rightarrow> error + Segment list" where
  "remove_collapsed edges bestCollapse =
     (if edges = [] then Inl (OutOfRange ''_wavefrontEdges'')
      else
        ebind (swap_to_end (rev (map snd bestCollapse)) True (length edges - 1) edges) (\<lambda>swapped.
        Inr (take (fst swapped) (snd swapped))))"

text \<open>
  The body of the last loop: the edges on both sides of a group are linked to its new
  vertex, and the velocity of the new vertex is computed.
\<close>

definition relink_group :: "real \<Rightarrow> CollapseGroupInfo \<Rightarrow> Graph \<Rightarrow> error + Graph" where
  "relink_group eps grp g =
     (if g_head grp = g_tail grp then Inr g
      else
        ebind (FindInAndOut (wavefrontEdges g) (g_tail grp)) (\<lambda>inAndOutTail.
        ebind (FindInAndOut (wavefrontEdges g) (g_head grp)) (\<lambda>inAndOutHead.
        ebind (assert_that (fst inAndOutTail \<noteq> None \<and> snd inAndOutHead \<noteq> None) ''tail && head'') (\<lambda>_.
          (let ti = the (fst inAndOutTail);
               hi = the (snd inAndOutHead);
               edges1 = (wavefrontEdges g)[ti := (wavefrontEdges g ! ti)\<lparr>head := g_newVertex grp\<rparr>];
               edges2 = edges1[hi := (edges1 ! hi)\<lparr>tail := g_newVertex grp\<rparr>]
           in ebind (nth_checked (vertices g) (unat (g_newVertex grp)) ''_vertices'') (\<lambda>newV.
              ebind (nth_checked (vertices g) (unat (tail (edges2 ! ti))) ''_vertices'') (\<lambda>tailV.
              ebind (nth_checked (vertices g) (unat (head (edges2 ! hi))) ''_vertices'') (\<lambda>headV.
                (let calcTime = initialTime newV;
                     v0 = PositionAtTime tailV calcTime;
                     v1 = position newV;
                     v2 = PositionAtTime headV calcTime
                 in ebind (CalculateVertexVelocity eps v0 v1 v2) (\<lambda>vel.
                    Inr (g\<lparr>wavefrontEdges := edges2,
                           vertices := (vertices g)[unat (g_newVertex grp) := newV\<lparr>velocity := vel\<rparr>]\<rparr>)))))))))))"

text \<open>The collapse of the edges of \<open>bestCollapse\<close> at the time \<open>bestCollapseTime\<close>.\<close>

definition process_collapse ::
  "real \<Rightarrow> (scalar \<times> nat) list \<Rightarrow> real \<Rightarrow> Graph \<times> StraightSkeleton \<Rightarrow> error + (Graph \<times> StraightSkeleton)" where
  "process_collapse eps bestCollapse bestCollapseTime st =
     (let g = fst st
      in if \<exists>e\<in>set bestCollapse. \<not> snd e < length (wavefrontEdges g) then Inl (OutOfRange ''_wavefrontEdges'')
         else
           ebind (find_collapse_groups (wavefrontEdges g) bestCollapse) (\<lambda>grouping.
           ebind (for_each [0..<unat (snd (snd grouping))]
                    (collapse_group eps bestCollapse bestCollapseTime (fst grouping))
                    (g, snd st, fst (snd grouping))) (\<lambda>st'.
           ebind (remove_collapsed (wavefrontEdges (fst st')) bestCollapse) (\<lambda>edges.
           ebind (for_each (snd (snd st')) (relink_group eps) ((fst st')\<lparr>wavefrontEdges := edges\<rparr>)) (\<lambda>g'.
           Inr (g', fst (snd st')))))))"

subsection \<open>CalculateSkeleton: the event loop\<close>

datatype 'a outcome = Break | Continue 'a

text \<open>
  One iteration of the \<^verbatim>\<open>for (;;)\<close> of \<^verbatim>\<open>CalculateSkeleton\<close>, on the graph, the output
  skeleton and \<^verbatim>\<open>lastEventTime\<close>. An event time that is the sentinel would make
  \<^verbatim>\<open>PositionAtTime\<close> fail its assertion that the position is finite.
\<close>

definition event_step ::
  "real \<Rightarrow> scalar \<Rightarrow> Graph \<times> StraightSkeleton \<times> real
     \<Rightarrow> error + (Graph \<times> StraightSkeleton \<times> real) outcome" where
  "event_step eps maxTime st =
     (let g = fst st;
          result = fst (snd st);
          lastEventTime = snd (snd st)
      in ebind (find_best_collapse eps g lastEventTime) (\<lambda>collapse.
         ebind (find_best_crash eps g lastEventTime (fst collapse)) (\<lambda>crash.
           (let bestCollapseTime = fst collapse;
                bestCollapse = snd collapse;
                bestMotorcycleCrashTime = fst crash;
                bestMotorcycleCrash = snd crash
            in if bestMotorcycleCrash \<noteq> [] then
                 (if scalar_less maxTime bestMotorcycleCrashTime then Inr Break
                  else
                    (let tied = filter (\<lambda>e. scalar_less (c_time (fst e))
                                             (scalar_add bestMotorcycleCrashTime eps))
                                  bestMotorcycleCrash
                     in ebind (assert_that (length tied = 1) ''bestMotorcycleCrash.size() == 1'') (\<lambda>_.
                          (case c_time (fst (tied ! 0)) of
                             NumMax \<Rightarrow>
                               Inl (AssertFailed ''IsFiniteNumber(result[0]) && IsFiniteNumber(result[1])'')
                           | Num t \<Rightarrow>
                               ebind (process_crash eps (fst (tied ! 0)) (snd (tied ! 0)) t (g, result)) (\<lambda>st'.
                               Inr (Continue (fst st', snd st', t)))))))
               else if bestCollapse = [] then Inr Break
               else if scalar_less maxTime bestCollapseTime then Inr Break
               else
                 (case bestCollapseTime of
                    NumMax \<Rightarrow>
                      Inl (AssertFailed ''IsFiniteNumber(result[0]) && IsFiniteNumber(result[1])'')
                  | Num t \<Rightarrow>
                      ebind (process_collapse eps bestCollapse t (g, result)) (\<lambda>st'.
                      Inr (Continue (fst st', snd st', t))))))))"

text \<open>The loop itself: \<open>None\<close> when it does not end.\<close>

partial_function (option) event_loop ::
  "real \<Rightarrow> scalar \<Rightarrow> Graph \<times> StraightSkeleton \<times> real
     \<Rightarrow> (error + (Graph \<times> StraightSkeleton \<times> real)) option" where
  "event_loop eps maxTime st =
     (case event_step eps maxTime st of
        Inl e \<Rightarrow> Some (Inl e)
      | Inr Break \<Rightarrow> Some (Inr st)
      | Inr (Continue st') \<Rightarrow> event_loop eps maxTime st')"

subsection \<open>WriteWavefront\<close>

definition ClosestPointOnLine2D :: "vec2 \<Rightarrow> vec2 \<Rightarrow> vec2 \<Rightarrow> real" where
  "ClosestPointOnLine2D rayStart rayEnd testPt =
     (let ov = vsub testPt rayStart;
          l = vsub rayEnd rayStart
      in Dot ov l / MagnitudeSquared l)"

definition DoColinearLinesIntersect :: "real \<Rightarrow> vec2 \<Rightarrow> vec2 \<Rightarrow> vec2 \<Rightarrow> vec2 \<Rightarrow> bool" where
  "DoColinearLinesIntersect eps AStart AEnd BStart BEnd =
     (let closestBStart = ClosestPointOnLine2D AStart AEnd BStart;
          closestBEnd = ClosestPointOnLine2D AStart AEnd BEnd
      in (closestBStart > eps \<and> closestBStart > 1 - eps)
       \<or> (closestBEnd > eps \<and> closestBEnd > 1 - eps)
       \<or> (Equivalent2 AStart BStart eps \<and> Equivalent2 AEnd BEnd eps)
       \<or> (Equivalent2 AEnd BStart eps \<and> Equivalent2 AStart BEnd eps))"

text \<open>The first loop: every wavefront edge becomes a segment between two Steiner vertices.\<close>

definition wavefront_segment ::
  "real \<Rightarrow> Graph \<Rightarrow> real \<Rightarrow> Segment \<Rightarrow> StraightSkeleton \<times> Segment list
     \<Rightarrow> error + (StraightSkeleton \<times> Segment list)" where
  "wavefront_segment eps g time i st =
     ebind (nth_checked (vertices g) (unat (head i)) ''_vertices'') (\<lambda>headV.
     ebind (nth_checked (vertices g) (unat (tail i)) ''_vertices'') (\<lambda>tailV.
     ebind (AddSteinerVertex eps (fst st) (ClampedPositionAtTime eps headV time)) (\<lambda>v0.
     ebind (AddSteinerVertex eps (snd v0) (ClampedPositionAtTime eps tailV time)) (\<lambda>v1.
     Inr (snd v1,
          if fst v0 \<noteq> fst v1
          then \<lparr>head = fst v0, tail = fst v1, leftFace = leftFace i, rightFace = rightFace i\<rparr> # snd st
          else snd st)))))"

text \<open>
  The state of the loop that compares the segment \<open>seg\<close> with the segments accepted so far:
  the segment and its two ends \<open>A\<close> and \<open>B\<close>, \<^verbatim>\<open>filteredSegments\<close>, the stack
  \<^verbatim>\<open>segmentsToTest\<close> (its top first) and \<^verbatim>\<open>filterOutSeg\<close>, which also ends the loop.
\<close>

record test_state =
  ts_seg :: Segment
  ts_A :: vec2
  ts_B :: vec2
  ts_filtered :: "Segment list"
  ts_stack :: "Segment list"
  ts_filterOut :: bool

definition segment_points :: "vec3 list \<Rightarrow> Segment \<Rightarrow> error + (vec2 \<times> vec2)" where
  "segment_points sv s =
     ebind (nth_checked sv (unat (head s)) ''_steinerVertices'') (\<lambda>a.
     ebind (nth_checked sv (unat (tail s)) ''_steinerVertices'') (\<lambda>b.
     Inr (Truncate a, Truncate b)))"

text \<open>
  Two gradients are compared as floating-point numbers: the gradient of a vertical segment
  is infinite or not a number, and is equivalent to no gradient.
\<close>

definition gradients_equivalent :: "real \<Rightarrow> vec2 \<Rightarrow> vec2 \<Rightarrow> vec2 \<Rightarrow> vec2 \<Rightarrow> bool" where
  "gradients_equivalent eps A B C D =
     (let m0 = (snd B - snd A) / (fst B - fst A);
          m1 = (snd D - snd C) / (fst D - fst C)
      in fst B - fst A \<noteq> 0 \<and> fst D - fst C \<noteq> 0 \<and> Equivalent m0 m1 eps)"

text \<open>
  The segments "are colinear, and at least one point of i2 is on i", and they share no
  end: the two segments become three. A segment written \<^verbatim>\<open>{head, tail}\<close> has both faces 0.
\<close>

definition split_overlap :: "real \<Rightarrow> vec3 list \<Rightarrow> real \<Rightarrow> real \<Rightarrow> nat \<Rightarrow> test_state \<Rightarrow> error + test_state" where
  "split_overlap eps sv closestC closestD i2 st =
     (let seg = ts_seg st;
          s2 = ts_filtered st ! i2;
          pieces =
            (if closestC < 0 then
               (if closestD > 1
                then (\<lparr>head = tail seg, tail = tail s2, leftFace = 0, rightFace = 0\<rparr>,
                      seg, s2\<lparr>tail := head seg\<rparr>)
                else (\<lparr>head = tail s2, tail = tail seg, leftFace = 0, rightFace = 0\<rparr>,
                      seg\<lparr>tail := tail s2\<rparr>, s2\<lparr>tail := head seg\<rparr>))
             else if closestD < 0 then
               (if closestC > 1
                then (\<lparr>head = tail seg, tail = head s2, leftFace = 0, rightFace = 0\<rparr>,
                      seg, s2\<lparr>head := head seg\<rparr>)
                else (\<lparr>head = head s2, tail = tail seg, leftFace = 0, rightFace = 0\<rparr>,
                      seg\<lparr>tail := head s2\<rparr>, s2\<lparr>head := head seg\<rparr>))
             else if closestC < closestD then
               (if closestD > 1
                then (\<lparr>head = tail seg, tail = tail s2, leftFace = 0, rightFace = 0\<rparr>,
                      seg\<lparr>tail := head s2\<rparr>, s2)
                else (\<lparr>head = tail s2, tail = tail seg, leftFace = 0, rightFace = 0\<rparr>,
                      seg\<lparr>tail := head s2\<rparr>, s2))
             else
               (if closestC > 1
                then (\<lparr>head = tail seg, tail = head s2, leftFace = 0, rightFace = 0\<rparr>,
                      seg\<lparr>tail := tail s2\<rparr>, s2)
                else (\<lparr>head = head s2, tail = tail seg, leftFace = 0, rightFace = 0\<rparr>,
                      seg\<lparr>tail := tail s2\<rparr>, s2)));
          newSeg = fst pieces;
          seg' = fst (snd pieces);
          s2' = snd (snd pieces)
      in ebind (segment_points sv newSeg) (\<lambda>pn.
         ebind (segment_points sv seg') (\<lambda>ps.
         ebind (segment_points sv s2') (\<lambda>p2.
         ebind (assert_that (\<not> DoColinearLinesIntersect eps (fst pn) (snd pn) (fst ps) (snd ps))
                  ''!DoColinearLinesIntersect(newSeg, seg)'') (\<lambda>_.
         ebind (assert_that (\<not> DoColinearLinesIntersect eps (fst pn) (snd pn) (fst p2) (snd p2))
                  ''!DoColinearLinesIntersect(newSeg, i2)'') (\<lambda>_.
         ebind (assert_that (\<not> DoColinearLinesIntersect eps (fst p2) (snd p2) (fst ps) (snd ps))
                  ''!DoColinearLinesIntersect(i2, seg)'') (\<lambda>_.
         ebind (assert_that (head newSeg \<noteq> tail newSeg) ''newSeg._head != newSeg._tail'') (\<lambda>_.
         ebind (assert_that (head s2' \<noteq> tail s2') ''i2->_head != i2->_tail'') (\<lambda>_.
         ebind (assert_that (head seg' \<noteq> tail seg') ''seg._head != seg._tail'') (\<lambda>_.
         Inr (st\<lparr>ts_seg := seg',
                 ts_filtered := (ts_filtered st)[i2 := s2'],
                 ts_stack := newSeg # ts_stack st\<rparr>)))))))))))"

text \<open>The segments are colinear and overlap: the change made to \<open>seg\<close> or to the segment at \<open>i2\<close>.\<close>

definition resolve_overlap :: "real \<Rightarrow> vec3 list \<Rightarrow> real \<Rightarrow> real \<Rightarrow> nat \<Rightarrow> test_state \<Rightarrow> error + test_state" where
  "resolve_overlap eps sv closestC closestD i2 st =
     (let seg = ts_seg st;
          s2 = ts_filtered st ! i2
      in if head s2 = head seg then
           (if closestD < 1 then Inr (st\<lparr>ts_seg := seg\<lparr>head := tail s2\<rparr>\<rparr>)
            else Inr (st\<lparr>ts_filtered := (ts_filtered st)[i2 := s2\<lparr>head := tail seg\<rparr>]\<rparr>))
         else if head s2 = tail seg then
           (if closestD > 0 then Inr (st\<lparr>ts_seg := seg\<lparr>tail := tail s2\<rparr>\<rparr>)
            else Inr (st\<lparr>ts_filtered := (ts_filtered st)[i2 := s2\<lparr>head := head seg\<rparr>]\<rparr>))
         else if tail s2 = head seg then
           (if closestC < 1 then Inr (st\<lparr>ts_seg := seg\<lparr>head := head s2\<rparr>\<rparr>)
            else Inr (st\<lparr>ts_filtered := (ts_filtered st)[i2 := s2\<lparr>tail := tail seg\<rparr>]\<rparr>))
         else if tail s2 = tail seg then
           (if closestC > 0 then Inr (st\<lparr>ts_seg := seg\<lparr>tail := head s2\<rparr>\<rparr>)
            else Inr (st\<lparr>ts_filtered := (ts_filtered st)[i2 := s2\<lparr>tail := head seg\<rparr>]\<rparr>))
         else split_overlap eps sv closestC closestD i2 st)"

text \<open>The body of the loop over \<^verbatim>\<open>filteredSegments\<close>, for the segment at position \<open>i2\<close>.\<close>

definition test_segment :: "real \<Rightarrow> vec3 list \<Rightarrow> nat \<Rightarrow> test_state \<Rightarrow> error + test_state" where
  "test_segment eps sv i2 st =
     (if ts_filterOut st then Inr st
      else
        (let seg = ts_seg st;
             s2 = ts_filtered st ! i2
         in if head s2 = head seg \<and> tail s2 = tail seg then
              Inr (st\<lparr>ts_filtered := (ts_filtered st)[i2 :=
                         s2\<lparr>leftFace := (if leftFace s2 = NoIndex then leftFace seg else leftFace s2),
                            rightFace := (if rightFace s2 = NoIndex then rightFace seg else rightFace s2)\<rparr>],
                      ts_filterOut := True\<rparr>)
            else if head s2 = tail seg \<and> tail s2 = head seg then
              Inr (st\<lparr>ts_filtered := (ts_filtered st)[i2 :=
                         s2\<lparr>leftFace := (if leftFace s2 = NoIndex then rightFace seg else leftFace s2),
                            rightFace := (if rightFace s2 = NoIndex then leftFace seg else rightFace s2)\<rparr>],
                      ts_filterOut := True\<rparr>)
            else
              ebind (segment_points sv s2) (\<lambda>cd.
                (let A = ts_A st; B = ts_B st;
                     C = fst cd; D = snd cd;
                     closestC = ClosestPointOnLine2D A B C;
                     closestD = ClosestPointOnLine2D A B D;
                     COnLine = (closestC > 0 \<and> closestC < 1 \<and>
                                MagnitudeSquared (vsub (LinearInterpolate A B closestC) C) < eps);
                     DOnLine = (closestD > 0 \<and> closestD < 1 \<and>
                                MagnitudeSquared (vsub (LinearInterpolate A B closestD) D) < eps)
                 in if \<not> COnLine \<and> \<not> DOnLine then Inr st
                    else if \<not> gradients_equivalent eps A B C D then Inr st
                    else
                      ebind (resolve_overlap eps sv closestC closestD i2 st) (\<lambda>st'.
                      ebind (segment_points sv (ts_seg st')) (\<lambda>ab.
                      Inr (st'\<lparr>ts_A := fst ab, ts_B := snd ab\<rparr>)))))))"

text \<open>One iteration of \<^verbatim>\<open>while (!segmentsToTest.empty())\<close>, for the segment on top of the stack.\<close>

definition test_top_segment ::
  "real \<Rightarrow> vec3 list \<Rightarrow> Segment \<Rightarrow> Segment list \<Rightarrow> Segment list \<Rightarrow> error + (Segment list \<times> Segment list)" where
  "test_top_segment eps sv seg rest filteredSegments =
     ebind (segment_points sv seg) (\<lambda>ab.
     ebind (for_each [0..<length filteredSegments] (test_segment eps sv)
              \<lparr>ts_seg = seg, ts_A = fst ab, ts_B = snd ab, ts_filtered = filteredSegments,
                ts_stack = rest, ts_filterOut = False\<rparr>) (\<lambda>ts.
     Inr (ts_stack ts,
          if ts_filterOut ts then ts_filtered ts else ts_filtered ts @ [ts_seg ts])))"

partial_function (option) filter_segments ::
  "real \<Rightarrow> vec3 list \<Rightarrow> Segment list \<times> Segment list \<Rightarrow> (error + Segment list) option" where
  "filter_segments eps sv st =
     (case fst st of
        [] \<Rightarrow> Some (Inr (snd st))
      | seg # rest \<Rightarrow>
          (case test_top_segment eps sv seg rest (snd st) of
             Inl e \<Rightarrow> Some (Inl e)
           | Inr st' \<Rightarrow> filter_segments eps sv st'))"

definition add_wavefront_edge :: "Segment \<Rightarrow> StraightSkeleton \<Rightarrow> error + StraightSkeleton" where
  "add_wavefront_edge seg result =
     ebind (assert_that (head seg \<noteq> tail seg) ''seg._head != seg._tail'') (\<lambda>_.
     AddEdge result (head seg) (tail seg) (leftFace seg) (rightFace seg) Wavefront)"

definition trace_vertex :: "real \<Rightarrow> Graph \<Rightarrow> real \<Rightarrow> u32 \<Rightarrow> StraightSkeleton \<Rightarrow> error + StraightSkeleton" where
  "trace_vertex eps g time v result =
     ebind (nth_checked (vertices g) (unat v) ''_vertices'') (\<lambda>vert.
     ebind (AddSteinerVertex eps result (ClampedPositionAtTime eps vert time)) (\<lambda>added.
     AddEdgeForVertexPath eps g (snd added) v (fst added)))"

definition trace_segment :: "real \<Rightarrow> Graph \<Rightarrow> real \<Rightarrow> Segment \<Rightarrow> StraightSkeleton \<Rightarrow> error + StraightSkeleton" where
  "trace_segment eps g time seg result = for_each [head seg, tail seg] (trace_vertex eps g time) result"

definition WriteWavefront :: "real \<Rightarrow> Graph \<Rightarrow> StraightSkeleton \<Rightarrow> real \<Rightarrow> (error + StraightSkeleton) option" where
  "WriteWavefront eps g result time =
     (case for_each (wavefrontEdges g) (wavefront_segment eps g time) (result, []) of
        Inl e \<Rightarrow> Some (Inl e)
      | Inr st \<Rightarrow>
          map_option
            (\<lambda>filtered.
               ebind filtered (\<lambda>filteredSegments.
               ebind (for_each filteredSegments add_wavefront_edge (fst st)) (\<lambda>result.
               for_each (wavefrontEdges g) (trace_segment eps g time) result)))
            (filter_segments eps (steinerVertices (fst st)) (snd st, [])))"

subsection \<open>CalculateSkeleton and CalculateStraightSkeleton\<close>

definition CalculateSkeleton :: "real \<Rightarrow> Graph \<Rightarrow> scalar \<Rightarrow> (error + StraightSkeleton) option" where
  "CalculateSkeleton eps g maxTime =
     (let result = \<lparr>steinerVertices = [], faces = replicate (length (boundaryPoints g)) [],
                    unplacedEdges = []\<rparr>
      in case event_loop eps maxTime (g, result, 0) of
           None \<Rightarrow> None
         | Some (Inl e) \<Rightarrow> Some (Inl e)
         | Some (Inr st) \<Rightarrow>
             WriteWavefront eps (fst st) (fst (snd st))
               (case maxTime of NumMax \<Rightarrow> snd (snd st) | Num t \<Rightarrow> t))"

definition CalculateStraightSkeleton :: "real \<Rightarrow> vec2 list \<Rightarrow> scalar \<Rightarrow> (error + StraightSkeleton) option" where
  "CalculateStraightSkeleton eps vs maxInset =
     (case BuildGraphFromVertexLoop eps vs of
        Inl e \<Rightarrow> Some (Inl e)
      | Inr graph \<Rightarrow> CalculateSkeleton eps graph maxInset)"

subsection \<open>AsVertexLoopsOrdered\<close>

text \<open>
  The scan of the pool for the segment that starts at \<open>searching\<close>
  (\<^verbatim>\<open>for (auto i=pool.begin(); i!=pool.end(); ++i)\<close>): \<open>i\<close> is the position reached and
  \<open>hit\<close> the position found so far, \<open>None\<close> for \<^verbatim>\<open>pool.end()\<close>.
\<close>

fun find_hit :: "u32 \<Rightarrow> (u32 \<times> u32) list \<Rightarrow> nat \<Rightarrow> nat option \<Rightarrow> error + nat option" where
  "find_hit searching [] i hit = Inr hit"
| "find_hit searching (p # ps) i hit =
     (if fst p = searching then
        (case hit of
           Some h \<Rightarrow> Inl (AssertFailed ''hit == pool.end()'')
         | None \<Rightarrow> find_hit searching ps (Suc i) (Some i))
      else find_hit searching ps (Suc i) hit)"

lemma find_hit_bound:
  "find_hit s ps i hit = Inr (Some h) \<Longrightarrow> (hit = Some h) \<or> (i \<le> h \<and> h < i + length ps)"
proof (induction ps arbitrary: i hit)
  case Nil
  then show ?case by simp
next
  case (Cons p ps)
  show ?case
  proof (cases "fst p = s")
    case True
    with Cons.prems obtain "hit = None" and r: "find_hit s ps (Suc i) (Some i) = Inr (Some h)"
      by (cases hit) auto
    from Cons.IH [OF r] show ?thesis by auto
  next
    case False
    with Cons.prems have "find_hit s ps (Suc i) hit = Inr (Some h)" by simp
    from Cons.IH [OF this] show ?thesis by auto
  qed
qed

lemma length_erase_at: "i < length xs \<Longrightarrow> length (erase_at xs i) < length xs"
  by (simp add: erase_at_def)

text \<open>
  The inner \<^verbatim>\<open>for (;;)\<close> of \<^verbatim>\<open>AsVertexLoopsOrdered\<close>: it follows the segments from the
  last vertex of \<open>workingLoop\<close> until the next vertex is already in the loop.
\<close>

function follow_loop :: "(u32 \<times> u32) list \<Rightarrow> u32 list \<Rightarrow> error + ((u32 \<times> u32) list \<times> u32 list)" where
  "follow_loop pool workingLoop =
     (if pool = [] then Inl (AssertFailed ''!pool.empty()'')
      else
        (case find_hit (last workingLoop) pool 0 None of
           Inl e \<Rightarrow> Inl e
         | Inr None \<Rightarrow> Inl (AssertFailed ''hit != pool.end()'')
         | Inr (Some hit) \<Rightarrow>
             (let newVert = snd (pool ! hit);
                  pool' = erase_at pool hit
              in if newVert \<in> set workingLoop then Inr (pool', workingLoop)
                 else follow_loop pool' (workingLoop @ [newVert]))))"
  by pat_completeness auto
termination
proof (relation "measure (\<lambda>(pool, workingLoop). length pool)")
  show "wf (measure (\<lambda>(pool, workingLoop). length pool))" by simp
next
  fix pool :: "(u32 \<times> u32) list" and workingLoop x2 x2a newVert pool'
  assume "find_hit (last workingLoop) pool 0 None = Inr x2" "x2 = Some x2a"
    and "pool' = erase_at pool x2a"
  then have "x2a < length pool" using find_hit_bound [of "last workingLoop" pool 0 None x2a] by auto
  then show "((pool', workingLoop @ [newVert]), (pool, workingLoop)) \<in> measure (\<lambda>(pool, workingLoop). length pool)"
    using \<open>pool' = erase_at pool x2a\<close> by (simp add: length_erase_at)
qed

declare follow_loop.simps [simp del]

lemma follow_loop_length:
  "follow_loop pool wl = Inr (pool', wl') \<Longrightarrow> length pool' < length pool"
proof (induction pool wl rule: follow_loop.induct)
  case (1 pool workingLoop)
  note eq = "1.prems" [unfolded follow_loop.simps [of pool workingLoop]]
  from eq have ne: "pool \<noteq> []" by (auto split: if_splits)
  from eq ne obtain hit where h: "find_hit (last workingLoop) pool 0 None = Inr (Some hit)"
    by (auto split: sum.splits option.splits)
  then have hb: "hit < length pool" using find_hit_bound [of "last workingLoop" pool 0 None hit] by auto
  show ?case
  proof (cases "snd (pool ! hit) \<in> set workingLoop")
    case True
    with eq ne h have "pool' = erase_at pool hit" by simp
    with hb show ?thesis by (simp add: length_erase_at)
  next
    case False
    with eq ne h have "follow_loop (erase_at pool hit) (workingLoop @ [snd (pool ! hit)]) = Inr (pool', wl')"
      by simp
    from "1.IH" [OF ne h refl refl refl False this] have "length pool' < length (erase_at pool hit)" .
    with hb show ?thesis using length_erase_at [of hit pool] by simp
  qed
qed

text \<open>The outer \<^verbatim>\<open>while (!pool.empty())\<close>.\<close>

function loops_from_pool :: "(u32 \<times> u32) list \<Rightarrow> u32 list list \<Rightarrow> error + u32 list list" where
  "loops_from_pool pool result =
     (if pool = [] then Inr result
      else
        (let i = last pool;
             workingLoop = [fst i, snd i];
             pool1 = butlast pool
         in case follow_loop pool1 workingLoop of
              Inl e \<Rightarrow> Inl e
            | Inr (pool2, workingLoop2) \<Rightarrow> loops_from_pool pool2 (result @ [workingLoop2])))"
  by pat_completeness auto
termination
proof (relation "measure (\<lambda>(pool, result). length pool)")
  show "wf (measure (\<lambda>(pool, result). length pool))" by simp
next
  fix pool :: "(u32 \<times> u32) list" and result :: "u32 list list" and i workingLoop pool1 x2 pool2 workingLoop2
  assume "pool \<noteq> []" "pool1 = butlast pool" "follow_loop pool1 workingLoop = Inr x2" "(pool2, workingLoop2) = x2"
  then have "length pool2 < length (butlast pool)" using follow_loop_length [of pool1 workingLoop pool2 workingLoop2] by simp
  then show "((pool2, result @ [workingLoop2]), (pool, result)) \<in> measure (\<lambda>(pool, result). length pool)"
    by simp
qed

declare loops_from_pool.simps [simp del]

definition AsVertexLoopsOrdered :: "(u32 \<times> u32) list \<Rightarrow> error + u32 list list" where
  "AsVertexLoopsOrdered segments = loops_from_pool segments []"

text \<open>
  The segments of a vertex loop \<open>l\<close>: each vertex is joined to the next one, and the
  last to the first.
\<close>

definition loop_segments :: "u32 list \<Rightarrow> (u32 \<times> u32) list" where
  "loop_segments l = zip l (rotate1 l)"

definition closed_loops :: "(u32 \<times> u32) list \<Rightarrow> bool" where
  "closed_loops pool \<longleftrightarrow>
     distinct (map fst pool) \<and> distinct (map snd pool) \<and>
     set (map fst pool) = set (map snd pool)"

text \<open>
  The reading of "an edge set forming only closed head-to-tail chains" that the
  loop-reconstruction claim is stated with: the tail of every segment is the head of a segment.
\<close>

definition no_open_chain :: "(u32 \<times> u32) list \<Rightarrow> bool" where
  "no_open_chain pool \<longleftrightarrow> (\<forall>s\<in>set pool. \<exists>t\<in>set pool. fst t = snd s)"

definition chain_inv :: "(u32 \<times> u32) list \<Rightarrow> u32 list \<Rightarrow> bool" where
  "chain_inv pool wl \<longleftrightarrow>
     distinct (map fst pool) \<and> distinct (map snd pool) \<and> distinct wl \<and> 2 \<le> length wl \<and>
     set (map fst pool) \<inter> set (butlast wl) = {} \<and>
     set (map snd pool) \<inter> set (tl wl) = {} \<and>
     set (map fst pool) \<union> set (butlast wl) = set (map snd pool) \<union> set (tl wl)"

definition WavefrontAsVertexLoops :: "StraightSkeleton \<Rightarrow> error + u32 list list" where
  "WavefrontAsVertexLoops skeleton =
     AsVertexLoopsOrdered
       (concat (map (\<lambda>f. map (\<lambda>e. (e_head e, e_tail e)) (filter (\<lambda>e. e_type e = Wavefront) f))
                  (faces skeleton)))"

subsection \<open>The instantiation for \<^verbatim>\<open>int32_t\<close>: CalculateCollapseTime\<close>










subsection \<open>Inputs and predicates that the properties are stated with\<close>

text \<open>
  The reflex vertices of an input loop, in the order of the loop: the positions whose
  winding, from the vertex before to the vertex after, is classified as Right.
\<close>

definition is_reflex :: "vec2 list \<Rightarrow> nat \<Rightarrow> bool" where
  "is_reflex vs v \<longleftrightarrow>
     CalculateWindingType (vs ! ((v + length vs - 1) mod length vs)) (vs ! v)
       (vs ! ((v + 1) mod length vs)) build_threshold = Right"

definition reflex_vertices :: "vec2 list \<Rightarrow> nat list" where
  "reflex_vertices vs = filter (is_reflex vs) [0..<length vs]"

text \<open>The fixed vertex of the motorcycle of the input vertex \<open>v\<close>.\<close>

definition anchor_vertex :: "vec2 list \<Rightarrow> nat \<Rightarrow> Vertex" where
  "anchor_vertex vs v =
     \<lparr>position = vs ! v, skeletonVertexId = BoundaryVertexFlag OR of_nat v, initialTime = 0,
      velocity = Zero2\<rparr>"

text \<open>The motorcycle from the input vertex \<open>v\<close> to the fixed vertex at position \<open>a\<close>.\<close>

definition motorcycle_to :: "vec2 list \<Rightarrow> nat \<Rightarrow> nat \<Rightarrow> MotorcycleSegment" where
  "motorcycle_to vs a v =
     \<lparr>m_head = of_nat v, m_tail = of_nat a,
      m_leftFace = of_nat ((v + length vs - 1) mod length vs), m_rightFace = of_nat v\<rparr>"



text \<open>
  The axis that \<^verbatim>\<open>CalculateCollapseTime\<close> solves on for two vertices, the one with the
  larger absolute difference of the velocities (the y axis when they are equal), and the
  other axis, as projections of a point.
\<close>

definition dominant_axis :: "Vertex \<Rightarrow> Vertex \<Rightarrow> vec2 \<Rightarrow> real" where
  "dominant_axis v0 v1 =
     (if \<bar>fst (velocity v0) - fst (velocity v1)\<bar> > \<bar>snd (velocity v0) - snd (velocity v1)\<bar>
      then fst else snd)"

definition other_axis :: "Vertex \<Rightarrow> Vertex \<Rightarrow> vec2 \<Rightarrow> real" where
  "other_axis v0 v1 =
     (if \<bar>fst (velocity v0) - fst (velocity v1)\<bar> > \<bar>snd (velocity v0) - snd (velocity v1)\<bar>
      then snd else fst)"

text \<open>Two corners of the unit square, as vertices of its graph.\<close>

definition corner0 :: Vertex where
  "corner0 = \<lparr>position = (0, 0), skeletonVertexId = BoundaryVertexFlag OR 0, initialTime = 0, velocity = (1, 1)\<rparr>"

definition corner1 :: Vertex where
  "corner1 = \<lparr>position = (1, 0), skeletonVertexId = BoundaryVertexFlag OR 1, initialTime = 0, velocity = (- 1, 1)\<rparr>"

definition unit_square :: "vec2 list" where
  "unit_square = [(0, 0), (1, 0), (1, 1), (0, 1)]"

definition unit_square_graph :: Graph where
  "unit_square_graph =
     \<lparr>vertices =
        [\<lparr>position = (0, 0), skeletonVertexId = BoundaryVertexFlag OR 0, initialTime = 0, velocity = (1, 1)\<rparr>,
         \<lparr>position = (1, 0), skeletonVertexId = BoundaryVertexFlag OR 1, initialTime = 0, velocity = (- 1, 1)\<rparr>,
         \<lparr>position = (1, 1), skeletonVertexId = BoundaryVertexFlag OR 2, initialTime = 0, velocity = (- 1, - 1)\<rparr>,
         \<lparr>position = (0, 1), skeletonVertexId = BoundaryVertexFlag OR 3, initialTime = 0, velocity = (1, - 1)\<rparr>],
      wavefrontEdges =
        [\<lparr>head = 1, tail = 0, leftFace = NoIndex, rightFace = 0\<rparr>,
         \<lparr>head = 2, tail = 1, leftFace = NoIndex, rightFace = 1\<rparr>,
         \<lparr>head = 3, tail = 2, leftFace = NoIndex, rightFace = 2\<rparr>,
         \<lparr>head = 0, tail = 3, leftFace = NoIndex, rightFace = 3\<rparr>],
      motorcycleSegments = [],
      boundaryPoints = unit_square\<rparr>"

text \<open>The graph of the unit square after its four edges have collapsed.\<close>

definition unit_square_collapsed :: Graph where
  "unit_square_collapsed =
     \<lparr>vertices =
        [\<lparr>position = (1 / 2, 1 / 2), skeletonVertexId = NoIndex, initialTime = 1 / 2, velocity = (0, 0)\<rparr>,
         \<lparr>position = (1 / 2, 1 / 2), skeletonVertexId = NoIndex, initialTime = 1 / 2, velocity = (0, 0)\<rparr>,
         \<lparr>position = (1 / 2, 1 / 2), skeletonVertexId = NoIndex, initialTime = 1 / 2, velocity = (0, 0)\<rparr>,
         \<lparr>position = (1 / 2, 1 / 2), skeletonVertexId = NoIndex, initialTime = 1 / 2, velocity = (0, 0)\<rparr>,
         \<lparr>position = (1 / 2, 1 / 2), skeletonVertexId = 0, initialTime = 1 / 2, velocity = (0, 0)\<rparr>],
      wavefrontEdges = [],
      motorcycleSegments = [],
      boundaryPoints = unit_square\<rparr>"

definition unit_square_skeleton :: StraightSkeleton where
  "unit_square_skeleton =
     \<lparr>steinerVertices = [(1 / 2, 1 / 2, 1 / 2)],
      faces =
        [[\<lparr>e_head = BoundaryVertexFlag OR 1, e_tail = 0, e_type = VertexPath\<rparr>,
          \<lparr>e_head = 0, e_tail = BoundaryVertexFlag OR 0, e_type = VertexPath\<rparr>],
         [\<lparr>e_head = 0, e_tail = BoundaryVertexFlag OR 1, e_type = VertexPath\<rparr>,
          \<lparr>e_head = BoundaryVertexFlag OR 2, e_tail = 0, e_type = VertexPath\<rparr>],
         [\<lparr>e_head = 0, e_tail = BoundaryVertexFlag OR 2, e_type = VertexPath\<rparr>,
          \<lparr>e_head = BoundaryVertexFlag OR 3, e_tail = 0, e_type = VertexPath\<rparr>],
         [\<lparr>e_head = BoundaryVertexFlag OR 0, e_tail = 0, e_type = VertexPath\<rparr>,
          \<lparr>e_head = 0, e_tail = BoundaryVertexFlag OR 3, e_type = VertexPath\<rparr>]],
      unplacedEdges = []\<rparr>"

text \<open>
  The skeletons that can be got from a skeleton by adding Steiner vertices and by calls of
  \<^verbatim>\<open>AddEdge\<close> that return.
\<close>

inductive skeleton_extends :: "StraightSkeleton \<Rightarrow> StraightSkeleton \<Rightarrow> bool" where
  same: "skeleton_extends s s"
| vertex: "skeleton_extends s s' \<Longrightarrow> skeleton_extends s (s'\<lparr>steinerVertices := sv\<rparr>)"
| edge: "skeleton_extends s s' \<Longrightarrow> AddEdge s' h t l r ty = Inr s'' \<Longrightarrow> skeleton_extends s s''"

text \<open>No edge of the skeleton joins a Steiner vertex to itself.\<close>

definition no_degenerate_edges :: "StraightSkeleton \<Rightarrow> bool" where
  "no_degenerate_edges s \<longleftrightarrow>
     list_all (\<lambda>e. e_head e \<noteq> e_tail e) (concat (faces s) @ unplacedEdges s)"

text \<open>No edge list of the skeleton holds two edges with the same head and the same tail.\<close>

definition unique_edges :: "StraightSkeleton \<Rightarrow> bool" where
  "unique_edges s \<longleftrightarrow>
     list_all (\<lambda>f. distinct (map (\<lambda>e. (e_head e, e_tail e)) f)) (faces s) \<and>
     distinct (map (\<lambda>e. (e_head e, e_tail e)) (unplacedEdges s))"

text \<open>The ordered pair of Steiner vertices that \<^verbatim>\<open>AddUnique\<close> compares.\<close>

definition edge_key :: "Edge \<Rightarrow> u32 \<times> u32" where
  "edge_key e = (e_head e, e_tail e)"

text \<open>
  The motorcycle at position \<open>m\<close> has a crash that the loop over the motorcycles takes into
  account: its head is moving, and its crash time is not negative and is strictly less than
  \<^verbatim>\<open>bestCollapseTime + GetEpsilon\<close>.
\<close>

definition crash_before_collapse :: "real \<Rightarrow> Graph \<Rightarrow> scalar \<Rightarrow> nat \<Rightarrow> bool" where
  "crash_before_collapse eps g bestCollapseTime m \<longleftrightarrow>
     (case nth_checked (vertices g) (unat (m_head (motorcycleSegments g ! m))) ''_vertices'' of
        Inl e \<Rightarrow> False
      | Inr headV \<Rightarrow>
          \<not> Equivalent2 (velocity headV) Zero2 eps \<and>
          (case CalculateCrashTime eps g headV of
             Inl e \<Rightarrow> False
           | Inr crashEvent \<Rightarrow>
               \<not> scalar_less (c_time crashEvent) (Num 0) \<and>
               scalar_less (c_time crashEvent) (scalar_add bestCollapseTime eps)))"


text \<open>
  What an event at the time \<open>atTime\<close> may do to the vertices \<open>vs\<close> of the graph: vertices
  are added at the end, and a vertex is left as it is or, if it was moving, is the result
  of \<^verbatim>\<open>FreezeInPlace\<close> at the time of the event. The positions of the vertices are
  \<^verbatim>\<open>unsigned\<close>, so this is stated for fewer than \<open>2\<^sup>3\<^sup>2\<close> vertices.
\<close>

definition only_frozen :: "real \<Rightarrow> real \<Rightarrow> Vertex list \<Rightarrow> Vertex list \<Rightarrow> bool" where
  "only_frozen eps atTime vs vs' \<longleftrightarrow>
     length vs \<le> length vs' \<and>
     (length vs' < 2 ^ 32 \<longrightarrow>
        (\<forall>i<length vs. vs' ! i = vs ! i \<or>
           (\<not> Equivalent2 (velocity (vs ! i)) Zero2 eps \<and> FreezeInPlace (vs ! i) atTime = Inr (vs' ! i))))"

text \<open>Both ends of the segment are vertices of \<open>vs\<close> that are moving.\<close>

definition moving_ends :: "real \<Rightarrow> Vertex list \<Rightarrow> Segment \<Rightarrow> bool" where
  "moving_ends eps vs seg \<longleftrightarrow>
     unat (head seg) < length vs \<and> unat (tail seg) < length vs \<and>
     \<not> Equivalent2 (velocity (vs ! unat (head seg))) Zero2 eps \<and>
     \<not> Equivalent2 (velocity (vs ! unat (tail seg))) Zero2 eps"

text \<open>
  The graph of the unit square with one more vertex, which was frozen at the time \<open>1/4\<close>,
  and this graph after the four edges of the square have collapsed.
\<close>

definition frozen_vertex :: Vertex where
  "frozen_vertex = \<lparr>position = (5, 5), skeletonVertexId = NoIndex, initialTime = 1 / 4, velocity = (0, 0)\<rparr>"

definition unit_square_frozen :: Graph where
  "unit_square_frozen = unit_square_graph\<lparr>vertices := vertices unit_square_graph @ [frozen_vertex]\<rparr>"

definition unit_square_frozen_collapsed :: Graph where
  "unit_square_frozen_collapsed =
     unit_square_collapsed\<lparr>vertices :=
       take 4 (vertices unit_square_collapsed) @ [frozen_vertex] @ drop 4 (vertices unit_square_collapsed)\<rparr>"

text \<open>
  A simple polygon with seven vertices, counter-clockwise, with reflex vertices at the
  positions 1 and 3; its graph; and the graph and the skeleton after the collapse of the
  edge from \<open>(5,0)\<close> to \<open>(5,8)\<close> at the time 12.
\<close>

definition heptagon :: "vec2 list" where
  "heptagon = [(0, - 10), (0, 0), (5, 0), (5, 8), (23, 32), (- 30, 32), (- 30, - 10)]"

definition heptagon_graph :: Graph where
  "heptagon_graph =
     \<lparr>vertices =
        [\<lparr>position = (0, - 10), skeletonVertexId = BoundaryVertexFlag OR 0, initialTime = 0, velocity = (- 1, 1)\<rparr>,
         \<lparr>position = (0, 0), skeletonVertexId = BoundaryVertexFlag OR 1, initialTime = 0, velocity = (- 1, 1)\<rparr>,
         \<lparr>position = (5, 0), skeletonVertexId = BoundaryVertexFlag OR 2, initialTime = 0, velocity = (- 1, 1)\<rparr>,
         \<lparr>position = (5, 8), skeletonVertexId = BoundaryVertexFlag OR 3, initialTime = 0, velocity = (- 1, 1 / 3)\<rparr>,
         \<lparr>position = (23, 32), skeletonVertexId = BoundaryVertexFlag OR 4, initialTime = 0, velocity = (- 2, - 1)\<rparr>,
         \<lparr>position = (- 30, 32), skeletonVertexId = BoundaryVertexFlag OR 5, initialTime = 0, velocity = (1, - 1)\<rparr>,
         \<lparr>position = (- 30, - 10), skeletonVertexId = BoundaryVertexFlag OR 6, initialTime = 0, velocity = (1, 1)\<rparr>,
         \<lparr>position = (0, 0), skeletonVertexId = BoundaryVertexFlag OR 1, initialTime = 0, velocity = (0, 0)\<rparr>,
         \<lparr>position = (5, 8), skeletonVertexId = BoundaryVertexFlag OR 3, initialTime = 0, velocity = (0, 0)\<rparr>],
      wavefrontEdges =
        [\<lparr>head = 1, tail = 0, leftFace = NoIndex, rightFace = 0\<rparr>,
         \<lparr>head = 2, tail = 1, leftFace = NoIndex, rightFace = 1\<rparr>,
         \<lparr>head = 3, tail = 2, leftFace = NoIndex, rightFace = 2\<rparr>,
         \<lparr>head = 4, tail = 3, leftFace = NoIndex, rightFace = 3\<rparr>,
         \<lparr>head = 5, tail = 4, leftFace = NoIndex, rightFace = 4\<rparr>,
         \<lparr>head = 6, tail = 5, leftFace = NoIndex, rightFace = 5\<rparr>,
         \<lparr>head = 0, tail = 6, leftFace = NoIndex, rightFace = 6\<rparr>],
      motorcycleSegments =
        [\<lparr>m_head = 1, m_tail = 7, m_leftFace = 0, m_rightFace = 1\<rparr>,
         \<lparr>m_head = 3, m_tail = 8, m_leftFace = 2, m_rightFace = 3\<rparr>],
      boundaryPoints = heptagon\<rparr>"

definition heptagon_collapsed :: Graph where
  "heptagon_collapsed =
     \<lparr>vertices =
        [\<lparr>position = (0, - 10), skeletonVertexId = BoundaryVertexFlag OR 0, initialTime = 0, velocity = (- 1, 1)\<rparr>,
         \<lparr>position = (0, 0), skeletonVertexId = BoundaryVertexFlag OR 1, initialTime = 0, velocity = (- 1, 1)\<rparr>,
         \<lparr>position = (- 7, 12), skeletonVertexId = NoIndex, initialTime = 12, velocity = (0, 0)\<rparr>,
         \<lparr>position = (- 7, 12), skeletonVertexId = NoIndex, initialTime = 12, velocity = (0, 0)\<rparr>,
         \<lparr>position = (23, 32), skeletonVertexId = BoundaryVertexFlag OR 4, initialTime = 0, velocity = (- 2, - 1)\<rparr>,
         \<lparr>position = (- 30, 32), skeletonVertexId = BoundaryVertexFlag OR 5, initialTime = 0, velocity = (1, - 1)\<rparr>,
         \<lparr>position = (- 30, - 10), skeletonVertexId = BoundaryVertexFlag OR 6, initialTime = 0, velocity = (1, 1)\<rparr>,
         \<lparr>position = (0, 0), skeletonVertexId = BoundaryVertexFlag OR 1, initialTime = 0, velocity = (0, 0)\<rparr>,
         \<lparr>position = (5, 8), skeletonVertexId = BoundaryVertexFlag OR 3, initialTime = 0, velocity = (0, 0)\<rparr>,
         \<lparr>position = (- 7, 12), skeletonVertexId = 0, initialTime = 12, velocity = (- (1 / 2), 1)\<rparr>],
      wavefrontEdges =
        [\<lparr>head = 1, tail = 0, leftFace = NoIndex, rightFace = 0\<rparr>,
         \<lparr>head = 9, tail = 1, leftFace = NoIndex, rightFace = 1\<rparr>,
         \<lparr>head = 0, tail = 6, leftFace = NoIndex, rightFace = 6\<rparr>,
         \<lparr>head = 4, tail = 9, leftFace = NoIndex, rightFace = 3\<rparr>,
         \<lparr>head = 5, tail = 4, leftFace = NoIndex, rightFace = 4\<rparr>,
         \<lparr>head = 6, tail = 5, leftFace = NoIndex, rightFace = 5\<rparr>],
      motorcycleSegments =
        [\<lparr>m_head = 1, m_tail = 7, m_leftFace = 0, m_rightFace = 1\<rparr>,
         \<lparr>m_head = 3, m_tail = 8, m_leftFace = 2, m_rightFace = 3\<rparr>],
      boundaryPoints = heptagon\<rparr>"

definition heptagon_skeleton :: StraightSkeleton where
  "heptagon_skeleton =
     \<lparr>steinerVertices = [(- 7, 12, 12)],
      faces =
        [[],
         [\<lparr>e_head = BoundaryVertexFlag OR 2, e_tail = 0, e_type = VertexPath\<rparr>],
         [\<lparr>e_head = BoundaryVertexFlag OR 3, e_tail = 0, e_type = VertexPath\<rparr>,
          \<lparr>e_head = 0, e_tail = BoundaryVertexFlag OR 2, e_type = VertexPath\<rparr>],
         [\<lparr>e_head = 0, e_tail = BoundaryVertexFlag OR 3, e_type = VertexPath\<rparr>],
         [], [], []],
      unplacedEdges = []\<rparr>"

section \<open>Basic facts\<close>

lemma ebind_simps [simp]: "ebind (Inl e) f = Inl e" "ebind (Inr x) f = f x"
  by (simp_all add: ebind_def)

lemma assert_that_simps [simp]:
  "assert_that True msg = Inr ()" "assert_that False msg = Inl (AssertFailed msg)"
  by (simp_all add: assert_that_def)

lemma ebind_eq_Inr: "ebind m f = Inr y \<longleftrightarrow> (\<exists>x. m = Inr x \<and> f x = Inr y)"
  by (cases m) simp_all

lemma ebind_Inr_E:
  assumes "ebind m f = Inr y"
  obtains x where "m = Inr x" "f x = Inr y"
  using assms by (auto simp: ebind_eq_Inr)

lemma assert_that_eq_Inr: "assert_that c msg = Inr u \<longleftrightarrow> c"
  by (simp add: assert_that_def)

lemma nth_checked_eq_Inr: "nth_checked xs i name = Inr x \<longleftrightarrow> i < length xs \<and> xs ! i = x"
  by (auto simp: nth_checked_def)

lemma for_each_invariant:
  assumes "for_each xs body s = Inr s'" "P s"
    and "\<And>x s s'. x \<in> set xs \<Longrightarrow> P s \<Longrightarrow> body x s = Inr s' \<Longrightarrow> P s'"
  shows "P s'"
  using assms
proof (induction xs arbitrary: s)
  case Nil
  then show ?case by simp
next
  case (Cons x xs)
  from Cons.prems(1) obtain s1 where b: "body x s = Inr s1" and r: "for_each xs body s1 = Inr s'"
    by (auto simp: ebind_eq_Inr)
  have "P s1" by (rule Cons.prems(3) [OF _ Cons.prems(2) b]) simp
  with r show ?case
  proof (rule Cons.IH [of s1])
    fix y t t' assume "y \<in> set xs" "P t" "body y t = Inr t'"
    then show "P t'" by (intro Cons.prems(3) [of y t t']) simp_all
  qed
qed

lemmas vec_defs = Equivalent_def Equivalent2_def Equivalent3_def Zero2_def vadd_def vsub_def vscale_def
  Dot_def MagnitudeSquared_def Normalize_def LinearInterpolate_def Truncate_def Expand_def midpoint3_def

lemmas model_defs =
  find_best_collapse_def collapse_candidate_def nth_checked_def
  CalculateCollapseTime_def CalculateCollapseTime_points_def
  find_best_crash_def crash_candidate_of_def CalculateCrashTime_def crash_with_edge_def crash_candidate_def
  find_collapse_groups_def assign_group_def search_tail.simps search_head.simps
  process_collapse_def collapse_group_def add_contributors_def validate_contributor_def
  connect_and_freeze_def freeze_vertex_def FreezeInPlace_def IsFrozen_def PositionAtTime_def
  ClampedPositionAtTime_def AddSteinerVertex_def AddEdgeForVertexPath_def AddEdge_def AddUnique_def
  add_face_edge_def add_unplaced_edge_def FindInAndOut_def find_in_out_edge_def
  remove_collapsed_def relink_group_def process_crash_def crash_tout_def crash_tin_def closing_edge_def
  erase_at_def event_step_def WriteWavefront_def wavefront_segment_def test_top_segment_def test_segment_def
  resolve_overlap_def split_overlap_def segment_points_def gradients_equivalent_def
  ClosestPointOnLine2D_def DoColinearLinesIntersect_def add_wavefront_edge_def trace_vertex_def
  trace_segment_def CalculateSkeleton_def CalculateStraightSkeleton_def BoundaryVertexFlag_def NoIndex_def
  BuildGraphFromVertexLoop_def build_vertex_def build_motorcycle_def CalculateVertexVelocity_def
  checked_velocity_def CalculateWindingType_def build_threshold_def tolerance_1e_3f_def

section \<open>The graph of an input loop\<close>

lemma build_vertex_loop:
  assumes "for_each xs (build_vertex eps vs) g0 = Inr g"
  shows "length (vertices g) = length (vertices g0) + length xs \<and>
         motorcycleSegments g = motorcycleSegments g0 \<and>
         length (wavefrontEdges g) = length (wavefrontEdges g0) + length xs"
  using assms
proof (induction xs arbitrary: g0)
  case Nil
  then show ?case by simp
next
  case (Cons x xs)
  from Cons.prems obtain g1 where s: "build_vertex eps vs x g0 = Inr g1"
    and r: "for_each xs (build_vertex eps vs) g1 = Inr g"
    by (auto simp: ebind_eq_Inr)
  from s have "length (vertices g1) = Suc (length (vertices g0)) \<and>
      motorcycleSegments g1 = motorcycleSegments g0 \<and>
      length (wavefrontEdges g1) = Suc (length (wavefrontEdges g0))"
    by (auto simp: build_vertex_def Let_def ebind_eq_Inr)
  with Cons.IH [OF r] show ?case by simp
qed

lemma build_motorcycle_loop:
  assumes "for_each xs (build_motorcycle vs) g0 = Inr g"
  shows "vertices g = vertices g0 @ map (anchor_vertex vs) (filter (is_reflex vs) xs) \<and>
         motorcycleSegments g = motorcycleSegments g0 @
           map2 (motorcycle_to vs)
             [length (vertices g0)..<length (vertices g0) + length (filter (is_reflex vs) xs)]
             (filter (is_reflex vs) xs) \<and>
         wavefrontEdges g = wavefrontEdges g0"
  using assms
proof (induction xs arbitrary: g0)
  case Nil
  then show ?case by simp
next
  case (Cons x xs)
  from Cons.prems obtain g1 where s: "build_motorcycle vs x g0 = Inr g1"
    and r: "for_each xs (build_motorcycle vs) g1 = Inr g"
    by (auto simp: ebind_eq_Inr)
  note ih = Cons.IH [OF r]
  show ?case
  proof (cases "is_reflex vs x")
    case True
    with s have g1: "vertices g1 = vertices g0 @ [anchor_vertex vs x]"
      "motorcycleSegments g1 = motorcycleSegments g0 @ [motorcycle_to vs (length (vertices g0)) x]"
      "wavefrontEdges g1 = wavefrontEdges g0"
      by (auto simp: build_motorcycle_def is_reflex_def Let_def anchor_vertex_def motorcycle_to_def)
    have "[a..<Suc (a + n)] = a # [Suc a..<Suc (a + n)]" for a n :: nat
      by (simp add: upt_conv_Cons)
    with ih True g1 show ?thesis by simp
  next
    case False
    with s have "g1 = g0" by (auto simp: build_motorcycle_def is_reflex_def Let_def)
    with ih False show ?thesis by simp
  qed
qed

lemma BuildGraphFromVertexLoop_parts:
  assumes "BuildGraphFromVertexLoop eps vs = Inr g"
  shows "length (wavefrontEdges g) = length vs \<and>
         take (length vs) (vertices g) @ map (anchor_vertex vs) (reflex_vertices vs) = vertices g \<and>
         length (take (length vs) (vertices g)) = length vs \<and>
         motorcycleSegments g =
           map2 (motorcycle_to vs) [length vs..<length vs + length (reflex_vertices vs)] (reflex_vertices vs)"
proof -
  from assms obtain g1 g2 where
    l1: "for_each [0..<length vs] (build_vertex eps vs)
           \<lparr>vertices = [], wavefrontEdges = [], motorcycleSegments = [], boundaryPoints = []\<rparr> = Inr g1"
    and l2: "for_each [0..<length vs] (build_motorcycle vs) g1 = Inr g2"
    and g: "g = g2\<lparr>boundaryPoints := vs\<rparr>"
    by (auto simp: BuildGraphFromVertexLoop_def ebind_eq_Inr)
  from build_vertex_loop [OF l1] have a: "length (vertices g1) = length vs" "motorcycleSegments g1 = []"
    "length (wavefrontEdges g1) = length vs" by simp_all
  from build_motorcycle_loop [OF l2] a g show ?thesis
    by (simp add: reflex_vertices_def)
qed





text \<open>
  The threshold is the \<^verbatim>\<open>float\<close> literal: a turn to the right with the cross product
  \<^verbatim>\<open>-9.99999998e-07\<close>, which is not below \<open>-1/1000000\<close>, is classified as Right.
\<close>

lemma CalculateWindingType_float_threshold:
  "CalculateWindingType (0, 0) (1, 0) (2, - (999999998 / 10 ^ 15)) build_threshold = Right \<and>
   \<not> (- (999999998 / 10 ^ 15) :: real) < - (1 / 1000000)"
  by (simp add: CalculateWindingType_def build_threshold_def Let_def)

section \<open>The collapse time\<close>

lemma collapse_time_solves:
  fixes p0 p1 v0 v1 d c :: real
  assumes "d = v0 - v1" "d \<noteq> 0"
  shows "p0 + (T - i0) * v0 = p1 + (T - i1) * v1 \<longleftrightarrow>
         T = c + ((p1 + (c - i1) * v1) - (p0 + (c - i0) * v0)) / d"
proof -
  have "p0 + (T - i0) * v0 = p1 + (T - i1) * v1 \<longleftrightarrow> T * d = (p1 - i1 * v1) - (p0 - i0 * v0)"
    unfolding assms(1) by (auto simp: algebra_simps)
  also have "\<dots> \<longleftrightarrow> T = ((p1 - i1 * v1) - (p0 - i0 * v0)) / d"
    using assms(2) by (auto simp: field_simps)
  also have "((p1 - i1 * v1) - (p0 - i0 * v0)) / d = c + ((p1 + (c - i1) * v1) - (p0 + (c - i0) * v0)) / d"
    using assms(2) unfolding assms(1) by (simp add: field_simps)
  finally show ?thesis .
qed

lemma PositionAtTime_fst: "fst (PositionAtTime v T) = fst (position v) + (T - initialTime v) * fst (velocity v)"
  by (simp add: PositionAtTime_def vadd_def vscale_def mult.commute)

lemma PositionAtTime_snd: "snd (PositionAtTime v T) = snd (position v) + (T - initialTime v) * snd (velocity v)"
  by (simp add: PositionAtTime_def vadd_def vscale_def mult.commute)

lemma collapse_points_x:
  assumes "\<bar>fst v0 - fst v1\<bar> > \<bar>snd v0 - snd v1\<bar>" "\<not> \<bar>fst v0 - fst v1\<bar> < eps"
  shows "CalculateCollapseTime_points eps p0 v0 p1 v1 =
           (if \<bar>snd p0 + (fst p1 - fst p0) / (fst v0 - fst v1) * snd v0
                - snd p1 - (fst p1 - fst p0) / (fst v0 - fst v1) * snd v1\<bar> < tolerance_1e_3f
            then Num ((fst p1 - fst p0) / (fst v0 - fst v1)) else NumMax)"
  using assms by (simp add: CalculateCollapseTime_points_def Let_def)

lemma collapse_points_y:
  assumes "\<not> \<bar>fst v0 - fst v1\<bar> > \<bar>snd v0 - snd v1\<bar>" "\<not> \<bar>snd v0 - snd v1\<bar> < eps"
  shows "CalculateCollapseTime_points eps p0 v0 p1 v1 =
           (if \<bar>fst p0 + (snd p1 - snd p0) / (snd v0 - snd v1) * fst v0
                - fst p1 - (snd p1 - snd p0) / (snd v0 - snd v1) * fst v1\<bar> < tolerance_1e_3f
            then Num ((snd p1 - snd p0) / (snd v0 - snd v1)) else NumMax)"
  using assms by (simp add: CalculateCollapseTime_points_def Let_def)

lemma collapse_time_unfrozen:
  assumes "\<not> Equivalent2 (velocity v0) Zero2 eps" "\<not> Equivalent2 (velocity v1) Zero2 eps"
  shows "CalculateCollapseTime eps v0 v1 =
           scalar_add
             (CalculateCollapseTime_points eps
                (PositionAtTime v0 (min (initialTime v0) (initialTime v1))) (velocity v0)
                (PositionAtTime v1 (min (initialTime v0) (initialTime v1))) (velocity v1))
             (min (initialTime v0) (initialTime v1))"
  using assms by (simp add: CalculateCollapseTime_def Let_def PositionAtTime_def)

lemma collapse_time_x:
  assumes dom: "\<bar>fst (velocity v0) - fst (velocity v1)\<bar> > \<bar>snd (velocity v0) - snd (velocity v1)\<bar>"
    and nf: "\<not> Equivalent2 (velocity v0) Zero2 eps" "\<not> Equivalent2 (velocity v1) Zero2 eps"
    and big: "\<not> \<bar>fst (velocity v0) - fst (velocity v1)\<bar> < eps"
  shows "\<exists>T. (\<forall>U. fst (PositionAtTime v0 U) = fst (PositionAtTime v1 U) \<longleftrightarrow> U = T) \<and>
             CalculateCollapseTime eps v0 v1 =
               (if \<bar>snd (PositionAtTime v0 T) - snd (PositionAtTime v1 T)\<bar> < tolerance_1e_3f then Num T else NumMax)"
proof -
  define d where "d = fst (velocity v0) - fst (velocity v1)"
  define c where "c = min (initialTime v0) (initialTime v1)"
  define t where "t = (fst (PositionAtTime v1 c) - fst (PositionAtTime v0 c)) / d"
  from dom have dne: "d \<noteq> 0" unfolding d_def by auto
  have meet: "fst (PositionAtTime v0 U) = fst (PositionAtTime v1 U) \<longleftrightarrow> U = c + t" for U
    unfolding PositionAtTime_fst t_def by (rule collapse_time_solves [OF d_def dne])
  have sep: "snd (PositionAtTime v0 c) + t * snd (velocity v0) - snd (PositionAtTime v1 c) - t * snd (velocity v1)
      = snd (PositionAtTime v0 (c + t)) - snd (PositionAtTime v1 (c + t))"
    unfolding PositionAtTime_snd by (simp add: algebra_simps)
  have "CalculateCollapseTime eps v0 v1 =
          (if \<bar>snd (PositionAtTime v0 (c + t)) - snd (PositionAtTime v1 (c + t))\<bar> < tolerance_1e_3f
           then Num (c + t) else NumMax)"
    unfolding collapse_time_unfrozen [OF nf] collapse_points_x [OF dom big]
      c_def [symmetric] d_def [symmetric] t_def [symmetric] sep
    by (simp add: add.commute)
  with meet show ?thesis by blast
qed

lemma collapse_time_y:
  assumes dom: "\<not> \<bar>fst (velocity v0) - fst (velocity v1)\<bar> > \<bar>snd (velocity v0) - snd (velocity v1)\<bar>"
    and nf: "\<not> Equivalent2 (velocity v0) Zero2 eps" "\<not> Equivalent2 (velocity v1) Zero2 eps"
    and big: "\<not> \<bar>snd (velocity v0) - snd (velocity v1)\<bar> < eps" and eps: "0 < eps"
  shows "\<exists>T. (\<forall>U. snd (PositionAtTime v0 U) = snd (PositionAtTime v1 U) \<longleftrightarrow> U = T) \<and>
             CalculateCollapseTime eps v0 v1 =
               (if \<bar>fst (PositionAtTime v0 T) - fst (PositionAtTime v1 T)\<bar> < tolerance_1e_3f then Num T else NumMax)"
proof -
  define d where "d = snd (velocity v0) - snd (velocity v1)"
  define c where "c = min (initialTime v0) (initialTime v1)"
  define t where "t = (snd (PositionAtTime v1 c) - snd (PositionAtTime v0 c)) / d"
  from big eps have dne: "d \<noteq> 0" unfolding d_def by auto
  have meet: "snd (PositionAtTime v0 U) = snd (PositionAtTime v1 U) \<longleftrightarrow> U = c + t" for U
    unfolding PositionAtTime_snd t_def by (rule collapse_time_solves [OF d_def dne])
  have sep: "fst (PositionAtTime v0 c) + t * fst (velocity v0) - fst (PositionAtTime v1 c) - t * fst (velocity v1)
      = fst (PositionAtTime v0 (c + t)) - fst (PositionAtTime v1 (c + t))"
    unfolding PositionAtTime_fst by (simp add: algebra_simps)
  have "CalculateCollapseTime eps v0 v1 =
          (if \<bar>fst (PositionAtTime v0 (c + t)) - fst (PositionAtTime v1 (c + t))\<bar> < tolerance_1e_3f
           then Num (c + t) else NumMax)"
    unfolding collapse_time_unfrozen [OF nf] collapse_points_y [OF dom big]
      c_def [symmetric] d_def [symmetric] t_def [symmetric] sep
    by (simp add: add.commute)
  with meet show ?thesis by blast
qed

lemma collapse_time_dominant:
  assumes nf: "\<not> Equivalent2 (velocity v0) Zero2 eps" "\<not> Equivalent2 (velocity v1) Zero2 eps"
    and big: "\<not> \<bar>dominant_axis v0 v1 (vsub (velocity v0) (velocity v1))\<bar> < eps" and eps: "0 < eps"
  shows "\<exists>T. (\<forall>U. dominant_axis v0 v1 (PositionAtTime v0 U) = dominant_axis v0 v1 (PositionAtTime v1 U)
                    \<longleftrightarrow> U = T) \<and>
             CalculateCollapseTime eps v0 v1 =
               (if \<bar>other_axis v0 v1 (PositionAtTime v0 T) - other_axis v0 v1 (PositionAtTime v1 T)\<bar> < tolerance_1e_3f
                then Num T else NumMax)"
proof (cases "\<bar>fst (velocity v0) - fst (velocity v1)\<bar> > \<bar>snd (velocity v0) - snd (velocity v1)\<bar>")
  case True
  with big have "\<not> \<bar>fst (velocity v0) - fst (velocity v1)\<bar> < eps"
    by (simp add: dominant_axis_def vsub_def)
  from collapse_time_x [OF True nf this] True show ?thesis
    by (simp add: dominant_axis_def other_axis_def)
next
  case False
  with big have "\<not> \<bar>snd (velocity v0) - snd (velocity v1)\<bar> < eps"
    by (simp add: dominant_axis_def vsub_def)
  from collapse_time_y [OF False nf this eps] False show ?thesis
    by (simp add: dominant_axis_def other_axis_def)
qed

lemma collapse_points_slow_x:
  assumes "\<bar>fst v0 - fst v1\<bar> > \<bar>snd v0 - snd v1\<bar>" "\<bar>fst v0 - fst v1\<bar> < eps"
  shows "CalculateCollapseTime_points eps p0 v0 p1 v1 = NumMax"
  using assms by (simp add: CalculateCollapseTime_points_def Let_def)

lemma collapse_points_slow_y:
  assumes "\<not> \<bar>fst v0 - fst v1\<bar> > \<bar>snd v0 - snd v1\<bar>" "\<bar>snd v0 - snd v1\<bar> < eps"
  shows "CalculateCollapseTime_points eps p0 v0 p1 v1 = NumMax"
  using assms by (simp add: CalculateCollapseTime_points_def Let_def)

lemma collapse_time_slow:
  assumes "\<bar>dominant_axis v0 v1 (vsub (velocity v0) (velocity v1))\<bar> < eps"
  shows "CalculateCollapseTime eps v0 v1 = NumMax"
proof (cases "Equivalent2 (velocity v0) Zero2 eps \<or> Equivalent2 (velocity v1) Zero2 eps")
  case True
  then show ?thesis by (auto simp: CalculateCollapseTime_def)
next
  case False
  then have nf: "\<not> Equivalent2 (velocity v0) Zero2 eps" "\<not> Equivalent2 (velocity v1) Zero2 eps" by auto
  show ?thesis
  proof (cases "\<bar>fst (velocity v0) - fst (velocity v1)\<bar> > \<bar>snd (velocity v0) - snd (velocity v1)\<bar>")
    case True
    with assms have "\<bar>fst (velocity v0) - fst (velocity v1)\<bar> < eps"
      by (simp add: dominant_axis_def vsub_def)
    from collapse_points_slow_x [OF True this] show ?thesis
      unfolding collapse_time_unfrozen [OF nf] by simp
  next
    case False
    with assms have "\<bar>snd (velocity v0) - snd (velocity v1)\<bar> < eps"
      by (simp add: dominant_axis_def vsub_def)
    from collapse_points_slow_y [OF False this] show ?thesis
      unfolding collapse_time_unfrozen [OF nf] by simp
  qed
qed

lemma collapse_time_frozen:
  assumes "Equivalent2 (velocity v0) Zero2 eps \<or> Equivalent2 (velocity v1) Zero2 eps"
  shows "CalculateCollapseTime eps v0 v1 = NumMax"
  using assms by (auto simp: CalculateCollapseTime_def)

text \<open>
  In the two floating-point builds, \<^verbatim>\<open>CalculateCollapseTime\<close> returns the sentinel exactly
  when a velocity is within epsilon of zero, or the velocities differ by less than epsilon
  on the dominant axis, or the two trajectories are never within the tolerance: at no time
  are they equal on the dominant axis and closer than \<^verbatim>\<open>1e-3f\<close> on the other. When it
  returns a time, the two vertices are equal on the dominant axis at that time (the
  absolute time, so the common calculation time is added) and closer than \<^verbatim>\<open>1e-3f\<close> on
  the other axis. That the sentinel is returned, and not its sum with the calculation time,
  is the rounding of the floating-point addition.
\<close>

lemma CalculateCollapseTime_meets:
  assumes "0 < eps"
  shows "(CalculateCollapseTime eps v0 v1 = NumMax \<longleftrightarrow>
            Equivalent2 (velocity v0) Zero2 eps \<or> Equivalent2 (velocity v1) Zero2 eps \<or>
            \<bar>dominant_axis v0 v1 (vsub (velocity v0) (velocity v1))\<bar> < eps \<or>
            (\<forall>T. dominant_axis v0 v1 (PositionAtTime v0 T) = dominant_axis v0 v1 (PositionAtTime v1 T) \<longrightarrow>
                 tolerance_1e_3f \<le> \<bar>other_axis v0 v1 (PositionAtTime v0 T) - other_axis v0 v1 (PositionAtTime v1 T)\<bar>)) \<and>
         (\<forall>T. CalculateCollapseTime eps v0 v1 = Num T \<longrightarrow>
            dominant_axis v0 v1 (PositionAtTime v0 T) = dominant_axis v0 v1 (PositionAtTime v1 T) \<and>
            \<bar>other_axis v0 v1 (PositionAtTime v0 T) - other_axis v0 v1 (PositionAtTime v1 T)\<bar> < tolerance_1e_3f)"
proof (cases "Equivalent2 (velocity v0) Zero2 eps \<or> Equivalent2 (velocity v1) Zero2 eps")
  case True
  then show ?thesis using collapse_time_frozen [OF True] by auto
next
  case nf: False
  show ?thesis
  proof (cases "\<bar>dominant_axis v0 v1 (vsub (velocity v0) (velocity v1))\<bar> < eps")
    case True
    then show ?thesis using collapse_time_slow [OF True] by auto
  next
    case False
    from nf have "\<not> Equivalent2 (velocity v0) Zero2 eps" "\<not> Equivalent2 (velocity v1) Zero2 eps" by auto
    from collapse_time_dominant [OF this False assms] obtain T0 where
      meet: "\<And>U. dominant_axis v0 v1 (PositionAtTime v0 U) = dominant_axis v0 v1 (PositionAtTime v1 U) \<longleftrightarrow> U = T0"
      and r: "CalculateCollapseTime eps v0 v1 =
               (if \<bar>other_axis v0 v1 (PositionAtTime v0 T0) - other_axis v0 v1 (PositionAtTime v1 T0)\<bar> < tolerance_1e_3f
                then Num T0 else NumMax)"
      by blast
    show ?thesis
    proof (cases "\<bar>other_axis v0 v1 (PositionAtTime v0 T0) - other_axis v0 v1 (PositionAtTime v1 T0)\<bar> < tolerance_1e_3f")
      case True
      with r have "CalculateCollapseTime eps v0 v1 = Num T0" by simp
      with nf False True meet show ?thesis by auto
    next
      case far: False
      with r have "CalculateCollapseTime eps v0 v1 = NumMax" by simp
      with nf False far meet show ?thesis by auto
    qed
  qed
qed

lemma CalculateCollapseTime_corners:
  "CalculateCollapseTime GetEpsilon_float corner1 corner0 = Num (1 / 2) \<and>
   CalculateCollapseTime GetEpsilon_double corner1 corner0 = Num (1 / 2) \<and>
   PositionAtTime corner1 (1 / 2) = (1 / 2, 1 / 2) \<and>
   PositionAtTime corner0 (1 / 2) = (1 / 2, 1 / 2) \<and>
   CalculateCollapseTime GetEpsilon_float (corner0\<lparr>velocity := Zero2\<rparr>) corner1 = NumMax"
  by (simp add: CalculateCollapseTime_def CalculateCollapseTime_points_def corner0_def corner1_def
        PositionAtTime_def vec_defs Let_def GetEpsilon_float_def GetEpsilon_double_def tolerance_1e_3f_def)


section \<open>The unit square\<close>

lemma build_unit_square:
  assumes "0 < eps" "eps < 1"
  shows "BuildGraphFromVertexLoop eps unit_square = Inr unit_square_graph"
  using assms
  by (simp add: model_defs vec_defs unit_square_def unit_square_graph_def upt_rec Let_def)

lemma unit_square_collapses:
  assumes "0 < eps" "eps < 1"
  shows "find_best_collapse eps unit_square_graph 0 =
           Inr (Num (1 / 2), [(Num (1 / 2), 0), (Num (1 / 2), 1), (Num (1 / 2), 2), (Num (1 / 2), 3)])"
  using assms
  by (simp add: model_defs vec_defs unit_square_def unit_square_graph_def upt_rec Let_def)

lemma unit_square_step1:
  assumes "0 < eps" "eps < 1"
  shows "event_step eps NumMax
           (unit_square_graph,
            \<lparr>steinerVertices = [], faces = replicate (length (boundaryPoints unit_square_graph)) [],
              unplacedEdges = []\<rparr>, 0)
         = Inr (Continue (unit_square_collapsed, unit_square_skeleton, 1 / 2))"
  using assms
  by (simp add: model_defs vec_defs unit_square_def unit_square_graph_def unit_square_collapsed_def
        unit_square_skeleton_def upt_rec Let_def)

lemma unit_square_step2:
  "event_step eps NumMax (unit_square_collapsed, unit_square_skeleton, 1 / 2) = Inr Break"
  by (simp add: event_step_def find_best_collapse_def find_best_crash_def unit_square_collapsed_def)

lemma unit_square_event_loop:
  assumes "0 < eps" "eps < 1"
  shows "event_loop eps NumMax
           (unit_square_graph,
            \<lparr>steinerVertices = [], faces = replicate (length (boundaryPoints unit_square_graph)) [],
              unplacedEdges = []\<rparr>, 0)
         = Some (Inr (unit_square_collapsed, unit_square_skeleton, 1 / 2))"
  by (subst event_loop.simps, simp add: unit_square_step1 [OF assms],
      subst event_loop.simps, simp add: unit_square_step2)

lemma unit_square_wavefront:
  "WriteWavefront eps unit_square_collapsed unit_square_skeleton (1 / 2) = Some (Inr unit_square_skeleton)"
  by (simp add: WriteWavefront_def unit_square_collapsed_def filter_segments.simps)

lemma unit_square_result:
  assumes "0 < eps" "eps < 1"
  shows "CalculateStraightSkeleton eps unit_square NumMax = Some (Inr unit_square_skeleton)"
  by (simp add: CalculateStraightSkeleton_def build_unit_square [OF assms] CalculateSkeleton_def
        unit_square_event_loop [OF assms] unit_square_wavefront)

text \<open>
  C5: for the unit square and no limit on the inset, with any epsilon between 0 and 1 (so
  for \<^verbatim>\<open>float\<close> and \<^verbatim>\<open>double\<close>): the four wavefront edges all collapse at time 1/2, and the
  skeleton returned has the one Steiner vertex (1/2, 1/2, 1/2), at index 0, and edges of
  type VertexPath only, which join index 0 to the four corners of the input: four edges,
  each stored in the two faces beside it, once in each direction.
\<close>

theorem unit_square_straight_skeleton:
  assumes "0 < eps" "eps < 1"
  shows "BuildGraphFromVertexLoop eps unit_square = Inr unit_square_graph \<and>
         find_best_collapse eps unit_square_graph 0 =
           Inr (Num (1 / 2), [(Num (1 / 2), 0), (Num (1 / 2), 1), (Num (1 / 2), 2), (Num (1 / 2), 3)]) \<and>
         CalculateStraightSkeleton eps unit_square NumMax = Some (Inr unit_square_skeleton) \<and>
         steinerVertices unit_square_skeleton = [(1 / 2, 1 / 2, 1 / 2)] \<and>
         list_all (\<lambda>e. e_type e = VertexPath)
           (concat (faces unit_square_skeleton) @ unplacedEdges unit_square_skeleton) \<and>
         (\<lambda>e. {e_head e, e_tail e}) `
             set (concat (faces unit_square_skeleton) @ unplacedEdges unit_square_skeleton) =
           (\<lambda>corner. {0, BoundaryVertexFlag OR corner}) ` {0, 1, 2, 3} \<and>
         card ((\<lambda>e. {e_head e, e_tail e}) `
             set (concat (faces unit_square_skeleton) @ unplacedEdges unit_square_skeleton)) = 4"
proof -
  have b: "BuildGraphFromVertexLoop eps unit_square = Inr unit_square_graph"
    using assms by (rule build_unit_square)
  have c: "find_best_collapse eps unit_square_graph 0 =
           Inr (Num (1 / 2), [(Num (1 / 2), 0), (Num (1 / 2), 1), (Num (1 / 2), 2), (Num (1 / 2), 3)])"
    using assms by (rule unit_square_collapses)
  have s: "CalculateStraightSkeleton eps unit_square NumMax = Some (Inr unit_square_skeleton)"
    using assms by (rule unit_square_result)
  have v: "steinerVertices unit_square_skeleton = [(1 / 2, 1 / 2, 1 / 2)]"
    by (simp add: unit_square_skeleton_def)
  have t: "list_all (\<lambda>e. e_type e = VertexPath)
           (concat (faces unit_square_skeleton) @ unplacedEdges unit_square_skeleton)"
    by (simp add: unit_square_skeleton_def)
  have e: "(\<lambda>e. {e_head e, e_tail e}) `
             set (concat (faces unit_square_skeleton) @ unplacedEdges unit_square_skeleton) =
           (\<lambda>corner. {0, BoundaryVertexFlag OR corner}) ` {0, 1, 2, 3}"
    by (simp add: unit_square_skeleton_def BoundaryVertexFlag_def insert_commute)
  have "card ((\<lambda>corner. {0, BoundaryVertexFlag OR corner}) ` {0, 1, 2, 3 :: u32}) = 4"
    by (simp add: BoundaryVertexFlag_def doubleton_eq_iff)
  with b c s v t e show ?thesis by simp
qed

theorem unit_square_straight_skeleton_witness:
  "(0 :: real) < 1 / 10000 \<and> (1 :: real) / 10000 < 1 \<and>
   CalculateStraightSkeleton (1 / 10000) unit_square NumMax = Some (Inr unit_square_skeleton) \<and>
   CalculateStraightSkeleton (1 / 100000000) unit_square NumMax = Some (Inr unit_square_skeleton)"
  using unit_square_straight_skeleton [of "1 / 10000"] unit_square_straight_skeleton [of "1 / 100000000"]
  by simp

section \<open>Properties of the loop reconstruction\<close>

lemma find_hit_none:
  "\<forall>t\<in>set ps. fst t \<noteq> x \<Longrightarrow> find_hit x ps i hit = Inr hit"
  by (induction ps arbitrary: i) auto

lemma find_hit_fst:
  "find_hit s ps i hit = Inr (Some h) \<Longrightarrow> hit = Some h \<or> (i \<le> h \<and> h < i + length ps \<and> fst (ps ! (h - i)) = s)"
proof (induction ps arbitrary: i hit)
  case Nil
  then show ?case by simp
next
  case (Cons p ps)
  show ?case
  proof (cases "fst p = s")
    case True
    with Cons.prems obtain hn: "hit = None" and r: "find_hit s ps (Suc i) (Some i) = Inr (Some h)"
      by (cases hit) auto
    from Cons.IH [OF r] have "h = i \<or> (Suc i \<le> h \<and> h < Suc i + length ps \<and> fst (ps ! (h - Suc i)) = s)"
      by auto
    then show ?thesis
    proof
      assume "h = i" with True show ?thesis by simp
    next
      assume a: "Suc i \<le> h \<and> h < Suc i + length ps \<and> fst (ps ! (h - Suc i)) = s"
      then have "h - i = Suc (h - Suc i)" by arith
      then have "(p # ps) ! (h - i) = ps ! (h - Suc i)" by simp
      with a show ?thesis by auto
    qed
  next
    case False
    with Cons.prems have "find_hit s ps (Suc i) hit = Inr (Some h)" by simp
    from Cons.IH [OF this] show ?thesis
    proof
      assume "hit = Some h" then show ?thesis by simp
    next
      assume a: "Suc i \<le> h \<and> h < Suc i + length ps \<and> fst (ps ! (h - Suc i)) = s"
      then have "h - i = Suc (h - Suc i)" by arith
      then have "(p # ps) ! (h - i) = ps ! (h - Suc i)" by simp
      with a show ?thesis by auto
    qed
  qed
qed

lemma find_hit_Some:
  "find_hit s pool 0 None = Inr (Some h) \<Longrightarrow> h < length pool \<and> fst (pool ! h) = s"
  using find_hit_fst [of s pool 0 None h] by auto

lemma set_erase_at_subset: "set (erase_at xs i) \<subseteq> set xs"
  unfolding erase_at_def using set_take_subset [of i xs] set_drop_subset [of "Suc i" xs] by auto

lemma in_set_erase_at:
  assumes "x \<in> set xs" "x \<noteq> xs ! i"
  shows "x \<in> set (erase_at xs i)"
proof -
  from assms(1) obtain j where j: "j < length xs" "xs ! j = x" by (auto simp: in_set_conv_nth)
  with assms(2) have ne: "j \<noteq> i" by auto
  show ?thesis
  proof (cases "j < i")
    case True
    with j have "x \<in> set (take i xs)" by (auto simp: in_set_conv_nth intro!: exI [of _ j])
    then show ?thesis by (simp add: erase_at_def)
  next
    case False
    with ne have "Suc i \<le> j" by simp
    with j have "x \<in> set (drop (Suc i) xs)"
      by (auto simp: in_set_conv_nth intro!: exI [of _ "j - Suc i"])
    then show ?thesis by (simp add: erase_at_def)
  qed
qed

lemma find_hit_error:
  "find_hit s ps i hit = Inl e \<Longrightarrow> e = AssertFailed ''hit == pool.end()''"
  by (induction ps arbitrary: i hit) (auto split: if_splits option.splits)

lemma follow_loop_dead_end:
  assumes "\<forall>t\<in>set pool. fst t \<noteq> last wl"
  shows "\<exists>e. follow_loop pool wl = Inl (AssertFailed e)"
  using assms by (subst follow_loop.simps) (simp add: find_hit_none)

lemma follow_loop_open:
  assumes "s \<in> set pool" "\<forall>t\<in>set pool. fst t \<noteq> snd s" "snd s \<notin> set (butlast wl)" "wl \<noteq> []"
  shows "(\<exists>e. follow_loop pool wl = Inl (AssertFailed e)) \<or>
         (\<exists>pool' wl'. follow_loop pool wl = Inr (pool', wl') \<and> s \<in> set pool' \<and> set pool' \<subseteq> set pool)"
  using assms
proof (induction pool wl rule: follow_loop.induct)
  case (1 pool workingLoop)
  from "1.prems" have ne: "pool \<noteq> []" by auto
  show ?case
  proof (cases "find_hit (last workingLoop) pool 0 None")
    case (Inl e)
    with ne show ?thesis using find_hit_error [OF Inl] by (subst follow_loop.simps) simp
  next
    case (Inr r)
    show ?thesis
    proof (cases r)
      case None
      with Inr ne show ?thesis by (subst follow_loop.simps) simp
    next
      case (Some hit)
      with Inr have h: "find_hit (last workingLoop) pool 0 None = Inr (Some hit)" by simp
      from find_hit_Some [OF h] have hb: "hit < length pool" and hf: "fst (pool ! hit) = last workingLoop"
        by auto
      from hb have hin: "pool ! hit \<in> set pool" by simp
      with "1.prems"(2) hf have "last workingLoop \<noteq> snd s" by auto
      with "1.prems"(3,4) have notin: "snd s \<notin> set workingLoop"
        by (metis append_butlast_last_id in_set_butlast_appendI insert_iff list.set(2) rotate1.simps(2) set_rotate1 empty_iff list.set(1) set_append Un_iff)
      let ?pool' = "erase_at pool hit"
      let ?nv = "snd (pool ! hit)"
      have sub: "set ?pool' \<subseteq> set pool" by (rule set_erase_at_subset)
      show ?thesis
      proof (cases "?nv \<in> set workingLoop")
        case True
        with notin have "s \<noteq> pool ! hit" by auto
        with "1.prems"(1) have "s \<in> set ?pool'" by (rule in_set_erase_at)
        moreover from True ne h have "follow_loop pool workingLoop = Inr (?pool', workingLoop)"
          by (subst follow_loop.simps) simp
        ultimately show ?thesis using sub by simp
      next
        case False
        with ne h have eq: "follow_loop pool workingLoop = follow_loop ?pool' (workingLoop @ [?nv])"
          by (subst follow_loop.simps) simp
        show ?thesis
        proof (cases "s \<in> set ?pool'")
          case True
          have "(\<exists>e. follow_loop ?pool' (workingLoop @ [?nv]) = Inl (AssertFailed e)) \<or>
             (\<exists>pool' wl'. follow_loop ?pool' (workingLoop @ [?nv]) = Inr (pool', wl') \<and> s \<in> set pool' \<and> set pool' \<subseteq> set ?pool')"
            using "1.prems"(2) sub notin True
            by (intro "1.IH" [OF ne h refl refl refl False]) auto
          with eq sub show ?thesis by auto
        next
          case False
          with "1.prems"(1) have "s = pool ! hit" using in_set_erase_at by metis
          then have "\<forall>t\<in>set ?pool'. fst t \<noteq> last (workingLoop @ [?nv])"
            using "1.prems"(2) sub by auto
          from follow_loop_dead_end [OF this] eq show ?thesis by simp
        qed
      qed
    qed
  qed
qed

lemma loops_from_pool_open:
  assumes "s \<in> set pool" "\<forall>t\<in>set pool. fst t \<noteq> snd s"
  shows "\<exists>e. loops_from_pool pool result = Inl (AssertFailed e)"
  using assms
proof (induction pool result rule: loops_from_pool.induct)
  case (1 pool result)
  from "1.prems" have ne: "pool \<noteq> []" by auto
  let ?i = "last pool"
  let ?wl = "[fst ?i, snd ?i]"
  let ?pool1 = "butlast pool"
  have sub1: "set ?pool1 \<subseteq> set pool" by (auto dest: in_set_butlastD)
  from ne have lin: "?i \<in> set pool" by simp
  show ?case
  proof (cases "s \<in> set ?pool1")
    case True
    from lin "1.prems"(2) have "snd s \<notin> set (butlast ?wl)" by auto
    from follow_loop_open [OF True _ this, of] "1.prems"(2) sub1
    have "(\<exists>e. follow_loop ?pool1 ?wl = Inl (AssertFailed e)) \<or>
         (\<exists>pool' wl'. follow_loop ?pool1 ?wl = Inr (pool', wl') \<and> s \<in> set pool' \<and> set pool' \<subseteq> set ?pool1)"
      by auto
    then show ?thesis
    proof
      assume "\<exists>e. follow_loop ?pool1 ?wl = Inl (AssertFailed e)"
      with ne show ?thesis by (subst loops_from_pool.simps) (auto simp: Let_def)
    next
      assume "\<exists>pool' wl'. follow_loop ?pool1 ?wl = Inr (pool', wl') \<and> s \<in> set pool' \<and> set pool' \<subseteq> set ?pool1"
      then obtain pool' wl' where f: "follow_loop ?pool1 ?wl = Inr (pool', wl')"
        and s': "s \<in> set pool'" and sub': "set pool' \<subseteq> set ?pool1" by blast
      have "\<exists>e. loops_from_pool pool' (result @ [wl']) = Inl (AssertFailed e)"
        using s' sub' sub1 "1.prems"(2)
        by (intro "1.IH" [OF ne refl refl refl f refl]) auto
      with ne f show ?thesis by (subst loops_from_pool.simps) (simp add: Let_def)
    qed
  next
    case False
    with "1.prems"(1) ne have "s = ?i"
      by (metis append_butlast_last_id in_set_butlast_appendI insert_iff list.set(2) rotate1.simps(2) set_rotate1 empty_iff list.set(1) set_append Un_iff)
    then have "\<forall>t\<in>set ?pool1. fst t \<noteq> last ?wl" using "1.prems"(2) sub1 by auto
    from follow_loop_dead_end [OF this] ne show ?thesis
      by (subst loops_from_pool.simps) (auto simp: Let_def)
  qed
qed

lemma mset_erase_at:
  "i < length xs \<Longrightarrow> mset (erase_at xs i) + {#xs ! i#} = mset xs"
proof -
  assume "i < length xs"
  then have "xs = take i xs @ xs ! i # drop (Suc i) xs" by (rule id_take_nth_drop)
  then have "mset xs = mset (take i xs @ xs ! i # drop (Suc i) xs)" by simp
  then show ?thesis by (simp add: erase_at_def)
qed

lemma distinct_map_erase_at:
  "distinct (map f xs) \<Longrightarrow> distinct (map f (erase_at xs i))"
proof -
  assume d: "distinct (map f xs)"
  have "map f xs = map f (take i xs) @ map f (drop i xs)" by (simp flip: map_append)
  with d have d1: "distinct (map f (take i xs))" and d2: "distinct (map f (drop i xs))"
    and d3: "set (map f (take i xs)) \<inter> set (map f (drop i xs)) = {}"
    by (metis distinct_append)+
  have "set (drop (Suc i) xs) \<subseteq> set (drop i xs)" by (metis drop_Suc set_drop_subset tl_drop drop_drop plus_1_eq_Suc)
  with d3 have "set (map f (take i xs)) \<inter> set (map f (drop (Suc i) xs)) = {}" by auto
  moreover have "distinct (map f (drop (Suc i) xs))" using d by (simp add: distinct_drop flip: drop_map)
  ultimately show ?thesis using d1 by (simp add: erase_at_def)
qed

lemma set_map_erase_at:
  assumes "distinct (map f xs)" "i < length xs"
  shows "set (map f (erase_at xs i)) = set (map f xs) - {f (xs ! i)}"
proof -
  from assms(2) have xs: "xs = take i xs @ xs ! i # drop (Suc i) xs" by (rule id_take_nth_drop)
  then have "map f xs = map f (take i xs) @ f (xs ! i) # map f (drop (Suc i) xs)"
    by (metis list.simps(9) map_append)
  with assms(1) have "distinct (map f (take i xs) @ f (xs ! i) # map f (drop (Suc i) xs))" by simp
  then have "f (xs ! i) \<notin> set (map f (take i xs))" "f (xs ! i) \<notin> set (map f (drop (Suc i) xs))"
    by auto
  moreover have "set (map f xs) = set (map f (take i xs)) \<union> {f (xs ! i)} \<union> set (map f (drop (Suc i) xs))"
    by (subst xs) (simp only: map_append list.simps(9) set_append list.set, auto)
  ultimately show ?thesis by (auto simp: erase_at_def)
qed

lemma find_hit_distinct:
  assumes "distinct (map fst pool)" "c \<in> set (map fst pool)"
  shows "\<exists>h. find_hit c pool i None = Inr (Some h)"
  using assms
proof (induction pool arbitrary: i)
  case Nil
  then show ?case by simp
next
  case (Cons p ps)
  show ?case
  proof (cases "fst p = c")
    case True
    with Cons.prems(1) have "c \<notin> set (map fst ps)" by simp
    then have "\<forall>t\<in>set ps. fst t \<noteq> c" by auto
    then have "find_hit c ps (Suc i) (Some i) = Inr (Some i)" by (rule find_hit_none)
    with True show ?thesis by simp
  next
    case False
    with Cons.prems have "c \<in> set (map fst ps)" "distinct (map fst ps)" by auto
    from Cons.IH [OF this(2,1)] False show ?thesis by simp
  qed
qed

lemma zip_tl_snoc:
  "wl \<noteq> [] \<Longrightarrow> zip (wl @ [d]) (tl (wl @ [d])) = zip wl (tl wl) @ [(last wl, d)]"
proof (induction wl)
  case Nil
  then show ?case by simp
next
  case (Cons a wl)
  then show ?case by (cases wl) auto
qed

lemma zip_rotate_aux:
  "zip (a # r) (r @ [x]) = zip (a # r) r @ [(last (a # r), x)]"
  by (induction r arbitrary: a) auto

lemma loop_segments_closing:
  "wl \<noteq> [] \<Longrightarrow> loop_segments wl = zip wl (tl wl) @ [(last wl, hd wl)]"
  using zip_rotate_aux [of "hd wl" "tl wl" "hd wl"] by (cases wl) (auto simp: loop_segments_def)

lemma last_notin_butlast: "distinct wl \<Longrightarrow> wl \<noteq> [] \<Longrightarrow> last wl \<notin> set (butlast wl)"
  using distinct_append [of "butlast wl" "[last wl]"] by simp

lemma close_sets:
  assumes "F1 = F - {c}" "S1 = S - {d}" "F \<inter> B = {}" "S \<inter> T = {}" "F \<union> B = S \<union> T"
    "W = B \<union> {c}" "W = {d} \<union> T" 
  shows "F1 = S1"
  using assms by blast

lemma extend_sets:
  assumes "F1 = F - {c}" "S1 = S - {d}" "F \<inter> B = {}" "S \<inter> T = {}" "F \<union> B = S \<union> T"
    "W = B \<union> {c}" "c \<in> F" "d \<in> S" 
  shows "F1 \<inter> W = {} \<and> S1 \<inter> (T \<union> {d}) = {} \<and> F1 \<union> W = S1 \<union> (T \<union> {d})"
  using assms by blast

lemma start_sets:
  assumes "distinct (F1 @ [a])" "distinct (S1 @ [b])" "set (F1 @ [a]) = set (S1 @ [b])" "a \<noteq> b"
  shows "distinct F1 \<and> distinct S1 \<and> distinct [a, b] \<and> 2 \<le> length [a, b] \<and> set F1 \<inter> set (butlast [a, b]) = {} \<and>
     set S1 \<inter> set (tl [a, b]) = {} \<and> set F1 \<union> set (butlast [a, b]) = set S1 \<union> set (tl [a, b])"
  using assms by auto

lemma follow_loop_closed:
  assumes "chain_inv pool wl"
  shows "\<exists>pool' wl'. follow_loop pool wl = Inr (pool', wl') \<and> closed_loops pool' \<and>
           set pool' \<subseteq> set pool \<and> distinct wl' \<and>
           mset pool + mset (zip wl (tl wl)) = mset pool' + mset (loop_segments wl')"
  using assms
proof (induction pool wl rule: follow_loop.induct)
  case (1 pool wl)
  from "1.prems" have dF: "distinct (map fst pool)" and dS: "distinct (map snd pool)"
    and dw: "distinct wl" and len: "2 \<le> length wl"
    and i1: "set (map fst pool) \<inter> set (butlast wl) = {}"
    and i2: "set (map snd pool) \<inter> set (tl wl) = {}"
    and un: "set (map fst pool) \<union> set (butlast wl) = set (map snd pool) \<union> set (tl wl)"
    by (auto simp: chain_inv_def)
  from len have wne: "wl \<noteq> []" and tne: "tl wl \<noteq> []" by (cases wl; cases "tl wl"; auto)+
  have wl_split: "wl = butlast wl @ [last wl]" using wne by simp
  have wl_split2: "wl = hd wl # tl wl" using wne by simp
  have last_tl: "last wl \<in> set (tl wl)" using tne wne by (metis last_in_set last_tl)
  have last_nb: "last wl \<notin> set (butlast wl)" using dw wne by (rule last_notin_butlast)
  from last_tl un last_nb have cin: "last wl \<in> set (map fst pool)" by blast
  then have ne: "pool \<noteq> []" by auto
  from find_hit_distinct [OF dF cin] obtain hit where h: "find_hit (last wl) pool 0 None = Inr (Some hit)"
    by blast
  from find_hit_Some [OF h] have hb: "hit < length pool" and hf: "fst (pool ! hit) = last wl" by auto
  let ?pool' = "erase_at pool hit"
  let ?d = "snd (pool ! hit)"
  have sub: "set ?pool' \<subseteq> set pool" by (rule set_erase_at_subset)
  have dF': "distinct (map fst ?pool')" using dF by (rule distinct_map_erase_at)
  have dS': "distinct (map snd ?pool')" using dS by (rule distinct_map_erase_at)
  have sF': "set (map fst ?pool') = set (map fst pool) - {last wl}"
    using set_map_erase_at [OF dF hb] hf by simp
  have sS': "set (map snd ?pool') = set (map snd pool) - {?d}"
    using set_map_erase_at [OF dS hb] by simp
  have din: "?d \<in> set (map snd pool)" using hb by simp
  with i2 have dtl: "?d \<notin> set (tl wl)" by auto
  have ms: "mset ?pool' + {#(last wl, ?d)#} = mset pool"
    using mset_erase_at [OF hb] hf by (metis prod.collapse)
  have "set wl = set (butlast wl @ [last wl])" using wl_split by simp
  then have set_wl: "set wl = set (butlast wl) \<union> {last wl}" by simp
  have "set wl = set (hd wl # tl wl)" using wl_split2 by simp
  then have set_wl2: "set wl = {hd wl} \<union> set (tl wl)" by simp
  show ?case
  proof (cases "?d \<in> set wl")
    case True
    with dtl set_wl2 have dhd: "?d = hd wl" by blast
    have res: "follow_loop pool wl = Inr (?pool', wl)"
      using True ne h by (subst follow_loop.simps) simp
    have "set (map fst ?pool') = set (map snd ?pool')"
      using set_wl2 unfolding dhd [symmetric] by (intro close_sets [OF sF' sS' i1 i2 un set_wl])
    with dF' dS' have cl: "closed_loops ?pool'" by (simp add: closed_loops_def)
    have "mset pool + mset (zip wl (tl wl)) = mset ?pool' + mset (loop_segments wl)"
      using ms dhd loop_segments_closing [OF wne] by (simp flip: ms)
    with res cl sub dw show ?thesis by simp
  next
    case False
    have eq: "follow_loop pool wl = follow_loop ?pool' (wl @ [?d])"
      using False ne h by (subst follow_loop.simps) simp
    have bl: "butlast (wl @ [?d]) = wl" by simp
    have tl': "set (tl (wl @ [?d])) = set (tl wl) \<union> {?d}" using wne by simp
    have "distinct (wl @ [?d])" "2 \<le> length (wl @ [?d])" using dw False len by auto
    with extend_sets [OF sF' sS' i1 i2 un set_wl cin din] dF' dS'
    have inv': "chain_inv ?pool' (wl @ [?d])"
      unfolding chain_inv_def bl tl' by blast
    from "1.IH" [OF ne h refl refl refl False inv'] obtain pool2 wl2 where
      r: "follow_loop ?pool' (wl @ [?d]) = Inr (pool2, wl2)" and cl: "closed_loops pool2"
      and sub2: "set pool2 \<subseteq> set ?pool'" and dw2: "distinct wl2"
      and ms2: "mset ?pool' + mset (zip (wl @ [?d]) (tl (wl @ [?d]))) = mset pool2 + mset (loop_segments wl2)"
      by blast
    have "mset pool + mset (zip wl (tl wl)) = mset pool2 + mset (loop_segments wl2)"
      using ms2 zip_tl_snoc [OF wne, of ?d] by (simp flip: ms)
    with r eq cl sub sub2 dw2 show ?thesis by auto
  qed
qed

lemma loops_from_pool_closed:
  assumes "closed_loops pool" "\<forall>p\<in>set pool. fst p \<noteq> snd p"
  shows "\<exists>ls. loops_from_pool pool result = Inr (result @ ls) \<and>
           mset (concat (map loop_segments ls)) = mset pool \<and> (\<forall>l\<in>set ls. distinct l)"
  using assms
proof (induction pool result rule: loops_from_pool.induct)
  case (1 pool result)
  show ?case
  proof (cases "pool = []")
    case True
    then show ?thesis by (subst loops_from_pool.simps) simp
  next
    case ne: False
    let ?i = "last pool"
    let ?wl = "[fst ?i, snd ?i]"
    let ?pool1 = "butlast pool"
    have split: "pool = ?pool1 @ [?i]" using ne by simp
    from "1.prems"(1) have dF: "distinct (map fst pool)" and dS: "distinct (map snd pool)"
      and eq: "set (map fst pool) = set (map snd pool)" by (auto simp: closed_loops_def)
    have mF: "map fst pool = map fst ?pool1 @ [fst ?i]" by (subst split) simp
    have mS: "map snd pool = map snd ?pool1 @ [snd ?i]" by (subst split) simp
    from ne "1.prems"(2) have nsl: "fst ?i \<noteq> snd ?i" by simp
    have inv: "chain_inv ?pool1 ?wl"
      unfolding chain_inv_def using dF dS eq unfolding mF mS by (intro start_sets [OF _ _ _ nsl])
    from follow_loop_closed [OF inv] obtain pool2 wl2 where
      r: "follow_loop ?pool1 ?wl = Inr (pool2, wl2)" and cl: "closed_loops pool2"
      and sub2: "set pool2 \<subseteq> set ?pool1" and dw2: "distinct wl2"
      and ms2: "mset ?pool1 + mset (zip ?wl (tl ?wl)) = mset pool2 + mset (loop_segments wl2)"
      by blast
    have "set ?pool1 \<subseteq> set pool" by (auto dest: in_set_butlastD)
    with sub2 "1.prems"(2) have nsl2: "\<forall>p\<in>set pool2. fst p \<noteq> snd p" by auto
    from "1.IH" [OF ne refl refl refl r refl cl nsl2] obtain ls where
      l: "loops_from_pool pool2 (result @ [wl2]) = Inr ((result @ [wl2]) @ ls)"
      and msl: "mset (concat (map loop_segments ls)) = mset pool2" and dl: "\<forall>l\<in>set ls. distinct l"
      by blast
    have "mset pool = mset ?pool1 + {#?i#}" by (subst split) simp
    with ms2 have "mset pool = mset pool2 + mset (loop_segments wl2)" by simp
    with msl have "mset (concat (map loop_segments (wl2 # ls))) = mset pool" by simp
    moreover have "loops_from_pool pool result = Inr (result @ (wl2 # ls))"
      using ne r l by (subst loops_from_pool.simps) (simp add: Let_def)
    moreover have "\<forall>l\<in>set (wl2 # ls). distinct l" using dl dw2 by simp
    ultimately show ?thesis by blast
  qed
qed

text \<open>
  C8, as stated, fails: the four segments of two closed loops through the vertex 1 have
  no open chain, and in this order the reconstruction stops at the assertion that guards
  against a junction (\<^verbatim>\<open>assert(hit == pool.end())\<close>); the single segment from the vertex 7
  to itself is a closed chain too, and stops at \<^verbatim>\<open>assert(!pool.empty())\<close>.
\<close>

theorem AsVertexLoopsOrdered_junction_counterexample:
  "no_open_chain [(1, 2), (2, 1), (1, 3), (3, 1)] \<and>
   AsVertexLoopsOrdered [(1, 2), (2, 1), (1, 3), (3, 1)] = Inl (AssertFailed ''hit == pool.end()'') \<and>
   no_open_chain [(7, 7)] \<and>
   AsVertexLoopsOrdered [(7, 7)] = Inl (AssertFailed ''!pool.empty()'')"
  by (simp add: no_open_chain_def AsVertexLoopsOrdered_def loops_from_pool.simps follow_loop.simps)

text \<open>
  C8, amended: AsVertexLoopsOrdered is a total function. When the tail of some segment is
  the head of no segment of the edge set, it ends in a failed assertion. When every vertex
  is the head of exactly one segment and the tail of exactly one segment, and no segment
  joins a vertex to itself, it returns vertex loops whose segments (each vertex to the next,
  the last to the first) are exactly the segments of the edge set, each loop without a
  repeated vertex.
\<close>

theorem AsVertexLoopsOrdered_open_or_closed:
  "(s \<in> set segments \<and> (\<forall>t\<in>set segments. fst t \<noteq> snd s) \<longrightarrow>
      (\<exists>e. AsVertexLoopsOrdered segments = Inl (AssertFailed e))) \<and>
   (closed_loops segments \<and> (\<forall>p\<in>set segments. fst p \<noteq> snd p) \<longrightarrow>
      (\<exists>ls. AsVertexLoopsOrdered segments = Inr ls \<and>
            mset (concat (map loop_segments ls)) = mset segments \<and>
            (\<forall>l\<in>set ls. distinct l)))"
proof (intro conjI impI)
  assume "s \<in> set segments \<and> (\<forall>t\<in>set segments. fst t \<noteq> snd s)"
  then show "\<exists>e. AsVertexLoopsOrdered segments = Inl (AssertFailed e)"
    unfolding AsVertexLoopsOrdered_def using loops_from_pool_open [of s segments "[]"] by blast
next
  assume "closed_loops segments \<and> (\<forall>p\<in>set segments. fst p \<noteq> snd p)"
  then show "\<exists>ls. AsVertexLoopsOrdered segments = Inr ls \<and>
            mset (concat (map loop_segments ls)) = mset segments \<and> (\<forall>l\<in>set ls. distinct l)"
    unfolding AsVertexLoopsOrdered_def using loops_from_pool_closed [of segments "[]"] by simp
qed

theorem AsVertexLoopsOrdered_open_or_closed_witness:
  "((2, 3) :: u32 \<times> u32) \<in> set [(1, 2), (2, 3)] \<and>
   (\<exists>e. AsVertexLoopsOrdered [(1, 2), (2, 3)] = Inl (AssertFailed e)) \<and>
   closed_loops [(1, 2), (2, 3), (3, 1)] \<and>
   (\<exists>ls. AsVertexLoopsOrdered [(1, 2), (2, 3), (3, 1)] = Inr ls \<and>
         mset (concat (map loop_segments ls)) = mset [(1, 2), (2, 3), (3, 1)]) \<and>
   AsVertexLoopsOrdered [(1, 2), (2, 3), (3, 1)] = Inr [[3, 1, 2]]"
proof -
  have o: "((2, 3) :: u32 \<times> u32) \<in> set [(1, 2), (2, 3)] \<and>
      (\<forall>t\<in>set ([(1, 2), (2, 3)] :: (u32 \<times> u32) list). fst t \<noteq> snd ((2, 3) :: u32 \<times> u32))"
    by simp
  have c: "closed_loops [(1, 2), (2, 3), (3, 1)] \<and>
      (\<forall>p\<in>set ([(1, 2), (2, 3), (3, 1)] :: (u32 \<times> u32) list). fst p \<noteq> snd p)"
    by (simp add: closed_loops_def insert_commute)
  have r: "AsVertexLoopsOrdered [(1, 2), (2, 3), (3, 1)] = Inr [[3, 1, 2]]"
    by (simp add: AsVertexLoopsOrdered_def loops_from_pool.simps follow_loop.simps erase_at_def)
  from o c r show ?thesis
    using AsVertexLoopsOrdered_open_or_closed [of "(2, 3)" "[(1, 2), (2, 3)]"]
      AsVertexLoopsOrdered_open_or_closed [of "(2, 3)" "[(1, 2), (2, 3), (3, 1)]"]
    by blast
qed

text \<open>
  Closed loops that share a vertex are outside both cases: what the reconstruction does
  with them depends on the order of the segments. The two loops through the vertex 1 that
  fail the assertion against junctions in one order are returned in another.
\<close>

lemma AsVertexLoopsOrdered_shared_vertex:
  "AsVertexLoopsOrdered [(1, 2), (2, 1), (1, 3), (3, 1)] = Inl (AssertFailed ''hit == pool.end()'') \<and>
   AsVertexLoopsOrdered [(1, 3), (3, 1), (2, 1), (1, 2)] = Inr [[1, 2], [3, 1]]"
  by (simp add: AsVertexLoopsOrdered_def loops_from_pool.simps follow_loop.simps erase_at_def)

section \<open>The output skeleton is built by AddEdge\<close>

lemma skeleton_extends_trans:
  "skeleton_extends s1 s2 \<Longrightarrow> skeleton_extends s0 s1 \<Longrightarrow> skeleton_extends s0 s2"
  by (induction rule: skeleton_extends.induct) (auto intro: skeleton_extends.intros)

lemma event_loop_invariant:
  assumes "event_loop eps maxTime st = Some (Inr st')" "P st"
    and "\<And>s s'. P s \<Longrightarrow> event_step eps maxTime s = Inr (Continue s') \<Longrightarrow> P s'"
  shows "P st' \<and> event_step eps maxTime st' = Inr Break"
proof -
  have "\<forall>st'. P st \<longrightarrow> (\<forall>s s'. P s \<longrightarrow> event_step eps maxTime s = Inr (Continue s') \<longrightarrow> P s') \<longrightarrow>
           y = Inr st' \<longrightarrow> P st' \<and> event_step eps maxTime st' = Inr Break"
    if "event_loop eps maxTime st = Some y" for y
    using that
  proof (induct rule: event_loop.raw_induct)
    case (1 approx eps maxTime st y)
    show ?case
    proof (intro allI impI)
      fix st' assume p: "P st" and step: "\<forall>s s'. P s \<longrightarrow> event_step eps maxTime s = Inr (Continue s') \<longrightarrow> P s'"
        and y: "y = Inr st'"
      show "P st' \<and> event_step eps maxTime st' = Inr Break"
      proof (cases "event_step eps maxTime st")
        case (Inl e)
        with "1"(2) y show ?thesis by simp
      next
        case (Inr oc)
        show ?thesis
        proof (cases oc)
          case Break
          with Inr "1"(2) y p show ?thesis by simp
        next
          case (Continue s1)
          with Inr "1"(2) have l: "approx eps maxTime s1 = Some y" by simp
          from "1"(3) Inr Continue have l': "event_loop eps maxTime s1 = Some y"
            by (subst (asm) event_loop.simps) simp
          from step p Inr Continue have "P s1" by blast
          with "1"(1) [OF l l'] step y show ?thesis by blast
        qed
      qed
    qed
  qed (rule that)
  with assms show ?thesis by blast
qed

lemma AddSteinerVertex_extends:
  "AddSteinerVertex eps s v = Inr (i, s') \<Longrightarrow> skeleton_extends s0 s \<Longrightarrow> skeleton_extends s0 s'"
  by (auto simp: AddSteinerVertex_def ebind_eq_Inr split: option.splits intro: skeleton_extends.vertex)

lemma AddEdge_extends:
  "AddEdge s h t l r ty = Inr s' \<Longrightarrow> skeleton_extends s0 s \<Longrightarrow> skeleton_extends s0 s'"
  by (rule skeleton_extends.edge)

lemma AddEdgeForVertexPath_extends:
  assumes "AddEdgeForVertexPath eps g s v f = Inr s'" "skeleton_extends s0 s"
  shows "skeleton_extends s0 s'"
  using assms
  by (auto simp: AddEdgeForVertexPath_def ebind_eq_Inr Let_def split: if_splits
      intro: AddEdge_extends AddSteinerVertex_extends)

lemma crash_tout_extends:
  assumes "crash_tout eps motor crashSegment crashPt crashPtSkeleton calcTime st = Inr st'"
    "skeleton_extends s0 (snd st)"
  shows "skeleton_extends s0 (snd st')"
  using assms
  by (auto simp: crash_tout_def ebind_eq_Inr Let_def split: if_splits)
    (blast intro: AddEdge_extends AddEdgeForVertexPath_extends AddSteinerVertex_extends)+

lemma crash_tin_extends:
  assumes "crash_tin eps motor crashSegment crashPt crashPtSkeleton calcTime st = Inr st'"
    "skeleton_extends s0 (snd st)"
  shows "skeleton_extends s0 (snd st')"
  using assms
  by (auto simp: crash_tin_def ebind_eq_Inr Let_def split: if_splits)
    (blast intro: AddEdge_extends AddEdgeForVertexPath_extends AddSteinerVertex_extends)+

lemma process_crash_extends:
  assumes "process_crash eps crashEvent m t st = Inr st'" "skeleton_extends s0 (snd st)"
  shows "skeleton_extends s0 (snd st')"
proof -
  from assms(1) obtain added motor crashSegment crashPt p3 g0 st1 st2 h l r result g' where
    a: "AddSteinerVertex eps (snd st) p3 = Inr added"
    and o: "crash_tout eps motor crashSegment crashPt (fst added) t (g0, snd added) = Inr st1"
    and i: "crash_tin eps motor crashSegment crashPt (fst added) t st1 = Inr st2"
    and e: "AddEdge (snd st2) (fst added) h l r VertexPath = Inr result"
    and r: "st' = (g', result)"
    unfolding process_crash_def Let_def ebind_eq_Inr by blast
  from a assms(2) have "skeleton_extends s0 (snd (g0, snd added))"
    by (cases added) (auto intro: AddSteinerVertex_extends)
  from crash_tin_extends [OF i crash_tout_extends [OF o this]] e r show ?thesis
    by (auto intro: AddEdge_extends)
qed

lemma connect_and_freeze_extends:
  assumes "connect_and_freeze eps t cv seg st = Inr st'" "skeleton_extends s0 (snd st)"
  shows "skeleton_extends s0 (snd st')"
  using assms
  by (auto simp: connect_and_freeze_def ebind_eq_Inr)
    (blast intro: AddEdgeForVertexPath_extends)+

lemma collapse_group_extends:
  assumes "collapse_group eps bestCollapse t collapseGroups collapseGroup st = Inr st'"
    "skeleton_extends s0 (fst (snd st))"
  shows "skeleton_extends s0 (fst (snd st'))"
proof -
  from assms(1) obtain segs p3 added g0 st1 g1 infos where
    a: "AddSteinerVertex eps (fst (snd st)) p3 = Inr added"
    and l: "for_each segs (connect_and_freeze eps t (fst added)) (g0, snd added) = Inr st1"
    and r: "st' = (g1, snd st1, infos)"
    unfolding collapse_group_def Let_def ebind_eq_Inr by blast
  from a assms(2) have "skeleton_extends s0 (snd (g0, snd added))"
    by (cases added) (auto intro: AddSteinerVertex_extends)
  with l have "skeleton_extends s0 (snd st1)"
    by (rule for_each_invariant) (rule connect_and_freeze_extends)
  with r show ?thesis by simp
qed

lemma process_collapse_extends:
  assumes "process_collapse eps bestCollapse t st = Inr st'" "skeleton_extends s0 (snd st)"
  shows "skeleton_extends s0 (snd st')"
proof -
  from assms(1) have "\<not> (\<exists>e\<in>set bestCollapse. \<not> snd e < length (wavefrontEdges (fst st)))"
    unfolding process_collapse_def Let_def by (auto split: if_splits)
  with assms(1) have "ebind (find_collapse_groups (wavefrontEdges (fst st)) bestCollapse) (\<lambda>grouping.
           ebind (for_each [0..<unat (snd (snd grouping))]
                    (collapse_group eps bestCollapse t (fst grouping))
                    (fst st, snd st, fst (snd grouping))) (\<lambda>st'.
           ebind (remove_collapsed (wavefrontEdges (fst st')) bestCollapse) (\<lambda>edges.
           ebind (for_each (snd (snd st')) (relink_group eps) ((fst st')\<lparr>wavefrontEdges := edges\<rparr>)) (\<lambda>g'.
           Inr (g', fst (snd st')))))) = Inr st'"
    by (simp add: process_collapse_def Let_def)
  then obtain cg infos nx g1 s1 i1 g2 where
    l: "for_each [0..<unat (nx :: u32)] (collapse_group eps bestCollapse t cg) (fst st, snd st, infos) = Inr (g1, s1, i1)"
    and r: "st' = (g2, s1)"
    by (fastforce elim!: ebind_Inr_E)
  from assms(2) have "skeleton_extends s0 (fst (snd (fst st, snd st, infos)))" by simp
  with l have "skeleton_extends s0 (fst (snd (g1, s1, i1)))"
    by (rule for_each_invariant) (rule collapse_group_extends)
  with r show ?thesis by simp
qed

lemma event_step_Continue:
  assumes "event_step eps maxTime st = Inr (Continue st')"
  obtains (crash) bestCollapseTime bestCollapse bestMotorcycleCrashTime bestMotorcycleCrash
      crashEvent m t r
    where "find_best_collapse eps (fst st) (snd (snd st)) = Inr (bestCollapseTime, bestCollapse)"
      and "find_best_crash eps (fst st) (snd (snd st)) bestCollapseTime =
             Inr (bestMotorcycleCrashTime, bestMotorcycleCrash)"
      and "bestMotorcycleCrash \<noteq> []" and "\<not> scalar_less maxTime bestMotorcycleCrashTime"
      and "filter (\<lambda>e. scalar_less (c_time (fst e)) (scalar_add bestMotorcycleCrashTime eps))
             bestMotorcycleCrash = [(crashEvent, m)]"
      and "c_time crashEvent = Num t"
      and "process_crash eps crashEvent m t (fst st, fst (snd st)) = Inr r"
      and "st' = (fst r, snd r, t)"
  | (collapse) bestCollapse bestMotorcycleCrashTime t r
    where "find_best_collapse eps (fst st) (snd (snd st)) = Inr (Num t, bestCollapse)"
      and "find_best_crash eps (fst st) (snd (snd st)) (Num t) = Inr (bestMotorcycleCrashTime, [])"
      and "bestCollapse \<noteq> []" and "\<not> scalar_less maxTime (Num t)"
      and "process_collapse eps bestCollapse t (fst st, fst (snd st)) = Inr r"
      and "st' = (fst r, snd r, t)"
proof -
  from assms obtain co cr where
    co: "find_best_collapse eps (fst st) (snd (snd st)) = Inr co"
    and cr: "find_best_crash eps (fst st) (snd (snd st)) (fst co) = Inr cr"
    unfolding event_step_def Let_def ebind_eq_Inr by blast
  note step = assms [unfolded event_step_def Let_def, simplified co cr ebind_simps]
  show thesis
  proof (cases "snd cr = []")
    case False
    define tied where "tied = filter (\<lambda>e. scalar_less (c_time (fst e)) (scalar_add (fst cr) eps)) (snd cr)"
    from step False have nb: "\<not> scalar_less maxTime (fst cr)" by (auto split: if_splits)
    from step False nb have l: "length tied = 1"
      by (auto simp: tied_def [symmetric] ebind_eq_Inr assert_that_eq_Inr split: if_splits)
    then obtain crashEvent m where t1: "tied = [(crashEvent, m)]"
      by (cases tied) auto
    from step False nb l t1 obtain t r where "c_time crashEvent = Num t"
      "process_crash eps crashEvent m t (fst st, fst (snd st)) = Inr r" "st' = (fst r, snd r, t)"
      by (auto simp: tied_def [symmetric] ebind_eq_Inr split: scalar.splits)
    with co cr False nb t1 show thesis
      by (intro crash [of "fst co" "snd co" "fst cr" "snd cr" crashEvent m t r]) (simp_all add: tied_def)
  next
    case True
    from step True have ne: "snd co \<noteq> []" by (auto split: if_splits)
    from step True ne have nb: "\<not> scalar_less maxTime (fst co)" by (auto split: if_splits)
    from step True ne nb obtain t r where "fst co = Num t"
      "process_collapse eps (snd co) t (fst st, fst (snd st)) = Inr r" "st' = (fst r, snd r, t)"
      by (auto simp: ebind_eq_Inr split: scalar.splits)
    with co cr True ne nb show thesis
      by (intro collapse [of t "snd co" "fst cr" r]) (auto simp: prod_eq_iff)
  qed
qed

lemma event_step_extends:
  assumes "event_step eps maxTime st = Inr (Continue st')" "skeleton_extends s0 (fst (snd st))"
  shows "skeleton_extends s0 (fst (snd st'))"
  using assms(1)
proof (cases rule: event_step_Continue)
  case (crash bestCollapseTime bestCollapse bestMotorcycleCrashTime bestMotorcycleCrash crashEvent m t r)
  from process_crash_extends [OF crash(7)] assms(2) crash(8) show ?thesis by simp
next
  case (collapse bestCollapse bestMotorcycleCrashTime t r)
  from process_collapse_extends [OF collapse(5)] assms(2) collapse(6) show ?thesis by simp
qed

lemma event_loop_extends:
  assumes "event_loop eps maxTime st = Some (Inr st')" "skeleton_extends s0 (fst (snd st))"
  shows "skeleton_extends s0 (fst (snd st'))"
  using event_loop_invariant [OF assms(1), of "\<lambda>st. skeleton_extends s0 (fst (snd st))"] assms(2)
    event_step_extends
  by blast

lemma wavefront_segment_extends:
  assumes "wavefront_segment eps g time i st = Inr st'" "skeleton_extends s0 (fst st)"
  shows "skeleton_extends s0 (fst st')"
proof -
  from assms(1) obtain p0 p1 i0 i1 s1 s2 stack where
    "AddSteinerVertex eps (fst st) p0 = Inr (i0, s1)" "AddSteinerVertex eps s1 p1 = Inr (i1, s2)"
    "st' = (s2, stack)"
    unfolding wavefront_segment_def by (fastforce elim!: ebind_Inr_E)
  with assms(2) show ?thesis by (auto intro: AddSteinerVertex_extends)
qed

lemma add_wavefront_edge_extends:
  assumes "add_wavefront_edge seg s = Inr s'" "skeleton_extends s0 s"
  shows "skeleton_extends s0 s'"
  using assms by (auto simp: add_wavefront_edge_def elim!: ebind_Inr_E intro: AddEdge_extends)

lemma trace_vertex_extends:
  assumes "trace_vertex eps g time v s = Inr s'" "skeleton_extends s0 s"
  shows "skeleton_extends s0 s'"
proof -
  from assms(1) obtain p i s1 where
    "AddSteinerVertex eps s p = Inr (i, s1)" "AddEdgeForVertexPath eps g s1 v i = Inr s'"
    unfolding trace_vertex_def by (fastforce elim!: ebind_Inr_E)
  with assms(2) show ?thesis by (blast intro: AddSteinerVertex_extends AddEdgeForVertexPath_extends)
qed

lemma trace_segment_extends:
  assumes "trace_segment eps g time seg s = Inr s'" "skeleton_extends s0 s"
  shows "skeleton_extends s0 s'"
  using assms unfolding trace_segment_def
  by (rule for_each_invariant) (rule trace_vertex_extends)

lemma WriteWavefront_extends:
  assumes "WriteWavefront eps g s time = Some (Inr s')" "skeleton_extends s0 s"
  shows "skeleton_extends s0 s'"
proof -
  from assms(1) obtain st where
    p1: "for_each (wavefrontEdges g) (wavefront_segment eps g time) (s, []) = Inr st"
    by (auto simp: WriteWavefront_def split: sum.splits)
  with assms(1) obtain filtered where
    r: "ebind filtered (\<lambda>filteredSegments.
          ebind (for_each filteredSegments add_wavefront_edge (fst st)) (\<lambda>result.
          for_each (wavefrontEdges g) (trace_segment eps g time) result)) = Inr s'"
    by (auto simp: WriteWavefront_def)
  then obtain filteredSegments s1 where
    p3: "for_each filteredSegments add_wavefront_edge (fst st) = Inr s1"
    and p4: "for_each (wavefrontEdges g) (trace_segment eps g time) s1 = Inr s'"
    by (elim ebind_Inr_E) blast
  from assms(2) have "skeleton_extends s0 (fst (s, [] :: Segment list))" by simp
  with p1 have "skeleton_extends s0 (fst st)"
    by (rule for_each_invariant) (rule wavefront_segment_extends)
  with p3 have "skeleton_extends s0 s1"
    by (rule for_each_invariant) (rule add_wavefront_edge_extends)
  with p4 show ?thesis
    by (rule for_each_invariant) (rule trace_segment_extends)
qed

lemma CalculateSkeleton_extends:
  assumes "CalculateSkeleton eps g maxTime = Some (Inr s')"
  shows "skeleton_extends
           \<lparr>steinerVertices = [], faces = replicate (length (boundaryPoints g)) [], unplacedEdges = []\<rparr> s'"
proof -
  let ?s0 = "\<lparr>steinerVertices = [], faces = replicate (length (boundaryPoints g)) [], unplacedEdges = []\<rparr>"
  from assms obtain st t where
    l: "event_loop eps maxTime (g, ?s0, 0) = Some (Inr st)"
    and w: "WriteWavefront eps (fst st) (fst (snd st)) t = Some (Inr s')"
    by (auto simp: CalculateSkeleton_def Let_def split: option.splits sum.splits)
  have "skeleton_extends ?s0 (fst (snd (g, ?s0, 0 :: real)))" by (simp add: skeleton_extends.same)
  from event_loop_extends [OF l this] w show ?thesis by (rule WriteWavefront_extends [rotated])
qed

lemma CalculateStraightSkeleton_extends:
  assumes "CalculateStraightSkeleton eps vs maxInset = Some (Inr s')"
  shows "\<exists>n. skeleton_extends \<lparr>steinerVertices = [], faces = replicate n [], unplacedEdges = []\<rparr> s'"
  using assms
  by (auto simp: CalculateStraightSkeleton_def split: sum.splits dest: CalculateSkeleton_extends)

section \<open>The edges of the output skeleton\<close>

lemma AddUnique_cases:
  assumes "AddUnique dst edge = Inr dst'"
  shows "(edge_key edge \<notin> edge_key ` set dst \<and> dst' = dst @ [edge]) \<or>
         (edge_key edge \<in> edge_key ` set dst \<and> dst' = dst)"
proof (cases "find (\<lambda>e. e_head e = e_head edge \<and> e_tail e = e_tail edge) dst")
  case None
  then have "edge_key edge \<notin> edge_key ` set dst"
    by (auto simp: find_None_iff edge_key_def)
  with None assms show ?thesis by (simp add: AddUnique_def)
next
  case (Some existing)
  then have "existing \<in> set dst" "edge_key existing = edge_key edge"
    by (auto simp: find_Some_iff edge_key_def)
  then have "edge_key edge \<in> edge_key ` set dst" by (metis imageI)
  with Some assms show ?thesis by (auto simp: AddUnique_def ebind_eq_Inr)
qed

lemma AddUnique_type_clash:
  assumes "existing \<in> set dst" "edge_key existing = edge_key edge" "e_type existing \<noteq> e_type edge"
    "distinct (map edge_key dst)"
  shows "AddUnique dst edge = Inl (AssertFailed ''existing->_type == edge._type'')"
proof (cases "find (\<lambda>e. e_head e = e_head edge \<and> e_tail e = e_tail edge) dst")
  case None
  with assms(1,2) show ?thesis by (auto simp: find_None_iff edge_key_def)
next
  case (Some found)
  then have f: "found \<in> set dst" "edge_key found = edge_key edge"
    by (auto simp: find_Some_iff edge_key_def)
  with assms(1,2,4) have "found = existing"
    by (metis distinct_map inj_onD)
  with Some assms(3) show ?thesis by (simp add: AddUnique_def)
qed

lemma add_face_edge_cases:
  assumes "add_face_edge dest face edge = Inr dest'"
  shows "\<exists>edges'. unat face < length (faces dest) \<and>
           AddUnique (faces dest ! unat face) edge = Inr edges' \<and>
           dest' = dest\<lparr>faces := (faces dest)[unat face := edges']\<rparr>"
  using assms unfolding add_face_edge_def
  by (elim ebind_Inr_E) (auto simp: nth_checked_eq_Inr)

lemma add_unplaced_edge_cases:
  assumes "add_unplaced_edge dest edge = Inr dest'"
  shows "\<exists>edges'. AddUnique (unplacedEdges dest) edge = Inr edges' \<and>
           dest' = dest\<lparr>unplacedEdges := edges'\<rparr>"
  using assms unfolding add_unplaced_edge_def
  by (elim ebind_Inr_E) auto

lemma no_degenerate_faces_update:
  assumes "no_degenerate_edges dest" "f < length (faces dest)"
    "set edges' \<subseteq> set (faces dest ! f) \<union> {edge}" "e_head edge \<noteq> e_tail edge"
  shows "no_degenerate_edges (dest\<lparr>faces := (faces dest)[f := edges']\<rparr>)"
proof -
  have "\<And>e es. es \<in> set ((faces dest)[f := edges']) \<Longrightarrow> e \<in> set es \<Longrightarrow> e_head e \<noteq> e_tail e"
  proof -
    fix e es assume es: "es \<in> set ((faces dest)[f := edges'])" and e: "e \<in> set es"
    from es have "es = edges' \<or> es \<in> set (faces dest)"
      by (meson insertE set_update_subset_insert subsetD)
    then show "e_head e \<noteq> e_tail e"
    proof
      assume "es = edges'"
      with e assms(3) have "e = edge \<or> e \<in> set (faces dest ! f)" by auto
      with assms(1,2,4) show ?thesis
        by (auto simp: no_degenerate_edges_def list_all_iff dest: nth_mem)
    next
      assume "es \<in> set (faces dest)"
      with e assms(1) show ?thesis by (auto simp: no_degenerate_edges_def list_all_iff)
    qed
  qed
  with assms(1) show ?thesis by (auto simp: no_degenerate_edges_def list_all_iff)
qed

lemma AddUnique_set:
  assumes "AddUnique dst edge = Inr dst'"
  shows "set dst' \<subseteq> set dst \<union> {edge}"
  using AddUnique_cases [OF assms] by auto

lemma no_degenerate_add_face:
  assumes "add_face_edge dest face edge = Inr dest'" "no_degenerate_edges dest" "e_head edge \<noteq> e_tail edge"
  shows "no_degenerate_edges dest'"
  using add_face_edge_cases [OF assms(1)] assms(2,3)
  by (auto intro!: no_degenerate_faces_update dest: AddUnique_set)

lemma no_degenerate_add_unplaced:
  assumes "add_unplaced_edge dest edge = Inr dest'" "no_degenerate_edges dest" "e_head edge \<noteq> e_tail edge"
  shows "no_degenerate_edges dest'"
proof -
  from add_unplaced_edge_cases [OF assms(1)] obtain edges' where
    u: "AddUnique (unplacedEdges dest) edge = Inr edges'" and d: "dest' = dest\<lparr>unplacedEdges := edges'\<rparr>"
    by blast
  from AddUnique_set [OF u] assms(2,3) have "\<forall>e\<in>set edges'. e_head e \<noteq> e_tail e"
    by (auto simp: no_degenerate_edges_def list_all_iff)
  with assms(2) d show ?thesis by (auto simp: no_degenerate_edges_def list_all_iff)
qed

lemma AddEdge_steps:
  assumes "AddEdge dest h t l r ty = Inr dest'" "h \<noteq> t"
  shows "\<exists>d1. (add_face_edge dest r \<lparr>e_head = h, e_tail = t, e_type = ty\<rparr> = Inr d1 \<or>
               add_unplaced_edge dest \<lparr>e_head = h, e_tail = t, e_type = ty\<rparr> = Inr d1) \<and>
              (add_face_edge d1 l \<lparr>e_head = t, e_tail = h, e_type = ty\<rparr> = Inr dest' \<or>
               add_unplaced_edge d1 \<lparr>e_head = t, e_tail = h, e_type = ty\<rparr> = Inr dest')"
  using assms by (auto simp: AddEdge_def ebind_eq_Inr split: if_splits)

lemma AddEdge_no_degenerate:
  assumes "AddEdge dest h t l r ty = Inr dest'" "no_degenerate_edges dest"
  shows "no_degenerate_edges dest'"
proof (cases "h = t")
  case True
  with assms show ?thesis by (simp add: AddEdge_def)
next
  case False
  from AddEdge_steps [OF assms(1) False] obtain d1 where
    a: "add_face_edge dest r \<lparr>e_head = h, e_tail = t, e_type = ty\<rparr> = Inr d1 \<or>
        add_unplaced_edge dest \<lparr>e_head = h, e_tail = t, e_type = ty\<rparr> = Inr d1"
    and b: "add_face_edge d1 l \<lparr>e_head = t, e_tail = h, e_type = ty\<rparr> = Inr dest' \<or>
        add_unplaced_edge d1 \<lparr>e_head = t, e_tail = h, e_type = ty\<rparr> = Inr dest'"
    by blast
  from a assms(2) False have "no_degenerate_edges d1"
    by (auto intro: no_degenerate_add_face no_degenerate_add_unplaced)
  with b False show ?thesis
    by (auto intro: no_degenerate_add_face no_degenerate_add_unplaced)
qed

lemma skeleton_extends_no_degenerate:
  assumes "skeleton_extends s0 s" "no_degenerate_edges s0"
  shows "no_degenerate_edges s"
  using assms
proof (induction rule: skeleton_extends.induct)
  case (same s)
  then show ?case .
next
  case (vertex s s' sv)
  then show ?case by (simp add: no_degenerate_edges_def)
next
  case (edge s s' h t l r ty s'')
  then show ?case by (auto intro: AddEdge_no_degenerate)
qed

lemma empty_skeleton_no_degenerate:
  "no_degenerate_edges \<lparr>steinerVertices = [], faces = replicate n [], unplacedEdges = []\<rparr>"
  by (simp add: no_degenerate_edges_def list_all_iff)

text \<open>
  C9: \<^verbatim>\<open>AddEdge\<close> with the head equal to the tail returns the skeleton as it is; a call
  of \<^verbatim>\<open>AddEdge\<close> that returns keeps the skeleton free of edges from a vertex to itself;
  and no edge of a skeleton returned by \<^verbatim>\<open>CalculateStraightSkeleton\<close>, in a face or among
  the unplaced edges, has its head equal to its tail.
\<close>

theorem AddEdge_no_degenerate_edges:
  "AddEdge dest v v leftEdge rightEdge ty = Inr dest \<and>
   (no_degenerate_edges dest \<and> AddEdge dest h t l r ty = Inr dest' \<longrightarrow> no_degenerate_edges dest') \<and>
   (CalculateStraightSkeleton eps vs maxInset = Some (Inr skeleton) \<longrightarrow>
      list_all (\<lambda>e. e_head e \<noteq> e_tail e) (concat (faces skeleton) @ unplacedEdges skeleton))"
proof (intro conjI impI)
  show "AddEdge dest v v leftEdge rightEdge ty = Inr dest" by (simp add: AddEdge_def)
next
  assume "no_degenerate_edges dest \<and> AddEdge dest h t l r ty = Inr dest'"
  then show "no_degenerate_edges dest'" by (auto intro: AddEdge_no_degenerate)
next
  assume "CalculateStraightSkeleton eps vs maxInset = Some (Inr skeleton)"
  from CalculateStraightSkeleton_extends [OF this] obtain n where
    "skeleton_extends \<lparr>steinerVertices = [], faces = replicate n [], unplacedEdges = []\<rparr> skeleton" ..
  then have "no_degenerate_edges skeleton"
    using empty_skeleton_no_degenerate by (rule skeleton_extends_no_degenerate)
  then show "list_all (\<lambda>e. e_head e \<noteq> e_tail e) (concat (faces skeleton) @ unplacedEdges skeleton)"
    by (simp add: no_degenerate_edges_def)
qed

theorem AddEdge_no_degenerate_edges_witness:
  "CalculateStraightSkeleton (1 / 10000) unit_square NumMax = Some (Inr unit_square_skeleton) \<and>
   list_all (\<lambda>e. e_head e \<noteq> e_tail e)
     (concat (faces unit_square_skeleton) @ unplacedEdges unit_square_skeleton) \<and>
   AddEdge unit_square_skeleton 0 0 1 2 VertexPath = Inr unit_square_skeleton"
proof -
  have r: "CalculateStraightSkeleton (1 / 10000) unit_square NumMax = Some (Inr unit_square_skeleton)"
    by (rule unit_square_result) simp_all
  with AddEdge_no_degenerate_edges [where dest = unit_square_skeleton and v = 0 and leftEdge = 1
      and rightEdge = 2 and ty = VertexPath and eps = "1 / 10000" and vs = unit_square
      and maxInset = NumMax and skeleton = unit_square_skeleton]
  show ?thesis by blast
qed

section \<open>One edge for each pair of a head and a tail\<close>

lemma AddUnique_distinct:
  assumes "AddUnique dst edge = Inr dst'" "distinct (map edge_key dst)"
  shows "distinct (map edge_key dst')"
  using AddUnique_cases [OF assms(1)] assms(2) by auto

lemma unique_edges_iff:
  "unique_edges s \<longleftrightarrow>
     (\<forall>f\<in>set (faces s). distinct (map edge_key f)) \<and> distinct (map edge_key (unplacedEdges s))"
proof -
  have "edge_key = (\<lambda>e. (e_head e, e_tail e))" by (rule ext) (simp add: edge_key_def)
  then show ?thesis by (simp add: unique_edges_def list_all_iff)
qed

lemma unique_add_face:
  assumes "add_face_edge dest face edge = Inr dest'" "unique_edges dest"
  shows "unique_edges dest'"
proof -
  from add_face_edge_cases [OF assms(1)] obtain edges' where
    b: "unat face < length (faces dest)"
    and u: "AddUnique (faces dest ! unat face) edge = Inr edges'"
    and d: "dest' = dest\<lparr>faces := (faces dest)[unat face := edges']\<rparr>"
    by blast
  from assms(2) b have "distinct (map edge_key (faces dest ! unat face))"
    by (simp add: unique_edges_iff)
  with u have n: "distinct (map edge_key edges')" by (rule AddUnique_distinct)
  have "distinct (map edge_key f)" if "f \<in> set ((faces dest)[unat face := edges'])" for f
  proof -
    from that have "f = edges' \<or> f \<in> set (faces dest)"
      by (meson insertE set_update_subset_insert subsetD)
    with n assms(2) show ?thesis by (auto simp: unique_edges_iff)
  qed
  with assms(2) d show ?thesis by (simp add: unique_edges_iff)
qed

lemma unique_add_unplaced:
  assumes "add_unplaced_edge dest edge = Inr dest'" "unique_edges dest"
  shows "unique_edges dest'"
proof -
  from add_unplaced_edge_cases [OF assms(1)] obtain edges' where
    u: "AddUnique (unplacedEdges dest) edge = Inr edges'" and d: "dest' = dest\<lparr>unplacedEdges := edges'\<rparr>"
    by blast
  from assms(2) have "distinct (map edge_key (unplacedEdges dest))" by (simp add: unique_edges_iff)
  with u have "distinct (map edge_key edges')" by (rule AddUnique_distinct)
  with assms(2) d show ?thesis by (simp add: unique_edges_iff)
qed

lemma AddEdge_unique:
  assumes "AddEdge dest h t l r ty = Inr dest'" "unique_edges dest"
  shows "unique_edges dest'"
proof (cases "h = t")
  case True
  with assms show ?thesis by (simp add: AddEdge_def)
next
  case False
  from AddEdge_steps [OF assms(1) False] obtain d1 where
    a: "add_face_edge dest r \<lparr>e_head = h, e_tail = t, e_type = ty\<rparr> = Inr d1 \<or>
        add_unplaced_edge dest \<lparr>e_head = h, e_tail = t, e_type = ty\<rparr> = Inr d1"
    and b: "add_face_edge d1 l \<lparr>e_head = t, e_tail = h, e_type = ty\<rparr> = Inr dest' \<or>
        add_unplaced_edge d1 \<lparr>e_head = t, e_tail = h, e_type = ty\<rparr> = Inr dest'"
    by blast
  from a assms(2) have "unique_edges d1"
    by (auto intro: unique_add_face unique_add_unplaced)
  with b show ?thesis
    by (auto intro: unique_add_face unique_add_unplaced)
qed

lemma skeleton_extends_unique:
  assumes "skeleton_extends s0 s" "unique_edges s0"
  shows "unique_edges s"
  using assms
proof (induction rule: skeleton_extends.induct)
  case (same s)
  then show ?case .
next
  case (vertex s s' sv)
  then show ?case by (simp add: unique_edges_def)
next
  case (edge s s' h t l r ty s'')
  then show ?case by (auto intro: AddEdge_unique)
qed

lemma empty_skeleton_unique:
  "unique_edges \<lparr>steinerVertices = [], faces = replicate n [], unplacedEdges = []\<rparr>"
  by (simp add: unique_edges_def list_all_iff)

lemma AddUnique_same_type:
  assumes "existing \<in> set dst" "edge_key existing = edge_key edge" "e_type existing = e_type edge"
    "distinct (map edge_key dst)"
  shows "AddUnique dst edge = Inr dst"
proof (cases "find (\<lambda>e. e_head e = e_head edge \<and> e_tail e = e_tail edge) dst")
  case None
  with assms(1,2) show ?thesis by (auto simp: find_None_iff edge_key_def)
next
  case (Some found)
  then have f: "found \<in> set dst" "edge_key found = edge_key edge"
    by (auto simp: find_Some_iff edge_key_def)
  with assms(1,2,4) have "found = existing"
    by (metis distinct_map inj_onD)
  with Some assms(3) show ?thesis by (simp add: AddUnique_def)
qed

text \<open>
  C10: \<^verbatim>\<open>AddUnique\<close> keeps a list with at most one edge for each ordered pair of a head
  and a tail that way; when it returns for an edge whose pair is in the list, the list is
  unchanged; for a pair that is in the list with the same type it returns the list, and
  with another type the assertion \<^verbatim>\<open>existing->_type == edge._type\<close> fails; and every edge
  list of a skeleton returned by \<^verbatim>\<open>CalculateStraightSkeleton\<close>, of a face or of the
  unplaced edges, has at most one edge for each ordered pair.
\<close>

theorem AddUnique_unique_edges:
  "(distinct (map edge_key dst) \<and> AddUnique dst edge = Inr dst' \<longrightarrow> distinct (map edge_key dst')) \<and>
   (edge_key edge \<in> edge_key ` set dst \<and> AddUnique dst edge = Inr dst' \<longrightarrow> dst' = dst) \<and>
   (distinct (map edge_key dst) \<and> existing \<in> set dst \<and> edge_key existing = edge_key edge \<longrightarrow>
      AddUnique dst edge =
        (if e_type existing = e_type edge then Inr dst
         else Inl (AssertFailed ''existing->_type == edge._type''))) \<and>
   (CalculateStraightSkeleton eps vs maxInset = Some (Inr skeleton) \<longrightarrow>
      list_all (\<lambda>f. distinct (map edge_key f)) (faces skeleton) \<and>
      distinct (map edge_key (unplacedEdges skeleton)))"
proof (intro conjI impI)
  assume "distinct (map edge_key dst) \<and> AddUnique dst edge = Inr dst'"
  then show "distinct (map edge_key dst')" by (auto intro: AddUnique_distinct)
next
  assume "edge_key edge \<in> edge_key ` set dst \<and> AddUnique dst edge = Inr dst'"
  then show "dst' = dst" using AddUnique_cases [of dst edge dst'] by blast
next
  assume "distinct (map edge_key dst) \<and> existing \<in> set dst \<and> edge_key existing = edge_key edge"
  then show "AddUnique dst edge =
        (if e_type existing = e_type edge then Inr dst
         else Inl (AssertFailed ''existing->_type == edge._type''))"
    using AddUnique_same_type [of existing dst edge] AddUnique_type_clash [of existing dst edge]
    by simp
next
  assume r: "CalculateStraightSkeleton eps vs maxInset = Some (Inr skeleton)"
  from CalculateStraightSkeleton_extends [OF r] obtain n where
    "skeleton_extends \<lparr>steinerVertices = [], faces = replicate n [], unplacedEdges = []\<rparr> skeleton" ..
  then have u: "unique_edges skeleton"
    using empty_skeleton_unique by (rule skeleton_extends_unique)
  from u show "list_all (\<lambda>f. distinct (map edge_key f)) (faces skeleton)"
    by (simp add: unique_edges_iff list_all_iff)
  from u show "distinct (map edge_key (unplacedEdges skeleton))"
    by (simp add: unique_edges_iff)
qed

theorem AddUnique_unique_edges_witness:
  "AddUnique [\<lparr>e_head = 0, e_tail = 1, e_type = VertexPath\<rparr>] \<lparr>e_head = 0, e_tail = 1, e_type = VertexPath\<rparr>
     = Inr [\<lparr>e_head = 0, e_tail = 1, e_type = VertexPath\<rparr>] \<and>
   AddUnique [\<lparr>e_head = 0, e_tail = 1, e_type = VertexPath\<rparr>] \<lparr>e_head = 0, e_tail = 1, e_type = Wavefront\<rparr>
     = Inl (AssertFailed ''existing->_type == edge._type'') \<and>
   AddUnique [\<lparr>e_head = 0, e_tail = 1, e_type = VertexPath\<rparr>] \<lparr>e_head = 1, e_tail = 0, e_type = Wavefront\<rparr>
     = Inr [\<lparr>e_head = 0, e_tail = 1, e_type = VertexPath\<rparr>, \<lparr>e_head = 1, e_tail = 0, e_type = Wavefront\<rparr>] \<and>
   CalculateStraightSkeleton (1 / 10000) unit_square NumMax = Some (Inr unit_square_skeleton) \<and>
   list_all (\<lambda>f. distinct (map edge_key f)) (faces unit_square_skeleton)"
proof -
  let ?d = "[\<lparr>e_head = 0, e_tail = 1, e_type = VertexPath\<rparr>]"
  have r: "CalculateStraightSkeleton (1 / 10000) unit_square NumMax = Some (Inr unit_square_skeleton)"
    by (rule unit_square_result) simp_all
  have a: "AddUnique ?d \<lparr>e_head = 1, e_tail = 0, e_type = Wavefront\<rparr>
     = Inr [\<lparr>e_head = 0, e_tail = 1, e_type = VertexPath\<rparr>, \<lparr>e_head = 1, e_tail = 0, e_type = Wavefront\<rparr>]"
    by (simp add: AddUnique_def)
  have k: "distinct (map edge_key ?d) \<and> \<lparr>e_head = 0, e_tail = 1, e_type = VertexPath\<rparr> \<in> set ?d"
    by simp
  have e1: "edge_key \<lparr>e_head = 0, e_tail = 1, e_type = VertexPath\<rparr> = edge_key \<lparr>e_head = 0, e_tail = 1, e_type = Wavefront\<rparr>"
    by (simp add: edge_key_def)
  from r a k e1
    AddUnique_unique_edges [where dst = ?d and existing = "\<lparr>e_head = 0, e_tail = 1, e_type = VertexPath\<rparr>"
      and edge = "\<lparr>e_head = 0, e_tail = 1, e_type = VertexPath\<rparr>"
      and eps = "1 / 10000" and vs = unit_square and maxInset = NumMax and skeleton = unit_square_skeleton]
    AddUnique_unique_edges [where dst = ?d and existing = "\<lparr>e_head = 0, e_tail = 1, e_type = VertexPath\<rparr>"
      and edge = "\<lparr>e_head = 0, e_tail = 1, e_type = Wavefront\<rparr>"]
  show ?thesis by simp
qed

section \<open>The candidates of an iteration that passes its assertions\<close>

lemma scalar_less_min:
  "\<not> scalar_less a c \<Longrightarrow> \<not> scalar_less b c \<Longrightarrow> \<not> scalar_less (scalar_min a b) c"
  by simp

lemma collapse_candidate_cases:
  assumes "collapse_candidate eps g lastEventTime e best = Inr best'"
  obtains (skip) "best' = best"
  | (earlier) collapseTime v0 v1 where "\<not> scalar_less collapseTime (Num 0)"
      "\<not> scalar_less collapseTime (Num lastEventTime)"
      "scalar_less collapseTime (scalar_add (fst best) (- eps))"
      "best' = (collapseTime, [(collapseTime, e)])"
      "nth_checked (vertices g) (unat (head (wavefrontEdges g ! e))) ''_vertices'' = Inr v0"
      "nth_checked (vertices g) (unat (tail (wavefrontEdges g ! e))) ''_vertices'' = Inr v1"
      "collapseTime = CalculateCollapseTime eps v0 v1"
  | (tied) collapseTime v0 v1 where "\<not> scalar_less collapseTime (Num 0)"
      "\<not> scalar_less collapseTime (Num lastEventTime)"
      "\<not> scalar_less collapseTime (scalar_add (fst best) (- eps))"
      "scalar_less collapseTime (scalar_add (fst best) eps)"
      "best' = (scalar_min collapseTime (fst best), snd best @ [(collapseTime, e)])"
      "nth_checked (vertices g) (unat (head (wavefrontEdges g ! e))) ''_vertices'' = Inr v0"
      "nth_checked (vertices g) (unat (tail (wavefrontEdges g ! e))) ''_vertices'' = Inr v1"
      "collapseTime = CalculateCollapseTime eps v0 v1"
proof -
  from assms obtain v0 v1 where
    h: "nth_checked (vertices g) (unat (head (wavefrontEdges g ! e))) ''_vertices'' = Inr v0"
      "nth_checked (vertices g) (unat (tail (wavefrontEdges g ! e))) ''_vertices'' = Inr v1" and
    r: "(let collapseTime = CalculateCollapseTime eps v0 v1;
            bestCollapseTime = fst best;
            bestCollapse = snd best
        in if scalar_less collapseTime (Num 0) then Inr best
           else
             ebind (assert_that (\<not> scalar_less collapseTime (Num lastEventTime))
                      ''collapseTime >= lastEventTime'') (\<lambda>_.
             if scalar_less collapseTime (scalar_add bestCollapseTime (- eps)) then
               Inr (collapseTime, [(collapseTime, e)])
             else if scalar_less collapseTime (scalar_add bestCollapseTime eps) then
               Inr (scalar_min collapseTime bestCollapseTime, bestCollapse @ [(collapseTime, e)])
             else Inr best)) = Inr best'"
    unfolding collapse_candidate_def by (elim ebind_Inr_E) blast
  show ?thesis
  proof (cases "scalar_less (CalculateCollapseTime eps v0 v1) (Num 0)")
    case True
    with r have "best' = best" by (simp add: Let_def)
    then show ?thesis by (rule skip)
  next
    case False
    with r have a: "\<not> scalar_less (CalculateCollapseTime eps v0 v1) (Num lastEventTime)"
      by (auto simp: Let_def ebind_eq_Inr assert_that_eq_Inr)
    show ?thesis
    proof (cases "scalar_less (CalculateCollapseTime eps v0 v1) (scalar_add (fst best) (- eps))")
      case True
      with r False a have "best' = (CalculateCollapseTime eps v0 v1, [(CalculateCollapseTime eps v0 v1, e)])"
        by (simp add: Let_def)
      with False a True show ?thesis using h by (rule earlier) simp
    next
      case notEarlier: False
      show ?thesis
      proof (cases "scalar_less (CalculateCollapseTime eps v0 v1) (scalar_add (fst best) eps)")
        case True
        with r False a notEarlier have "best' = (scalar_min (CalculateCollapseTime eps v0 v1) (fst best),
            snd best @ [(CalculateCollapseTime eps v0 v1, e)])"
          by (simp add: Let_def)
        with False a notEarlier True show ?thesis using h by (rule tied) simp
      next
        case False
        with r \<open>\<not> scalar_less (CalculateCollapseTime eps v0 v1) (Num 0)\<close> a notEarlier
        have "best' = best" by (simp add: Let_def)
        then show ?thesis by (rule skip)
      qed
    qed
  qed
qed

lemma collapse_candidate_times:
  assumes "collapse_candidate eps g lastEventTime e best = Inr best'"
    "\<not> scalar_less (fst best) (Num lastEventTime)"
    "list_all (\<lambda>c. \<not> scalar_less (fst c) (Num lastEventTime)) (snd best)"
  shows "\<not> scalar_less (fst best') (Num lastEventTime) \<and>
         list_all (\<lambda>c. \<not> scalar_less (fst c) (Num lastEventTime)) (snd best')"
  using assms(1)
proof (cases rule: collapse_candidate_cases)
  case skip
  with assms(2,3) show ?thesis by simp
next
  case (earlier collapseTime v0 v1)
  then show ?thesis by simp
next
  case (tied collapseTime v0 v1)
  with assms(2,3) show ?thesis by simp
qed

lemma find_best_collapse_times:
  assumes "find_best_collapse eps g lastEventTime = Inr (bestCollapseTime, bestCollapse)"
  shows "\<not> scalar_less bestCollapseTime (Num lastEventTime) \<and>
         list_all (\<lambda>c. \<not> scalar_less (fst c) (Num lastEventTime)) bestCollapse"
proof -
  from assms obtain best where
    l: "for_each [0..<length (wavefrontEdges g)] (collapse_candidate eps g lastEventTime) (NumMax, []) = Inr best"
    and b: "bestCollapseTime = fst best"
      "bestCollapse = filter (\<lambda>e. scalar_less (fst e) (scalar_add (fst best) eps)) (snd best)"
    unfolding find_best_collapse_def by (elim ebind_Inr_E) auto
  have "\<not> scalar_less (fst best) (Num lastEventTime) \<and>
         list_all (\<lambda>c. \<not> scalar_less (fst c) (Num lastEventTime)) (snd best)"
    using l
  proof (rule for_each_invariant)
    show "\<not> scalar_less (fst (NumMax, [])) (Num lastEventTime) \<and>
         list_all (\<lambda>c. \<not> scalar_less (fst c) (Num lastEventTime)) (snd (NumMax, []))"
      by simp
  next
    fix x s s'
    assume "\<not> scalar_less (fst s) (Num lastEventTime) \<and>
         list_all (\<lambda>c. \<not> scalar_less (fst c) (Num lastEventTime)) (snd s)"
      and "collapse_candidate eps g lastEventTime x s = Inr s'"
    then show "\<not> scalar_less (fst s') (Num lastEventTime) \<and>
         list_all (\<lambda>c. \<not> scalar_less (fst c) (Num lastEventTime)) (snd s')"
      using collapse_candidate_times by blast
  qed
  with b show ?thesis by (auto simp: list_all_iff)
qed

lemma crash_candidate_of_cases:
  assumes "crash_candidate_of eps g lastEventTime bestCollapseTime m best = Inr best'"
  obtains (skip) "best' = best"
  | (earlier) crashEvent headV where "\<not> scalar_less (c_time crashEvent) (Num 0)"
      "\<not> scalar_less (c_time crashEvent) (Num lastEventTime)"
      "scalar_less (c_time crashEvent) (scalar_add bestCollapseTime eps)"
      "scalar_less (c_time crashEvent) (scalar_add (fst best) (- eps))"
      "best' = (c_time crashEvent, [(crashEvent, m)])"
      "nth_checked (vertices g) (unat (m_head (motorcycleSegments g ! m))) ''_vertices'' = Inr headV"
      "\<not> Equivalent2 (velocity headV) Zero2 eps"
      "CalculateCrashTime eps g headV = Inr crashEvent"
  | (tied) crashEvent headV where "\<not> scalar_less (c_time crashEvent) (Num 0)"
      "\<not> scalar_less (c_time crashEvent) (Num lastEventTime)"
      "scalar_less (c_time crashEvent) (scalar_add bestCollapseTime eps)"
      "\<not> scalar_less (c_time crashEvent) (scalar_add (fst best) (- eps))"
      "scalar_less (c_time crashEvent) (scalar_add (fst best) eps)"
      "best' = (scalar_min (c_time crashEvent) (fst best), snd best @ [(crashEvent, m)])"
      "nth_checked (vertices g) (unat (m_head (motorcycleSegments g ! m))) ''_vertices'' = Inr headV"
      "\<not> Equivalent2 (velocity headV) Zero2 eps"
      "CalculateCrashTime eps g headV = Inr crashEvent"
proof -
  from assms obtain headV where
    h: "nth_checked (vertices g) (unat (m_head (motorcycleSegments g ! m))) ''_vertices'' = Inr headV" and
    r: "(if Equivalent2 (velocity headV) Zero2 eps then Inr best
       else
         ebind (assert_that (initialTime headV = 0) ''head._initialTime == Primitive(0)'') (\<lambda>_.
         ebind (CalculateCrashTime eps g headV) (\<lambda>crashEvent.
           (let bestMotorcycleCrashTime = fst best;
                bestMotorcycleCrash = snd best
            in if scalar_less (c_time crashEvent) (Num 0) then Inr best
               else
                 ebind (assert_that (\<not> scalar_less (c_time crashEvent) (Num lastEventTime))
                          ''crashEvent._time >= lastEventTime'') (\<lambda>_.
                 if scalar_less (c_time crashEvent) (scalar_add bestCollapseTime eps) then
                   (if scalar_less (c_time crashEvent) (scalar_add bestMotorcycleCrashTime (- eps)) then
                      Inr (c_time crashEvent, [(crashEvent, m)])
                    else if scalar_less (c_time crashEvent) (scalar_add bestMotorcycleCrashTime eps) then
                      Inr (scalar_min (c_time crashEvent) bestMotorcycleCrashTime,
                           bestMotorcycleCrash @ [(crashEvent, m)])
                    else Inr best)
                 else Inr best))))) = Inr best'"
    unfolding crash_candidate_of_def by (elim ebind_Inr_E) blast
  show ?thesis
  proof (cases "Equivalent2 (velocity headV) Zero2 eps")
    case True
    with r have "best' = best" by simp
    then show ?thesis by (rule skip)
  next
    case False
    with r obtain crashEvent where
      c: "CalculateCrashTime eps g headV = Inr crashEvent" and
      r2: "(let bestMotorcycleCrashTime = fst best;
                bestMotorcycleCrash = snd best
            in if scalar_less (c_time crashEvent) (Num 0) then Inr best
               else
                 ebind (assert_that (\<not> scalar_less (c_time crashEvent) (Num lastEventTime))
                          ''crashEvent._time >= lastEventTime'') (\<lambda>_.
                 if scalar_less (c_time crashEvent) (scalar_add bestCollapseTime eps) then
                   (if scalar_less (c_time crashEvent) (scalar_add bestMotorcycleCrashTime (- eps)) then
                      Inr (c_time crashEvent, [(crashEvent, m)])
                    else if scalar_less (c_time crashEvent) (scalar_add bestMotorcycleCrashTime eps) then
                      Inr (scalar_min (c_time crashEvent) bestMotorcycleCrashTime,
                           bestMotorcycleCrash @ [(crashEvent, m)])
                    else Inr best)
                 else Inr best)) = Inr best'"
      by (simp only: if_False) (elim ebind_Inr_E, blast)
    show ?thesis
    proof (cases "scalar_less (c_time crashEvent) (Num 0)")
      case True
      with r2 have "best' = best" by (simp add: Let_def)
      then show ?thesis by (rule skip)
    next
      case neg: False
      with r2 have a: "\<not> scalar_less (c_time crashEvent) (Num lastEventTime)"
        by (auto simp: Let_def ebind_eq_Inr assert_that_eq_Inr)
      show ?thesis
      proof (cases "scalar_less (c_time crashEvent) (scalar_add bestCollapseTime eps)")
        case False
        with r2 neg a have "best' = best" by (simp add: Let_def)
        then show ?thesis by (rule skip)
      next
        case before: True
        show ?thesis
        proof (cases "scalar_less (c_time crashEvent) (scalar_add (fst best) (- eps))")
          case True
          with r2 neg a before have "best' = (c_time crashEvent, [(crashEvent, m)])"
            by (simp add: Let_def)
          with neg a before True show ?thesis using h False c by (rule earlier)
        next
          case notEarlier: False
          show ?thesis
          proof (cases "scalar_less (c_time crashEvent) (scalar_add (fst best) eps)")
            case True
            with r2 neg a before notEarlier
            have "best' = (scalar_min (c_time crashEvent) (fst best), snd best @ [(crashEvent, m)])"
              by (simp add: Let_def)
            with neg a before notEarlier True show ?thesis using h \<open>\<not> Equivalent2 (velocity headV) Zero2 eps\<close> c
              by (rule tied)
          next
            case False
            with r2 neg a before notEarlier have "best' = best" by (simp add: Let_def)
            then show ?thesis by (rule skip)
          qed
        qed
      qed
    qed
  qed
qed

lemma crash_candidate_of_times:
  assumes "crash_candidate_of eps g lastEventTime bestCollapseTime m best = Inr best'"
    "\<not> scalar_less (fst best) (Num lastEventTime)"
    "list_all (\<lambda>c. \<not> scalar_less (c_time (fst c)) (Num lastEventTime)) (snd best)"
  shows "\<not> scalar_less (fst best') (Num lastEventTime) \<and>
         list_all (\<lambda>c. \<not> scalar_less (c_time (fst c)) (Num lastEventTime)) (snd best')"
  using assms(1)
proof (cases rule: crash_candidate_of_cases)
  case skip
  with assms(2,3) show ?thesis by simp
next
  case (earlier crashEvent headV)
  then show ?thesis by simp
next
  case (tied crashEvent headV)
  with assms(2,3) show ?thesis by simp
qed

lemma find_best_crash_times:
  assumes "find_best_crash eps g lastEventTime bestCollapseTime = Inr (t, crashes)"
  shows "\<not> scalar_less t (Num lastEventTime) \<and>
         list_all (\<lambda>c. \<not> scalar_less (c_time (fst c)) (Num lastEventTime)) crashes"
proof -
  have "\<not> scalar_less (fst (t, crashes)) (Num lastEventTime) \<and>
         list_all (\<lambda>c. \<not> scalar_less (c_time (fst c)) (Num lastEventTime)) (snd (t, crashes))"
    using assms [unfolded find_best_crash_def]
  proof (rule for_each_invariant)
    show "\<not> scalar_less (fst (NumMax, [])) (Num lastEventTime) \<and>
         list_all (\<lambda>c. \<not> scalar_less (c_time (fst c)) (Num lastEventTime)) (snd (NumMax, []))"
      by simp
  next
    fix x s s'
    assume "\<not> scalar_less (fst s) (Num lastEventTime) \<and>
         list_all (\<lambda>c. \<not> scalar_less (c_time (fst c)) (Num lastEventTime)) (snd s)"
      and "crash_candidate_of eps g lastEventTime bestCollapseTime x s = Inr s'"
    then show "\<not> scalar_less (fst s') (Num lastEventTime) \<and>
         list_all (\<lambda>c. \<not> scalar_less (c_time (fst c)) (Num lastEventTime)) (snd s')"
      using crash_candidate_of_times by blast
  qed
  then show ?thesis by simp
qed

section \<open>The wavefront at time zero\<close>

lemma ebind_Inl_first: "m = Inl e \<Longrightarrow> ebind m f = Inl e"
  by simp

lemma ebind_fails:
  assumes "\<And>x. m = Inr x \<Longrightarrow> \<exists>e. f x = Inl e"
  shows "\<exists>e. ebind m f = Inl e"
  using assms by (cases m) auto

lemma for_each_fails:
  assumes "xs \<noteq> []" "\<And>x s. \<exists>e. f x s = Inl e"
  shows "\<exists>e. for_each xs f s = Inl e"
proof -
  from assms(1) obtain y ys where xs: "xs = y # ys" by (cases xs) auto
  from assms(2) obtain e where "f y s = Inl e" by blast
  with xs show ?thesis by simp
qed

lemma AddSteinerVertex_zero:
  "AddSteinerVertex eps skeleton (Expand p 0) = Inl (AssertFailed ''vertex[2] != Primitive(0)'')"
  by (simp add: AddSteinerVertex_def Expand_def)

lemma ClampedPositionAtTime_zero:
  assumes "initialTime v = 0"
  shows "ClampedPositionAtTime eps v 0 = Expand (if Equivalent2 (velocity v) Zero2 eps then position v else PositionAtTime v 0) 0"
  using assms by (simp add: ClampedPositionAtTime_def)

lemma process_crash_zero: "\<exists>e. process_crash eps crashEvent m 0 st = Inl e"
  unfolding process_crash_def Let_def
  by (intro ebind_fails) (simp add: AddSteinerVertex_zero)

lemma collapse_group_zero: "\<exists>e. collapse_group eps bestCollapse 0 collapseGroups collapseGroup st = Inl e"
  unfolding collapse_group_def Let_def
  by (intro ebind_fails) (simp add: AddSteinerVertex_zero)

lemma for_each_measure:
  assumes "for_each xs f s = Inr s'"
    and "\<And>x s s'. f x s = Inr s' \<Longrightarrow> m s' \<le> m s + (1 :: nat)"
  shows "m s' \<le> m s + length xs"
  using assms(1)
proof (induction xs arbitrary: s)
  case Nil
  then show ?case by simp
next
  case (Cons x xs)
  from Cons.prems obtain s1 where s1: "f x s = Inr s1" "for_each xs f s1 = Inr s'"
    by (auto simp: ebind_eq_Inr)
  from Cons.IH [OF s1(2)] assms(2) [OF s1(1)] show ?case by simp
qed

lemma find_best_collapse_length:
  assumes "find_best_collapse eps g lastEventTime = Inr (bestCollapseTime, bestCollapse)"
  shows "length bestCollapse \<le> length (wavefrontEdges g)"
proof -
  from assms obtain best where
    l: "for_each [0..<length (wavefrontEdges g)] (collapse_candidate eps g lastEventTime) (NumMax, []) = Inr best"
    and b: "bestCollapse = filter (\<lambda>e. scalar_less (fst e) (scalar_add (fst best) eps)) (snd best)"
    unfolding find_best_collapse_def by (elim ebind_Inr_E) auto
  have "length (snd best) \<le> length (snd (NumMax, [] :: (scalar \<times> nat) list)) + length [0..<length (wavefrontEdges g)]"
    using l
  proof (rule for_each_measure)
    fix x s s' assume "collapse_candidate eps g lastEventTime x s = Inr s'"
    then show "length (snd s') \<le> length (snd s) + 1"
      by (cases rule: collapse_candidate_cases) simp_all
  qed
  then have "length (snd best) \<le> length (wavefrontEdges g)" by simp
  moreover have "length bestCollapse \<le> length (snd best)" unfolding b by (rule length_filter_le)
  ultimately show ?thesis by simp
qed

lemma assign_group_count:
  assumes "assign_group edges bestCollapse c st = Inr st'"
  shows "(fst st ! c \<noteq> NoIndex \<and> st' = st) \<or>
         (fst st ! c = NoIndex \<and> length (fst (snd st')) = length (fst (snd st)) + 1 \<and>
          snd (snd st') = snd (snd st) + 1)"
  using assms
  by (auto simp: assign_group_def Let_def ebind_eq_Inr split: if_splits)

lemma find_collapse_groups_loop_count:
  assumes "for_each xs (assign_group edges bestCollapse) st = Inr st'"
    "unat (snd (snd st)) = length (fst (snd st))"
    "length (fst (snd st)) + length xs < 2 ^ 32"
  shows "unat (snd (snd st')) = length (fst (snd st')) \<and> length (fst (snd st)) \<le> length (fst (snd st'))"
  using assms
proof (induction xs arbitrary: st)
  case Nil
  then show ?case by simp
next
  case (Cons x xs)
  from Cons.prems(1) obtain s1 where s1: "assign_group edges bestCollapse x st = Inr s1"
    "for_each xs (assign_group edges bestCollapse) s1 = Inr st'"
    by (auto simp: ebind_eq_Inr)
  from assign_group_count [OF s1(1)]
  have a: "unat (snd (snd s1)) = length (fst (snd s1)) \<and> length (fst (snd st)) \<le> length (fst (snd s1))
       \<and> length (fst (snd s1)) \<le> length (fst (snd st)) + 1"
  proof
    assume "fst st ! x \<noteq> NoIndex \<and> s1 = st"
    with Cons.prems(2) show ?thesis by simp
  next
    assume n: "fst st ! x = NoIndex \<and> length (fst (snd s1)) = length (fst (snd st)) + 1 \<and>
          snd (snd s1) = snd (snd st) + 1"
    from Cons.prems(2,3) have "unat (snd (snd st)) + 1 < 2 ^ 32" by simp
    then have "unat (snd (snd st) + 1) = unat (snd (snd st)) + 1"
      by (simp add: unat_add_lem [THEN iffD1])
    with n Cons.prems(2) show ?thesis by simp
  qed
  with Cons.prems(3) have "length (fst (snd s1)) + length xs < 2 ^ 32" by simp
  from Cons.IH [OF s1(2) _ this] a show ?case by simp
qed

lemma find_collapse_groups_count:
  assumes "find_collapse_groups edges bestCollapse = Inr grouping"
    "bestCollapse \<noteq> []" "length bestCollapse < 2 ^ 32"
  shows "unat (snd (snd grouping)) \<noteq> 0"
proof -
  from assms(2) have u: "[0..<length bestCollapse] = 0 # [1..<length bestCollapse]"
    by (simp add: upt_rec)
  from assms(1) [unfolded find_collapse_groups_def u] obtain s1 where
    s1: "assign_group edges bestCollapse 0 (replicate (length bestCollapse) NoIndex, [], 0) = Inr s1"
      "for_each [1..<length bestCollapse] (assign_group edges bestCollapse) s1 = Inr grouping"
    by (auto simp: ebind_eq_Inr)
  from assms(2) have "replicate (length bestCollapse) NoIndex ! 0 = NoIndex" by simp
  with assign_group_count [OF s1(1)] have a: "length (fst (snd s1)) = 1" "snd (snd s1) = 1"
    by simp_all
  from a have b: "unat (snd (snd s1)) = length (fst (snd s1))" by simp
  from a assms(2,3) have c: "length (fst (snd s1)) + length [1..<length bestCollapse] < 2 ^ 32"
    by (cases bestCollapse) auto
  from find_collapse_groups_loop_count [OF s1(2) b c] a show ?thesis by auto
qed

lemma process_collapse_zero:
  assumes "bestCollapse \<noteq> []" "length bestCollapse < 2 ^ 32"
  shows "\<exists>e. process_collapse eps bestCollapse 0 st = Inl e"
proof (cases "\<exists>e\<in>set bestCollapse. \<not> snd e < length (wavefrontEdges (fst st))")
  case True
  then show ?thesis by (simp add: process_collapse_def Let_def)
next
  case False
  have "\<exists>e. ebind (find_collapse_groups (wavefrontEdges (fst st)) bestCollapse) (\<lambda>grouping.
           ebind (for_each [0..<unat (snd (snd grouping))]
                    (collapse_group eps bestCollapse 0 (fst grouping))
                    (fst st, snd st, fst (snd grouping))) (\<lambda>st'.
           ebind (remove_collapsed (wavefrontEdges (fst st')) bestCollapse) (\<lambda>edges.
           ebind (for_each (snd (snd st')) (relink_group eps) ((fst st')\<lparr>wavefrontEdges := edges\<rparr>)) (\<lambda>g'.
           Inr (g', fst (snd st')))))) = Inl e"
  proof (rule ebind_fails)
    fix grouping :: grouping
    assume "find_collapse_groups (wavefrontEdges (fst st)) bestCollapse = Inr grouping"
    from find_collapse_groups_count [OF this assms] have "[0..<unat (snd (snd grouping))] \<noteq> []"
      by simp
    then have "\<exists>e. for_each [0..<unat (snd (snd grouping))]
                    (collapse_group eps bestCollapse 0 (fst grouping))
                    (fst st, snd st, fst (snd grouping)) = Inl e"
      by (rule for_each_fails) (rule collapse_group_zero)
    then show "\<exists>e. ebind (for_each [0..<unat (snd (snd grouping))]
                    (collapse_group eps bestCollapse 0 (fst grouping))
                    (fst st, snd st, fst (snd grouping))) (\<lambda>st'.
           ebind (remove_collapsed (wavefrontEdges (fst st')) bestCollapse) (\<lambda>edges.
           ebind (for_each (snd (snd st')) (relink_group eps) ((fst st')\<lparr>wavefrontEdges := edges\<rparr>)) (\<lambda>g'.
           Inr (g', fst (snd st'))))) = Inl e"
      by auto
  qed
  with False show ?thesis by (simp add: process_collapse_def Let_def)
qed

lemma crash_candidate_of_attained:
  assumes "crash_candidate_of eps g lastEventTime bestCollapseTime m best = Inr best'"
    "(snd best = [] \<and> fst best = NumMax) \<or> (\<exists>e\<in>set (snd best). c_time (fst e) = fst best)"
  shows "(snd best' = [] \<and> fst best' = NumMax) \<or> (\<exists>e\<in>set (snd best'). c_time (fst e) = fst best')"
  using assms(1)
proof (cases rule: crash_candidate_of_cases)
  case skip
  with assms(2) show ?thesis by simp
next
  case (earlier crashEvent headV)
  then show ?thesis by simp
next
  case (tied crashEvent headV)
  from tied(4,5) have "fst best \<noteq> NumMax" by auto
  with assms(2) obtain e where e: "e \<in> set (snd best)" "c_time (fst e) = fst best" by auto
  show ?thesis
  proof (cases "scalar_less (fst best) (c_time crashEvent)")
    case True
    with tied(6) e show ?thesis by auto
  next
    case False
    with tied(6) show ?thesis by auto
  qed
qed

lemma find_best_crash_attained:
  assumes "find_best_crash eps g lastEventTime bestCollapseTime = Inr (t, crashes)" "crashes \<noteq> []"
  shows "\<exists>e\<in>set crashes. c_time (fst e) = t"
proof -
  have "(snd (t, crashes) = [] \<and> fst (t, crashes) = NumMax) \<or>
        (\<exists>e\<in>set (snd (t, crashes)). c_time (fst e) = fst (t, crashes))"
    using assms(1) [unfolded find_best_crash_def]
  proof (rule for_each_invariant)
    show "(snd (NumMax, [] :: (CrashEvent \<times> nat) list) = [] \<and> fst (NumMax, [] :: (CrashEvent \<times> nat) list) = NumMax) \<or>
        (\<exists>e\<in>set (snd (NumMax, [] :: (CrashEvent \<times> nat) list)). c_time (fst e) = fst (NumMax, [] :: (CrashEvent \<times> nat) list))"
      by simp
  next
    fix x s s'
    assume "(snd s = [] \<and> fst s = NumMax) \<or> (\<exists>e\<in>set (snd s). c_time (fst e) = fst s)"
      and "crash_candidate_of eps g lastEventTime bestCollapseTime x s = Inr s'"
    then show "(snd s' = [] \<and> fst s' = NumMax) \<or> (\<exists>e\<in>set (snd s'). c_time (fst e) = fst s')"
      using crash_candidate_of_attained by blast
  qed
  with assms(2) show ?thesis by simp
qed

lemma event_step_zero:
  assumes "0 < eps" "length (wavefrontEdges g) < 2 ^ 32"
  shows "event_step eps (Num 0) (g, result, 0) \<noteq> Inr (Continue st')"
proof
  assume "event_step eps (Num 0) (g, result, 0) = Inr (Continue st')"
  then show False
  proof (cases rule: event_step_Continue)
    case (crash bestCollapseTime bestCollapse bestMotorcycleCrashTime bestMotorcycleCrash crashEvent m t r)
    from find_best_crash_times [OF crash(2)] crash(4)
    have z: "bestMotorcycleCrashTime = Num 0" by (cases bestMotorcycleCrashTime) auto
    from find_best_crash_attained [OF crash(2,3)] z obtain e where
      e: "e \<in> set bestMotorcycleCrash" "c_time (fst e) = Num 0" by auto
    with assms(1) z
    have "e \<in> set (filter (\<lambda>e. scalar_less (c_time (fst e)) (scalar_add bestMotorcycleCrashTime eps))
                  bestMotorcycleCrash)"
      by simp
    then have "e = (crashEvent, m)" unfolding crash(5) by simp
    with e(2) crash(6) have "t = 0" by simp
    with crash(7) process_crash_zero [of eps crashEvent m "(fst (g, result, 0 :: real), fst (snd (g, result, 0 :: real)))"]
    show False by auto
  next
    case (collapse bestCollapse bestMotorcycleCrashTime t r)
    from find_best_collapse_times [OF collapse(1)] collapse(4) have "t = 0" by simp
    from find_best_collapse_length [OF collapse(1)] assms(2) have "length bestCollapse < 2 ^ 32"
      by simp
    from process_collapse_zero [OF collapse(3) this] collapse(5) \<open>t = 0\<close> show False
      by (metis Inl_Inr_False)
  qed
qed

lemma event_loop_zero:
  assumes "0 < eps" "length (wavefrontEdges g) < 2 ^ 32"
  shows "(\<exists>e. event_loop eps (Num 0) (g, result, 0) = Some (Inl e)) \<or>
         event_loop eps (Num 0) (g, result, 0) = Some (Inr (g, result, 0))"
proof (cases "event_step eps (Num 0) (g, result, 0)")
  case (Inl e)
  then show ?thesis by (subst event_loop.simps, subst event_loop.simps) simp
next
  case (Inr oc)
  show ?thesis
  proof (cases oc)
    case Break
    with Inr show ?thesis by (subst event_loop.simps, subst event_loop.simps) simp
  next
    case (Continue s)
    with Inr event_step_zero [OF assms] show ?thesis by blast
  qed
qed

lemma build_vertex_initialTime:
  assumes "for_each xs (build_vertex eps vs) g0 = Inr g" "\<forall>v\<in>set (vertices g0). initialTime v = 0"
  shows "\<forall>v\<in>set (vertices g). initialTime v = 0"
  using assms(1)
proof (rule for_each_invariant)
  show "\<forall>v\<in>set (vertices g0). initialTime v = 0" by (rule assms(2))
next
  fix x s s' assume "\<forall>v\<in>set (vertices s). initialTime v = 0" "build_vertex eps vs x s = Inr s'"
  then show "\<forall>v\<in>set (vertices s'). initialTime v = 0"
    by (auto simp: build_vertex_def Let_def ebind_eq_Inr)
qed

lemma build_motorcycle_initialTime:
  assumes "for_each xs (build_motorcycle vs) g0 = Inr g" "\<forall>v\<in>set (vertices g0). initialTime v = 0"
  shows "\<forall>v\<in>set (vertices g). initialTime v = 0"
  using assms(1)
proof (rule for_each_invariant)
  show "\<forall>v\<in>set (vertices g0). initialTime v = 0" by (rule assms(2))
next
  fix x s s' assume "\<forall>v\<in>set (vertices s). initialTime v = 0" "build_motorcycle vs x s = Inr s'"
  then show "\<forall>v\<in>set (vertices s'). initialTime v = 0"
    by (auto simp: build_motorcycle_def Let_def split: if_splits)
qed

lemma BuildGraphFromVertexLoop_initialTime:
  assumes "BuildGraphFromVertexLoop eps vs = Inr g"
  shows "(\<forall>v\<in>set (vertices g). initialTime v = 0) \<and> length (wavefrontEdges g) = length vs \<and>
         2 \<le> length vs"
proof -
  from assms obtain g1 g2 where
    l1: "for_each [0..<length vs] (build_vertex eps vs)
           \<lparr>vertices = [], wavefrontEdges = [], motorcycleSegments = [], boundaryPoints = []\<rparr> = Inr g1"
    and l2: "for_each [0..<length vs] (build_motorcycle vs) g1 = Inr g2"
    and g: "g = g2\<lparr>boundaryPoints := vs\<rparr>" and n: "2 \<le> length vs"
    by (auto simp: BuildGraphFromVertexLoop_def ebind_eq_Inr assert_that_eq_Inr)
  from build_vertex_initialTime [OF l1] have "\<forall>v\<in>set (vertices g1). initialTime v = 0" by simp
  from build_motorcycle_initialTime [OF l2 this] g
  have "\<forall>v\<in>set (vertices g). initialTime v = 0" by simp
  with BuildGraphFromVertexLoop_parts [OF assms] n show ?thesis by simp
qed

lemma wavefront_segment_zero:
  assumes "\<forall>v\<in>set (vertices g). initialTime v = 0"
  shows "\<exists>e. wavefront_segment eps g 0 i st = Inl e"
proof (cases "unat (head i) < length (vertices g)")
  case False
  then show ?thesis by (simp add: wavefront_segment_def nth_checked_def)
next
  case h: True
  show ?thesis
  proof (cases "unat (tail i) < length (vertices g)")
    case False
    with h show ?thesis by (simp add: wavefront_segment_def nth_checked_def)
  next
    case True
    from h assms have "initialTime (vertices g ! unat (head i)) = 0" by simp
    with h True show ?thesis
      by (simp add: wavefront_segment_def nth_checked_def ClampedPositionAtTime_zero
            AddSteinerVertex_zero)
  qed
qed

lemma WriteWavefront_zero:
  assumes "\<forall>v\<in>set (vertices g). initialTime v = 0" "wavefrontEdges g \<noteq> []"
  shows "\<exists>e. WriteWavefront eps g result 0 = Some (Inl e)"
proof -
  from assms(2) have "\<exists>e. for_each (wavefrontEdges g) (wavefront_segment eps g 0) (result, []) = Inl e"
    by (rule for_each_fails) (rule wavefront_segment_zero [OF assms(1)])
  then show ?thesis by (auto simp: WriteWavefront_def)
qed

lemma CalculateSkeleton_zero:
  assumes "0 < eps" "length (wavefrontEdges g) < 2 ^ 32"
    "\<forall>v\<in>set (vertices g). initialTime v = 0" "wavefrontEdges g \<noteq> []"
  shows "\<exists>e. CalculateSkeleton eps g (Num 0) = Some (Inl e)"
proof -
  let ?r = "\<lparr>steinerVertices = [], faces = replicate (length (boundaryPoints g)) [],
                    unplacedEdges = []\<rparr>"
  from event_loop_zero [OF assms(1,2), of ?r] show ?thesis
  proof
    assume "\<exists>e. event_loop eps (Num 0) (g, ?r, 0) = Some (Inl e)"
    then show ?thesis by (auto simp: CalculateSkeleton_def Let_def)
  next
    assume "event_loop eps (Num 0) (g, ?r, 0) = Some (Inr (g, ?r, 0))"
    with WriteWavefront_zero [OF assms(3,4), of eps ?r] show ?thesis
      by (auto simp: CalculateSkeleton_def Let_def)
  qed
qed

text \<open>
  With \<^verbatim>\<open>maxInset = 0\<close> the run of every input loop of fewer than \<open>2\<^sup>3\<^sup>2\<close> vertices ends
  in a failure: the loop is refused when the graph is built, or an event at the time zero
  or, at the latest, the first edge of the wavefront fails the assertion
  \<^verbatim>\<open>vertex[2] != Primitive(0)\<close> of \<^verbatim>\<open>AddSteinerVertex\<close>.
\<close>

lemma CalculateStraightSkeleton_zero_inset:
  assumes "0 < eps" "length vs < 2 ^ 32"
  shows "\<exists>e. CalculateStraightSkeleton eps vs (Num 0) = Some (Inl e)"
proof (cases "BuildGraphFromVertexLoop eps vs")
  case (Inl e)
  then show ?thesis by (simp add: CalculateStraightSkeleton_def)
next
  case (Inr g)
  from BuildGraphFromVertexLoop_initialTime [OF Inr] assms(2)
  have "length (wavefrontEdges g) < 2 ^ 32" "\<forall>v\<in>set (vertices g). initialTime v = 0"
    "wavefrontEdges g \<noteq> []"
    by auto
  from CalculateSkeleton_zero [OF assms(1) this] Inr show ?thesis
    by (simp add: CalculateStraightSkeleton_def)
qed

lemma zero_inset_unit_square:
  assumes "0 < eps" "eps < 1"
  shows "event_loop eps (Num 0) (unit_square_graph, result, 0) = Some (Inr (unit_square_graph, result, 0))"
    and "CalculateStraightSkeleton eps unit_square (Num 0) =
           Some (Inl (AssertFailed ''vertex[2] != Primitive(0)''))"
proof -
  have b: "BuildGraphFromVertexLoop eps unit_square = Inr unit_square_graph"
    by (rule build_unit_square) (rule assms)+
  have c: "find_best_collapse eps unit_square_graph 0 =
     Inr (Num (1 / 2), [(Num (1 / 2), 0), (Num (1 / 2), 1), (Num (1 / 2), 2), (Num (1 / 2), 3)])"
    by (rule unit_square_collapses) (rule assms)+
  have s: "event_step eps (Num 0) (unit_square_graph, result, 0) = Inr Break" for result
    by (simp add: event_step_def c Let_def) (simp add: find_best_crash_def unit_square_graph_def)
  show l: "event_loop eps (Num 0) (unit_square_graph, result, 0) =
      Some (Inr (unit_square_graph, result, 0))" for result
    by (subst event_loop.simps) (simp add: s)
  have w: "WriteWavefront eps unit_square_graph result 0 =
      Some (Inl (AssertFailed ''vertex[2] != Primitive(0)''))" for result
    by (simp add: WriteWavefront_def wavefront_segment_def nth_checked_def unit_square_graph_def
          ClampedPositionAtTime_zero AddSteinerVertex_zero)
  show "CalculateStraightSkeleton eps unit_square (Num 0) =
           Some (Inl (AssertFailed ''vertex[2] != Primitive(0)''))"
    by (simp add: CalculateStraightSkeleton_def b CalculateSkeleton_def l w Let_def)
qed

text \<open>
  C6: the skeleton of the unit square with \<^verbatim>\<open>maxInset = 0\<close> is not computed, in the
  \<^verbatim>\<open>float\<close> and in the \<^verbatim>\<open>double\<close> build. The graph is built, the event loop ends without
  an event (the first collapse is at the time \<open>1/2\<close>), and \<^verbatim>\<open>WriteWavefront\<close> gives the
  first vertex of the wavefront, at the time 0, to \<^verbatim>\<open>AddSteinerVertex\<close>, whose assertion
  \<^verbatim>\<open>vertex[2] != Primitive(0)\<close> fails. No loops are returned that could be compared with
  the input polygon.
\<close>

theorem zero_inset_unit_square_fails:
  "BuildGraphFromVertexLoop GetEpsilon_float unit_square = Inr unit_square_graph \<and>
   event_loop GetEpsilon_float (Num 0)
     (unit_square_graph, \<lparr>steinerVertices = [], faces = [[], [], [], []], unplacedEdges = []\<rparr>, 0)
     = Some (Inr (unit_square_graph, \<lparr>steinerVertices = [], faces = [[], [], [], []], unplacedEdges = []\<rparr>, 0)) \<and>
   ClampedPositionAtTime GetEpsilon_float (vertices unit_square_graph ! 1) 0 = (1, 0, 0) \<and>
   AddSteinerVertex GetEpsilon_float \<lparr>steinerVertices = [], faces = [[], [], [], []], unplacedEdges = []\<rparr> (1, 0, 0)
     = Inl (AssertFailed ''vertex[2] != Primitive(0)'') \<and>
   CalculateStraightSkeleton GetEpsilon_float unit_square (Num 0)
     = Some (Inl (AssertFailed ''vertex[2] != Primitive(0)'')) \<and>
   CalculateStraightSkeleton GetEpsilon_double unit_square (Num 0)
     = Some (Inl (AssertFailed ''vertex[2] != Primitive(0)''))"
proof -
  have f: "0 < GetEpsilon_float" "GetEpsilon_float < 1" by (simp_all add: GetEpsilon_float_def)
  have d: "0 < GetEpsilon_double" "GetEpsilon_double < 1" by (simp_all add: GetEpsilon_double_def)
  have c: "ClampedPositionAtTime GetEpsilon_float (vertices unit_square_graph ! 1) 0 = (1, 0, 0)"
    by (simp add: ClampedPositionAtTime_def PositionAtTime_def unit_square_graph_def vec_defs
          Expand_def GetEpsilon_float_def)
  have a: "AddSteinerVertex GetEpsilon_float
             \<lparr>steinerVertices = [], faces = [[], [], [], []], unplacedEdges = []\<rparr> (1, 0, 0)
           = Inl (AssertFailed ''vertex[2] != Primitive(0)'')"
    by (simp add: AddSteinerVertex_def)
  from build_unit_square [OF f] zero_inset_unit_square [OF f] zero_inset_unit_square(2) [OF d] c a
  show ?thesis by simp
qed

section \<open>Motorcycle crashes before collapses\<close>



lemma crash_candidate_of_member:
  assumes "crash_candidate_of eps g lastEventTime bestCollapseTime m best = Inr best'"
    "\<forall>e\<in>set (snd best). P e" "crash_before_collapse eps g bestCollapseTime m \<Longrightarrow> \<forall>c. P (c, m)"
  shows "\<forall>e\<in>set (snd best'). P e"
  using assms(1)
proof (cases rule: crash_candidate_of_cases)
  case skip
  with assms(2) show ?thesis by simp
next
  case (earlier crashEvent headV)
  then have "crash_before_collapse eps g bestCollapseTime m"
    by (simp add: crash_before_collapse_def)
  with assms(3) earlier(5) show ?thesis by simp
next
  case (tied crashEvent headV)
  then have "crash_before_collapse eps g bestCollapseTime m"
    by (simp add: crash_before_collapse_def)
  with assms(2,3) tied(6) show ?thesis by simp
qed



lemma find_best_crash_candidates:
  assumes "find_best_crash eps g lastEventTime bestCollapseTime = Inr (t, crashes)"
  shows "\<forall>e\<in>set crashes. snd e < length (motorcycleSegments g) \<and>
           crash_before_collapse eps g bestCollapseTime (snd e)"
proof -
  let ?P = "\<lambda>e :: CrashEvent \<times> nat. snd e < length (motorcycleSegments g) \<and>
           crash_before_collapse eps g bestCollapseTime (snd e)"
  have "\<forall>e\<in>set (snd (t, crashes)). ?P e"
    using assms [unfolded find_best_crash_def]
  proof (rule for_each_invariant)
    show "\<forall>e\<in>set (snd (NumMax, [] :: (CrashEvent \<times> nat) list)). ?P e" by simp
  next
    fix x s s'
    assume x: "x \<in> set [0..<length (motorcycleSegments g)]" and p: "\<forall>e\<in>set (snd s). ?P e"
      and c: "crash_candidate_of eps g lastEventTime bestCollapseTime x s = Inr s'"
    from c p show "\<forall>e\<in>set (snd s'). ?P e"
      by (rule crash_candidate_of_member) (use x in simp)
  qed
  then show ?thesis by simp
qed









section \<open>Frozen vertices\<close>

lemma FreezeInPlace_frozen:
  assumes "FreezeInPlace v atTime = Inr v'"
  shows "velocity v' = Zero2 \<and> skeletonVertexId v' = NoIndex \<and> initialTime v' = atTime \<and>
         FreezeInPlace v' atTime = Inr v'"
  using assms
  by (auto simp: FreezeInPlace_def ebind_eq_Inr assert_that_eq_Inr PositionAtTime_def vec_defs)

lemma only_frozen_refl: "only_frozen eps t vs vs"
  by (simp add: only_frozen_def)

lemma only_frozen_append:
  assumes "only_frozen eps t vs0 vs"
  shows "only_frozen eps t vs0 (vs @ ws)"
  using assms by (auto simp: only_frozen_def nth_append)

lemma only_frozen_freeze:
  assumes "only_frozen eps t vs0 vs" "i < length vs0"
    "\<not> Equivalent2 (velocity (vs0 ! i)) Zero2 eps" "FreezeInPlace (vs ! i) t = Inr f"
  shows "only_frozen eps t vs0 (vs[i := f])"
  unfolding only_frozen_def
proof (intro conjI impI allI)
  from assms(1) show "length vs0 \<le> length (vs[i := f])" by (simp add: only_frozen_def)
next
  fix j assume b: "length (vs[i := f]) < 2 ^ 32" and j: "j < length vs0"
  from assms(1) b j have o: "vs ! j = vs0 ! j \<or>
      (\<not> Equivalent2 (velocity (vs0 ! j)) Zero2 eps \<and> FreezeInPlace (vs0 ! j) t = Inr (vs ! j))"
    and l: "length vs0 \<le> length vs"
    by (simp_all add: only_frozen_def)
  show "vs[i := f] ! j = vs0 ! j \<or>
      (\<not> Equivalent2 (velocity (vs0 ! j)) Zero2 eps \<and> FreezeInPlace (vs0 ! j) t = Inr (vs[i := f] ! j))"
  proof (cases "j = i")
    case False
    with o show ?thesis by simp
  next
    case True
    from o show ?thesis
    proof
      assume "vs ! j = vs0 ! j"
      with True assms(2,3,4) l show ?thesis by simp
    next
      assume a: "\<not> Equivalent2 (velocity (vs0 ! j)) Zero2 eps \<and> FreezeInPlace (vs0 ! j) t = Inr (vs ! j)"
      then have "FreezeInPlace (vs ! j) t = Inr (vs ! j)" using FreezeInPlace_frozen by blast
      with assms(4) True have "f = vs ! j" by simp
      with a True assms(2) l show ?thesis by simp
    qed
  qed
qed

lemma freeze_vertex_parts:
  assumes "freeze_vertex g v t = Inr g'"
  obtains f where "unat v < length (vertices g)" "FreezeInPlace (vertices g ! unat v) t = Inr f"
    "g' = g\<lparr>vertices := (vertices g)[unat v := f]\<rparr>"
  using assms
  by (auto simp: freeze_vertex_def ebind_eq_Inr nth_checked_eq_Inr)

lemma connect_and_freeze_only_frozen:
  assumes "connect_and_freeze eps t collisionVertId seg st = Inr st'"
    "only_frozen eps t vs0 (vertices (fst st))" "moving_ends eps vs0 seg"
  shows "only_frozen eps t vs0 (vertices (fst st')) \<and> wavefrontEdges (fst st') = wavefrontEdges (fst st)"
proof -
  from assms(1) obtain g1 g2 r where
    f1: "freeze_vertex (fst st) (tail seg) t = Inr g1" and
    f2: "freeze_vertex g1 (head seg) t = Inr g2" and
    s: "st' = (g2, r)"
    unfolding connect_and_freeze_def ebind_eq_Inr by blast
  from f1 obtain fa where a: "FreezeInPlace (vertices (fst st) ! unat (tail seg)) t = Inr fa"
    "g1 = (fst st)\<lparr>vertices := (vertices (fst st))[unat (tail seg) := fa]\<rparr>"
    by (rule freeze_vertex_parts)
  from f2 obtain fb where b: "FreezeInPlace (vertices g1 ! unat (head seg)) t = Inr fb"
    "g2 = g1\<lparr>vertices := (vertices g1)[unat (head seg) := fb]\<rparr>"
    by (rule freeze_vertex_parts)
  from assms(3) have m: "unat (tail seg) < length vs0" "unat (head seg) < length vs0"
    "\<not> Equivalent2 (velocity (vs0 ! unat (tail seg))) Zero2 eps"
    "\<not> Equivalent2 (velocity (vs0 ! unat (head seg))) Zero2 eps"
    by (simp_all add: moving_ends_def)
  from only_frozen_freeze [OF assms(2) m(1,3) a(1)] a(2)
  have "only_frozen eps t vs0 (vertices g1)" by simp
  from only_frozen_freeze [OF this m(2,4) b(1)] b(2)
  have "only_frozen eps t vs0 (vertices g2)" by simp
  with a(2) b(2) s show ?thesis by simp
qed

lemma collapse_group_parts:
  assumes "collapse_group eps bestCollapse t collapseGroups collapseGroup st = Inr st'"
  shows "\<exists>added st1.
           for_each (map (\<lambda>c. wavefrontEdges (fst st) ! snd (bestCollapse ! c))
                      (filter (\<lambda>c. collapseGroups ! c = of_nat collapseGroup) [0..<length bestCollapse]))
             (connect_and_freeze eps t (fst added)) (fst st, snd added) = Inr st1 \<and>
           (\<exists>v. vertices (fst st') = vertices (fst st1) @ [v]) \<and>
           wavefrontEdges (fst st') = wavefrontEdges (fst st1) \<and>
           snd (snd st') = (snd (snd st))[collapseGroup :=
              (snd (snd st) ! collapseGroup)\<lparr>g_newVertex := of_nat (length (vertices (fst st1)))\<rparr>]"
  using assms unfolding collapse_group_def Let_def
  by (elim ebind_Inr_E) fastforce

lemma connect_and_freeze_length:
  assumes "connect_and_freeze eps t collisionVertId seg st = Inr st'"
  shows "length (vertices (fst st')) = length (vertices (fst st))"
proof -
  from assms obtain g1 g2 r where
    f1: "freeze_vertex (fst st) (tail seg) t = Inr g1" and
    f2: "freeze_vertex g1 (head seg) t = Inr g2" and
    s: "st' = (g2, r)"
    unfolding connect_and_freeze_def ebind_eq_Inr by blast
  from f1 have "length (vertices g1) = length (vertices (fst st))"
    by (rule freeze_vertex_parts) simp
  moreover from f2 have "length (vertices g2) = length (vertices g1)"
    by (rule freeze_vertex_parts) simp
  ultimately show ?thesis using s by simp
qed

lemma collapse_group_only_frozen:
  assumes "collapse_group eps bestCollapse t collapseGroups collapseGroup st = Inr st'"
    "only_frozen eps t vs0 (vertices (fst st))"
    "\<forall>e\<in>set bestCollapse. moving_ends eps vs0 (wavefrontEdges (fst st) ! snd e)"
    "length (vertices (fst st)) < 2 ^ 32 \<longrightarrow>
       (\<forall>grp\<in>set (snd (snd st)). length vs0 \<le> unat (g_newVertex grp))"
  shows "only_frozen eps t vs0 (vertices (fst st')) \<and>
         wavefrontEdges (fst st') = wavefrontEdges (fst st) \<and>
         (length (vertices (fst st')) < 2 ^ 32 \<longrightarrow>
            (\<forall>grp\<in>set (snd (snd st')). length vs0 \<le> unat (g_newVertex grp)))"
proof -
  let ?segs = "map (\<lambda>c. wavefrontEdges (fst st) ! snd (bestCollapse ! c))
                 (filter (\<lambda>c. collapseGroups ! c = of_nat collapseGroup) [0..<length bestCollapse])"
  from collapse_group_parts [OF assms(1)] obtain added st1 v where
    l: "for_each ?segs (connect_and_freeze eps t (fst added)) (fst st, snd added) = Inr st1"
    and rv: "vertices (fst st') = vertices (fst st1) @ [v]"
    and rw: "wavefrontEdges (fst st') = wavefrontEdges (fst st1)"
    and ri: "snd (snd st') = (snd (snd st))[collapseGroup :=
              (snd (snd st) ! collapseGroup)\<lparr>g_newVertex := of_nat (length (vertices (fst st1)))\<rparr>]"
    by blast
  have "only_frozen eps t vs0 (vertices (fst st1)) \<and> wavefrontEdges (fst st1) = wavefrontEdges (fst st)"
    using l
  proof (rule for_each_invariant)
    from assms(2)
    show "only_frozen eps t vs0 (vertices (fst (fst st, snd added))) \<and>
          wavefrontEdges (fst (fst st, snd added)) = wavefrontEdges (fst st)"
      by simp
  next
    fix x s s'
    assume x: "x \<in> set ?segs"
      and p: "only_frozen eps t vs0 (vertices (fst s)) \<and> wavefrontEdges (fst s) = wavefrontEdges (fst st)"
      and c: "connect_and_freeze eps t (fst added) x s = Inr s'"
    from x obtain c where "c < length bestCollapse" "x = wavefrontEdges (fst st) ! snd (bestCollapse ! c)"
      by auto
    with assms(3) have m: "moving_ends eps vs0 x" by simp
    from p have o: "only_frozen eps t vs0 (vertices (fst s))" by simp
    from connect_and_freeze_only_frozen [OF c o m] p
    show "only_frozen eps t vs0 (vertices (fst s')) \<and> wavefrontEdges (fst s') = wavefrontEdges (fst st)"
      by simp
  qed
  then have o: "only_frozen eps t vs0 (vertices (fst st1))"
    and w: "wavefrontEdges (fst st1) = wavefrontEdges (fst st)" by simp_all
  from o have o': "only_frozen eps t vs0 (vertices (fst st'))"
    unfolding rv by (rule only_frozen_append)
  have len: "length (vertices (fst st1)) = length (vertices (fst st))"
    using l
  proof (rule for_each_invariant [where P = "\<lambda>s. length (vertices (fst s)) = length (vertices (fst st))"])
    show "length (vertices (fst (fst st, snd added))) = length (vertices (fst st))" by simp
  next
    fix x s s'
    assume "length (vertices (fst s)) = length (vertices (fst st))"
      and "connect_and_freeze eps t (fst added) x s = Inr s'"
    then show "length (vertices (fst s')) = length (vertices (fst st))"
      using connect_and_freeze_length by simp
  qed
  have n: "\<forall>grp\<in>set (snd (snd st')). length vs0 \<le> unat (g_newVertex grp)"
    if b: "length (vertices (fst st')) < 2 ^ 32"
  proof
    fix grp assume g: "grp \<in> set (snd (snd st'))"
    from b rv have b1: "length (vertices (fst st1)) < 2 ^ 32" by simp
    then have u: "unat (of_nat (length (vertices (fst st1))) :: u32) = length (vertices (fst st1))"
      by (simp add: unsigned_of_nat take_bit_nat_eq_self)
    from o have l0: "length vs0 \<le> length (vertices (fst st1))" by (simp add: only_frozen_def)
    from b1 len assms(4) have old: "\<forall>grp\<in>set (snd (snd st)). length vs0 \<le> unat (g_newVertex grp)"
      by simp
    have "set ((snd (snd st))[collapseGroup :=
              (snd (snd st) ! collapseGroup)\<lparr>g_newVertex := of_nat (length (vertices (fst st1)))\<rparr>])
          \<subseteq> insert ((snd (snd st) ! collapseGroup)\<lparr>g_newVertex := of_nat (length (vertices (fst st1)))\<rparr>)
                 (set (snd (snd st)))"
      by (rule set_update_subset_insert)
    with g have "grp \<in> insert ((snd (snd st) ! collapseGroup)\<lparr>g_newVertex := of_nat (length (vertices (fst st1)))\<rparr>)
                 (set (snd (snd st)))"
      unfolding ri by (rule rev_subsetD)
    then show "length vs0 \<le> unat (g_newVertex grp)"
    proof
      assume "grp = (snd (snd st) ! collapseGroup)\<lparr>g_newVertex := of_nat (length (vertices (fst st1)))\<rparr>"
      with u l0 show ?thesis by simp
    next
      assume "grp \<in> set (snd (snd st))"
      with old show ?thesis by simp
    qed
  qed
  from o' w rw n show ?thesis by simp
qed

lemma relink_group_only_frozen:
  assumes "relink_group eps grp g = Inr g'"
    "only_frozen eps t vs0 (vertices g)"
    "length (vertices g) < 2 ^ 32 \<longrightarrow> length vs0 \<le> unat (g_newVertex grp)"
  shows "only_frozen eps t vs0 (vertices g') \<and> length (vertices g') = length (vertices g)"
proof (cases "g_head grp = g_tail grp")
  case True
  with assms(1,2) show ?thesis by (simp add: relink_group_def)
next
  case False
  with assms(1) obtain edges v where
    g': "g' = g\<lparr>wavefrontEdges := edges, vertices := (vertices g)[unat (g_newVertex grp) := v]\<rparr>"
    unfolding relink_group_def Let_def by (simp only: if_False) (elim ebind_Inr_E, blast)
  from assms(2,3) show ?thesis unfolding g' only_frozen_def by auto
qed

lemma find_collapse_groups_newVertex:
  assumes "find_collapse_groups edges bestCollapse = Inr grouping"
  shows "\<forall>grp\<in>set (fst (snd grouping)). g_newVertex grp = NoIndex"
  using assms [unfolded find_collapse_groups_def]
proof (rule for_each_invariant)
  show "\<forall>grp\<in>set (fst (snd (replicate (length bestCollapse) NoIndex, [] :: CollapseGroupInfo list, 0 :: u32))).
          g_newVertex grp = NoIndex"
    by simp
next
  fix x and s s' :: grouping
  assume "\<forall>grp\<in>set (fst (snd s)). g_newVertex grp = NoIndex"
    and "assign_group edges bestCollapse x s = Inr s'"
  then show "\<forall>grp\<in>set (fst (snd s')). g_newVertex grp = NoIndex"
    by (auto simp: assign_group_def Let_def ebind_eq_Inr split: if_splits)
qed

lemma process_collapse_only_frozen:
  assumes "process_collapse eps bestCollapse t st = Inr st'"
    "\<forall>e\<in>set bestCollapse. moving_ends eps (vertices (fst st)) (wavefrontEdges (fst st) ! snd e)"
  shows "only_frozen eps t (vertices (fst st)) (vertices (fst st'))"
proof -
  let ?vs0 = "vertices (fst st)"
  from assms(1) have "\<not> (\<exists>e\<in>set bestCollapse. \<not> snd e < length (wavefrontEdges (fst st)))"
    unfolding process_collapse_def Let_def by (auto split: if_splits)
  with assms(1) have "ebind (find_collapse_groups (wavefrontEdges (fst st)) bestCollapse) (\<lambda>grouping.
           ebind (for_each [0..<unat (snd (snd grouping))]
                    (collapse_group eps bestCollapse t (fst grouping))
                    (fst st, snd st, fst (snd grouping))) (\<lambda>st'.
           ebind (remove_collapsed (wavefrontEdges (fst st')) bestCollapse) (\<lambda>edges.
           ebind (for_each (snd (snd st')) (relink_group eps) ((fst st')\<lparr>wavefrontEdges := edges\<rparr>)) (\<lambda>g'.
           Inr (g', fst (snd st')))))) = Inr st'"
    by (simp add: process_collapse_def Let_def)
  then obtain grouping :: grouping and st1 edges g2 where
    f: "find_collapse_groups (wavefrontEdges (fst st)) bestCollapse = Inr grouping"
    and l: "for_each [0..<unat (snd (snd grouping))] (collapse_group eps bestCollapse t (fst grouping))
              (fst st, snd st, fst (snd grouping)) = Inr st1"
    and k: "for_each (snd (snd st1)) (relink_group eps) ((fst st1)\<lparr>wavefrontEdges := edges\<rparr>) = Inr g2"
    and r: "st' = (g2, fst (snd st1))"
    unfolding ebind_eq_Inr by blast
  let ?J = "\<lambda>s :: Graph \<times> StraightSkeleton \<times> CollapseGroupInfo list.
      only_frozen eps t ?vs0 (vertices (fst s)) \<and> wavefrontEdges (fst s) = wavefrontEdges (fst st) \<and>
      (length (vertices (fst s)) < 2 ^ 32 \<longrightarrow>
         (\<forall>grp\<in>set (snd (snd s)). length ?vs0 \<le> unat (g_newVertex grp)))"
  have "?J st1" using l
  proof (rule for_each_invariant)
    have "unat NoIndex = 2 ^ 32 - 1"
      by (simp add: NoIndex_def unsigned_minus_1_eq_mask mask_eq_exp_minus_1)
    with find_collapse_groups_newVertex [OF f]
    show "?J (fst st, snd st, fst (snd grouping))"
      by (auto simp: only_frozen_refl)
  next
    fix x s s'
    assume j: "?J s" and c: "collapse_group eps bestCollapse t (fst grouping) x s = Inr s'"
    from j assms(2) have m: "\<forall>e\<in>set bestCollapse. moving_ends eps ?vs0 (wavefrontEdges (fst s) ! snd e)"
      by simp
    from j have o: "only_frozen eps t ?vs0 (vertices (fst s))"
      and n: "length (vertices (fst s)) < 2 ^ 32 \<longrightarrow>
         (\<forall>grp\<in>set (snd (snd s)). length ?vs0 \<le> unat (g_newVertex grp))"
      and w: "wavefrontEdges (fst s) = wavefrontEdges (fst st)"
      by simp_all
    from collapse_group_only_frozen [OF c o m n] w show "?J s'" by simp
  qed
  then have o1: "only_frozen eps t ?vs0 (vertices (fst st1))"
    and n1: "length (vertices (fst st1)) < 2 ^ 32 \<longrightarrow>
         (\<forall>grp\<in>set (snd (snd st1)). length ?vs0 \<le> unat (g_newVertex grp))"
    by simp_all
  have "only_frozen eps t ?vs0 (vertices g2) \<and> length (vertices g2) = length (vertices (fst st1))"
    using k
  proof (rule for_each_invariant)
    from o1 show "only_frozen eps t ?vs0 (vertices ((fst st1)\<lparr>wavefrontEdges := edges\<rparr>)) \<and>
        length (vertices ((fst st1)\<lparr>wavefrontEdges := edges\<rparr>)) = length (vertices (fst st1))"
      by simp
  next
    fix x s s'
    assume x: "x \<in> set (snd (snd st1))"
      and p: "only_frozen eps t ?vs0 (vertices s) \<and> length (vertices s) = length (vertices (fst st1))"
      and c: "relink_group eps x s = Inr s'"
    from x p n1 have b: "length (vertices s) < 2 ^ 32 \<longrightarrow> length ?vs0 \<le> unat (g_newVertex x)"
      by simp
    from p have o: "only_frozen eps t ?vs0 (vertices s)" by simp
    from relink_group_only_frozen [OF c o b] p
    show "only_frozen eps t ?vs0 (vertices s') \<and> length (vertices s') = length (vertices (fst st1))"
      by simp
  qed
  with r show ?thesis by simp
qed

lemma collapse_candidate_moving:
  assumes "collapse_candidate eps g lastEventTime e best = Inr best'"
    "\<forall>c\<in>set (snd best). moving_ends eps (vertices g) (wavefrontEdges g ! snd c)"
  shows "\<forall>c\<in>set (snd best'). moving_ends eps (vertices g) (wavefrontEdges g ! snd c)"
proof -
  have m: "moving_ends eps (vertices g) (wavefrontEdges g ! e)"
    if "nth_checked (vertices g) (unat (head (wavefrontEdges g ! e))) ''_vertices'' = Inr v0"
      "nth_checked (vertices g) (unat (tail (wavefrontEdges g ! e))) ''_vertices'' = Inr v1"
      "CalculateCollapseTime eps v0 v1 \<noteq> NumMax" for v0 v1
    using that
    by (auto simp: moving_ends_def nth_checked_eq_Inr CalculateCollapseTime_def split: if_splits)
  from assms(1) show ?thesis
  proof (cases rule: collapse_candidate_cases)
    case skip
    with assms(2) show ?thesis by simp
  next
    case (earlier collapseTime v0 v1)
    from earlier(3) have "collapseTime \<noteq> NumMax" by auto
    with earlier(5,6,7) m have "moving_ends eps (vertices g) (wavefrontEdges g ! e)" by simp
    with earlier(4) show ?thesis by simp
  next
    case (tied collapseTime v0 v1)
    from tied(4) have "collapseTime \<noteq> NumMax" by auto
    with tied(6,7,8) m have "moving_ends eps (vertices g) (wavefrontEdges g ! e)" by simp
    with tied(5) assms(2) show ?thesis by simp
  qed
qed

lemma find_best_collapse_moving:
  assumes "find_best_collapse eps g lastEventTime = Inr (bestCollapseTime, bestCollapse)"
  shows "\<forall>c\<in>set bestCollapse. moving_ends eps (vertices g) (wavefrontEdges g ! snd c)"
proof -
  from assms obtain best where
    l: "for_each [0..<length (wavefrontEdges g)] (collapse_candidate eps g lastEventTime) (NumMax, []) = Inr best"
    and b: "bestCollapse = filter (\<lambda>e. scalar_less (fst e) (scalar_add (fst best) eps)) (snd best)"
    unfolding find_best_collapse_def by (elim ebind_Inr_E) auto
  have "\<forall>c\<in>set (snd best). moving_ends eps (vertices g) (wavefrontEdges g ! snd c)"
    using l
  proof (rule for_each_invariant)
    show "\<forall>c\<in>set (snd (NumMax, [] :: (scalar \<times> nat) list)).
            moving_ends eps (vertices g) (wavefrontEdges g ! snd c)"
      by simp
  next
    fix x s s'
    assume "\<forall>c\<in>set (snd s). moving_ends eps (vertices g) (wavefrontEdges g ! snd c)"
      and "collapse_candidate eps g lastEventTime x s = Inr s'"
    then show "\<forall>c\<in>set (snd s'). moving_ends eps (vertices g) (wavefrontEdges g ! snd c)"
      using collapse_candidate_moving by blast
  qed
  with b show ?thesis by simp
qed

lemma crash_tout_vertices:
  assumes "crash_tout eps motor crashSegment crashPt crashPtSkeleton calcTime st = Inr st'"
  shows "\<exists>ws. vertices (fst st') = vertices (fst st) @ ws"
  using assms unfolding crash_tout_def Let_def
  by (elim ebind_Inr_E) (auto simp: ebind_eq_Inr split: if_splits)

lemma crash_tin_vertices:
  assumes "crash_tin eps motor crashSegment crashPt crashPtSkeleton calcTime st = Inr st'"
  shows "\<exists>ws. vertices (fst st') = vertices (fst st) @ ws"
  using assms unfolding crash_tin_def Let_def
  by (elim ebind_Inr_E) (auto simp: ebind_eq_Inr split: if_splits)

lemma process_crash_parts:
  assumes "process_crash eps crashEvent m t st = Inr st'"
  shows "\<exists>added crashSegment crashPt st1 st2 frozen.
           unat (m_head (motorcycleSegments (fst st) ! m)) < length (vertices (fst st)) \<and>
           crash_tout eps (motorcycleSegments (fst st) ! m) crashSegment crashPt (fst added) t
             (fst st, snd added) = Inr st1 \<and>
           crash_tin eps (motorcycleSegments (fst st) ! m) crashSegment crashPt (fst added) t st1 = Inr st2 \<and>
           FreezeInPlace (vertices (fst st2) ! unat (m_head (motorcycleSegments (fst st) ! m))) t = Inr frozen \<and>
           vertices (fst st') =
             (vertices (fst st2))[unat (m_head (motorcycleSegments (fst st) ! m)) := frozen]"
  using assms unfolding process_crash_def Let_def
  by (elim ebind_Inr_E) (fastforce simp: nth_checked_eq_Inr)

lemma process_crash_only_frozen:
  assumes "process_crash eps crashEvent m t st = Inr st'"
    "\<not> Equivalent2 (velocity (vertices (fst st) ! unat (m_head (motorcycleSegments (fst st) ! m)))) Zero2 eps"
  shows "only_frozen eps t (vertices (fst st)) (vertices (fst st'))"
proof -
  let ?i = "unat (m_head (motorcycleSegments (fst st) ! m))"
  from process_crash_parts [OF assms(1)] obtain added crashSegment crashPt st1 st2 frozen where
    i: "?i < length (vertices (fst st))"
    and o: "crash_tout eps (motorcycleSegments (fst st) ! m) crashSegment crashPt (fst added) t
             (fst st, snd added) = Inr st1"
    and n: "crash_tin eps (motorcycleSegments (fst st) ! m) crashSegment crashPt (fst added) t st1 = Inr st2"
    and f: "FreezeInPlace (vertices (fst st2) ! ?i) t = Inr frozen"
    and v: "vertices (fst st') = (vertices (fst st2))[?i := frozen]"
    by blast
  from crash_tout_vertices [OF o] obtain ws1 where "vertices (fst st1) = vertices (fst st) @ ws1"
    by auto
  moreover from crash_tin_vertices [OF n] obtain ws2 where "vertices (fst st2) = vertices (fst st1) @ ws2"
    by auto
  ultimately have "vertices (fst st2) = vertices (fst st) @ (ws1 @ ws2)" by simp
  then have "only_frozen eps t (vertices (fst st)) (vertices (fst st2))"
    by (simp only: only_frozen_append [OF only_frozen_refl])
  from only_frozen_freeze [OF this i assms(2) f] v show ?thesis by simp
qed

lemma event_step_only_frozen:
  assumes "event_step eps maxTime (g, result, lastEventTime) = Inr (Continue (g', result', t))"
  shows "only_frozen eps t (vertices g) (vertices g')"
  using assms
proof (cases rule: event_step_Continue)
  case (crash bestCollapseTime bestCollapse bestMotorcycleCrashTime bestMotorcycleCrash crashEvent m u r)
  have "(crashEvent, m) \<in> set (filter (\<lambda>e. scalar_less (c_time (fst e)) (scalar_add bestMotorcycleCrashTime eps))
                                 bestMotorcycleCrash)"
    unfolding crash(5) by simp
  then have "(crashEvent, m) \<in> set bestMotorcycleCrash" by simp
  with find_best_crash_candidates [OF crash(2)]
  have "crash_before_collapse eps g bestCollapseTime m" by auto
  then have "\<not> Equivalent2 (velocity (vertices g ! unat (m_head (motorcycleSegments g ! m)))) Zero2 eps"
    by (auto simp: crash_before_collapse_def nth_checked_def split: if_splits sum.splits)
  with process_crash_only_frozen [OF crash(7)] crash(8) show ?thesis by simp
next
  case (collapse bestCollapse bestMotorcycleCrashTime u r)
  from find_best_collapse_moving [OF collapse(1)]
  have "\<forall>e\<in>set bestCollapse. moving_ends eps (vertices g) (wavefrontEdges g ! snd e)" by simp
  with process_collapse_only_frozen [OF collapse(5)] collapse(6) show ?thesis by simp
qed

lemma event_loop_only_frozen:
  assumes "event_loop eps maxTime (g, result, lastEventTime) = Some (Inr (g', result', t))"
    "0 < eps" "length (vertices g') < 2 ^ 32" "i < length (vertices g)"
    "velocity (vertices g ! i) = Zero2"
  shows "i < length (vertices g') \<and> vertices g' ! i = vertices g ! i"
proof -
  let ?P = "\<lambda>s :: Graph \<times> StraightSkeleton \<times> real.
      length (vertices g) \<le> length (vertices (fst s)) \<and>
      (length (vertices (fst s)) < 2 ^ 32 \<longrightarrow> vertices (fst s) ! i = vertices g ! i)"
  have "?P (g', result', t) \<and> event_step eps maxTime (g', result', t) = Inr Break"
    using assms(1)
  proof (rule event_loop_invariant)
    show "?P (g, result, lastEventTime)" by simp
  next
    fix s s' :: "Graph \<times> StraightSkeleton \<times> real"
    assume p: "?P s" and c: "event_step eps maxTime s = Inr (Continue s')"
    from c have "event_step eps maxTime (fst s, fst (snd s), snd (snd s)) =
        Inr (Continue (fst s', fst (snd s'), snd (snd s')))"
      by simp
    then have o: "only_frozen eps (snd (snd s')) (vertices (fst s)) (vertices (fst s'))"
      by (rule event_step_only_frozen)
    then have l: "length (vertices (fst s)) \<le> length (vertices (fst s'))"
      by (simp add: only_frozen_def)
    have "vertices (fst s') ! i = vertices g ! i" if b: "length (vertices (fst s')) < 2 ^ 32"
    proof -
      from b l p have e: "vertices (fst s) ! i = vertices g ! i" by simp
      from p assms(4) have "i < length (vertices (fst s))" by simp
      with o b have "vertices (fst s') ! i = vertices (fst s) ! i \<or>
          \<not> Equivalent2 (velocity (vertices (fst s) ! i)) Zero2 eps"
        by (auto simp: only_frozen_def)
      moreover from e assms(2,5) have "Equivalent2 (velocity (vertices (fst s) ! i)) Zero2 eps"
        by (simp add: vec_defs)
      ultimately show ?thesis using e by simp
    qed
    with l p show "?P s'" by simp
  qed
  with assms(3,4) show ?thesis by simp
qed

lemma unit_square_frozen_step:
  assumes "0 < eps" "eps < 1"
  shows "event_step eps NumMax
           (unit_square_frozen,
            \<lparr>steinerVertices = [], faces = [[], [], [], []], unplacedEdges = []\<rparr>, 0)
         = Inr (Continue (unit_square_frozen_collapsed, unit_square_skeleton, 1 / 2))"
  using assms
  by (simp add: model_defs vec_defs unit_square_def unit_square_graph_def unit_square_collapsed_def
        unit_square_skeleton_def unit_square_frozen_def unit_square_frozen_collapsed_def
        frozen_vertex_def upt_rec Let_def)

lemma unit_square_frozen_loop:
  assumes "0 < eps" "eps < 1"
  shows "event_loop eps NumMax
           (unit_square_frozen,
            \<lparr>steinerVertices = [], faces = [[], [], [], []], unplacedEdges = []\<rparr>, 0)
         = Some (Inr (unit_square_frozen_collapsed, unit_square_skeleton, 1 / 2))"
proof -
  have "event_step eps NumMax (unit_square_frozen_collapsed, unit_square_skeleton, 1 / 2) = Inr Break"
    by (simp add: event_step_def find_best_collapse_def find_best_crash_def
          unit_square_frozen_collapsed_def unit_square_collapsed_def)
  then show ?thesis
    by (subst event_loop.simps, simp add: unit_square_frozen_step [OF assms],
        subst event_loop.simps, simp)
qed

text \<open>
  C7: a vertex that \<^verbatim>\<open>FreezeInPlace\<close> has frozen has the velocity zero and the
  skeleton-vertex id \<^verbatim>\<open>~0u\<close>, and freezing it again at the same time does not change it.
  An iteration of the event loop that processes an event leaves every vertex of the graph
  as it is, or as \<^verbatim>\<open>FreezeInPlace\<close> at the time of the event makes it if it was moving
  (and adds the new vertices at the end). So a vertex with the velocity zero has the same
  position, velocity, initial time and skeleton-vertex id when the event loop ends. The
  graph is taken to have fewer than \<open>2\<^sup>3\<^sup>2\<close> vertices.
\<close>

theorem frozen_vertices_not_mutated:
  assumes "0 < eps"
  shows "(FreezeInPlace v atTime = Inr v' \<longrightarrow>
            velocity v' = Zero2 \<and> skeletonVertexId v' = NoIndex \<and> FreezeInPlace v' atTime = Inr v') \<and>
         (event_step eps maxTime (g, result, lastEventTime) = Inr (Continue (g', result', t)) \<longrightarrow>
            only_frozen eps t (vertices g) (vertices g')) \<and>
         (event_loop eps maxTime (g, result, lastEventTime) = Some (Inr (g'', result'', t'')) \<longrightarrow>
          length (vertices g'') < 2 ^ 32 \<longrightarrow>
            (\<forall>i<length (vertices g). velocity (vertices g ! i) = Zero2 \<longrightarrow>
               i < length (vertices g'') \<and> vertices g'' ! i = vertices g ! i))"
proof (intro conjI impI allI)
  assume "FreezeInPlace v atTime = Inr v'"
  from FreezeInPlace_frozen [OF this]
  show "velocity v' = Zero2" "skeletonVertexId v' = NoIndex" "FreezeInPlace v' atTime = Inr v'"
    by simp_all
next
  assume "event_step eps maxTime (g, result, lastEventTime) = Inr (Continue (g', result', t))"
  then show "only_frozen eps t (vertices g) (vertices g')" by (rule event_step_only_frozen)
next
  fix i
  assume l: "event_loop eps maxTime (g, result, lastEventTime) = Some (Inr (g'', result'', t''))"
    and b: "length (vertices g'') < 2 ^ 32" and i: "i < length (vertices g)"
    and z: "velocity (vertices g ! i) = Zero2"
  from event_loop_only_frozen [OF l assms b i z]
  show "i < length (vertices g'')" "vertices g'' ! i = vertices g ! i" by simp_all
qed

theorem frozen_vertices_not_mutated_witness:
  "FreezeInPlace \<lparr>position = (0, 0), skeletonVertexId = BoundaryVertexFlag, initialTime = 0, velocity = (1, 1)\<rparr> (1 / 2)
     = Inr \<lparr>position = (1 / 2, 1 / 2), skeletonVertexId = NoIndex, initialTime = 1 / 2, velocity = (0, 0)\<rparr> \<and>
   event_loop (1 / 10000) NumMax
     (unit_square_frozen, \<lparr>steinerVertices = [], faces = [[], [], [], []], unplacedEdges = []\<rparr>, 0)
     = Some (Inr (unit_square_frozen_collapsed, unit_square_skeleton, 1 / 2)) \<and>
   only_frozen (1 / 10000) (1 / 2) (vertices unit_square_frozen) (vertices unit_square_frozen_collapsed) \<and>
   vertices unit_square_frozen ! 4 = frozen_vertex \<and>
   vertices unit_square_frozen_collapsed ! 4 = frozen_vertex"
proof -
  have f: "FreezeInPlace \<lparr>position = (0, 0), skeletonVertexId = BoundaryVertexFlag, initialTime = 0, velocity = (1, 1)\<rparr> (1 / 2)
     = Inr \<lparr>position = (1 / 2, 1 / 2), skeletonVertexId = NoIndex, initialTime = 1 / 2, velocity = (0, 0)\<rparr>"
    by (simp add: FreezeInPlace_def PositionAtTime_def vec_defs)
  have s: "event_step (1 / 10000) NumMax
           (unit_square_frozen, \<lparr>steinerVertices = [], faces = [[], [], [], []], unplacedEdges = []\<rparr>, 0)
         = Inr (Continue (unit_square_frozen_collapsed, unit_square_skeleton, 1 / 2))"
    by (rule unit_square_frozen_step) simp_all
  have l: "event_loop (1 / 10000) NumMax
           (unit_square_frozen, \<lparr>steinerVertices = [], faces = [[], [], [], []], unplacedEdges = []\<rparr>, 0)
         = Some (Inr (unit_square_frozen_collapsed, unit_square_skeleton, 1 / 2))"
    by (rule unit_square_frozen_loop) simp_all
  have n: "length (vertices unit_square_frozen_collapsed) < 2 ^ 32" "4 < length (vertices unit_square_frozen)"
    "vertices unit_square_frozen ! 4 = frozen_vertex" "velocity frozen_vertex = Zero2"
    by (simp_all add: unit_square_frozen_collapsed_def unit_square_collapsed_def unit_square_frozen_def
          unit_square_graph_def frozen_vertex_def Zero2_def)
  from frozen_vertices_not_mutated [where eps = "1 / 10000" and maxTime = NumMax
      and g = unit_square_frozen
      and result = "\<lparr>steinerVertices = [], faces = [[], [], [], []], unplacedEdges = []\<rparr>"
      and lastEventTime = 0 and g' = unit_square_frozen_collapsed and result' = unit_square_skeleton
      and t = "1 / 2" and g'' = unit_square_frozen_collapsed and result'' = unit_square_skeleton
      and t'' = "1 / 2"] s l n
  have "only_frozen (1 / 10000) (1 / 2) (vertices unit_square_frozen) (vertices unit_square_frozen_collapsed)"
    and "vertices unit_square_frozen_collapsed ! 4 = vertices unit_square_frozen ! 4"
    by simp_all
  with f l n(3) show ?thesis by simp
qed

section \<open>An event time that goes backward\<close>

lemma build_heptagon:
  assumes "0 < eps" "eps \<le> 1 / 10000"
  shows "BuildGraphFromVertexLoop eps heptagon = Inr heptagon_graph"
  using assms
  by (simp add: model_defs vec_defs heptagon_def heptagon_graph_def upt_rec Let_def Normalize_def
        MagnitudeSquared_def Dot_def)

lemma heptagon_collapses:
  assumes "0 < eps" "eps \<le> 1 / 10000"
  shows "find_best_collapse eps heptagon_graph 0 = Inr (Num 12, [(Num 12, 2)])"
  using assms
  by (simp add: model_defs vec_defs heptagon_graph_def upt_rec Let_def)

lemma heptagon_crashes:
  assumes "0 < eps" "eps \<le> 1 / 10000"
  shows "find_best_crash eps heptagon_graph 0 (Num 12) = Inr (NumMax, [])"
proof -
  have sq: "sqrt (1024 / 9) = 32 / 3" "sqrt (16 / 9) = 4 / 3"
    by (rule real_sqrt_unique; simp add: power2_eq_square)+
  from assms show ?thesis
    by (simp add: model_defs vec_defs heptagon_graph_def upt_rec Let_def Dot_def sq)
qed

lemma heptagon_collapse:
  assumes "0 < eps" "eps \<le> 1 / 10000"
  shows "process_collapse eps [(Num 12, 2)] 12
           (heptagon_graph, \<lparr>steinerVertices = [], faces = [[], [], [], [], [], [], []], unplacedEdges = []\<rparr>)
         = Inr (heptagon_collapsed, heptagon_skeleton)"
  using assms
  by (simp add: model_defs vec_defs heptagon_graph_def heptagon_def heptagon_collapsed_def
        heptagon_skeleton_def upt_rec Let_def Dot_def Expand_def Normalize_def MagnitudeSquared_def)

lemma heptagon_step1:
  assumes "0 < eps" "eps \<le> 1 / 10000"
  shows "event_step eps NumMax
           (heptagon_graph, \<lparr>steinerVertices = [], faces = [[], [], [], [], [], [], []], unplacedEdges = []\<rparr>, 0)
         = Inr (Continue (heptagon_collapsed, heptagon_skeleton, 12))"
  by (simp add: event_step_def heptagon_collapses [OF assms] heptagon_crashes [OF assms]
        heptagon_collapse [OF assms] Let_def)

lemma heptagon_late:
  assumes "0 < eps" "eps \<le> 1 / 10000"
  shows "CalculateCollapseTime eps (vertices heptagon_collapsed ! 9) (vertices heptagon_collapsed ! 1) = Num 2"
  using assms
  by (simp add: CalculateCollapseTime_def CalculateCollapseTime_points_def tolerance_1e_3f_def
        heptagon_collapsed_def vec_defs Let_def)

lemma heptagon_step2:
  assumes "0 < eps" "eps \<le> 1 / 10000"
  shows "event_step eps NumMax (heptagon_collapsed, heptagon_skeleton, 12)
         = Inl (AssertFailed ''collapseTime >= lastEventTime'')"
  using assms
  by (simp add: event_step_def find_best_collapse_def collapse_candidate_def nth_checked_def
        CalculateCollapseTime_def CalculateCollapseTime_points_def tolerance_1e_3f_def
        heptagon_collapsed_def vec_defs upt_rec Let_def)

lemma heptagon_run:
  assumes "0 < eps" "eps \<le> 1 / 10000"
  shows "CalculateStraightSkeleton eps heptagon NumMax
         = Some (Inl (AssertFailed ''collapseTime >= lastEventTime''))"
proof -
  have "event_loop eps NumMax
          (heptagon_graph, \<lparr>steinerVertices = [], faces = [[], [], [], [], [], [], []], unplacedEdges = []\<rparr>, 0)
        = Some (Inl (AssertFailed ''collapseTime >= lastEventTime''))"
    by (subst event_loop.simps, simp add: heptagon_step1 [OF assms],
        subst event_loop.simps, simp add: heptagon_step2 [OF assms])
  moreover have "replicate (length (boundaryPoints heptagon_graph)) [] = [[], [], [], [], [], [], [] :: Edge list]"
    by (simp add: heptagon_graph_def heptagon_def numeral_eq_Suc)
  ultimately show ?thesis
    by (simp add: CalculateStraightSkeleton_def CalculateSkeleton_def build_heptagon [OF assms] Let_def)
qed

text \<open>
  C1: the assertion \<^verbatim>\<open>collapseTime >= lastEventTime\<close> fails on the heptagon, in the
  \<^verbatim>\<open>float\<close> and in the \<^verbatim>\<open>double\<close> build. The first event is the collapse of one edge at
  the time 12, which sets \<^verbatim>\<open>lastEventTime\<close> to 12. In the next iteration the edge from the
  new vertex 9 to the vertex 1 has the collapse time 2: its two ends move apart, and their
  trajectories met before the new vertex was there. The time 2 is not negative, so it is
  not passed over, and the run ends in the failed assertion.
\<close>

theorem heptagon_collapse_time_before_last_event:
  "BuildGraphFromVertexLoop GetEpsilon_float heptagon = Inr heptagon_graph \<and>
   event_step GetEpsilon_float NumMax
     (heptagon_graph, \<lparr>steinerVertices = [], faces = [[], [], [], [], [], [], []], unplacedEdges = []\<rparr>, 0)
     = Inr (Continue (heptagon_collapsed, heptagon_skeleton, 12)) \<and>
   wavefrontEdges heptagon_collapsed ! 1 = \<lparr>head = 9, tail = 1, leftFace = NoIndex, rightFace = 1\<rparr> \<and>
   CalculateCollapseTime GetEpsilon_float (vertices heptagon_collapsed ! 9) (vertices heptagon_collapsed ! 1)
     = Num 2 \<and>
   CalculateStraightSkeleton GetEpsilon_float heptagon NumMax
     = Some (Inl (AssertFailed ''collapseTime >= lastEventTime'')) \<and>
   CalculateStraightSkeleton GetEpsilon_double heptagon NumMax
     = Some (Inl (AssertFailed ''collapseTime >= lastEventTime''))"
proof -
  have f: "0 < GetEpsilon_float" "GetEpsilon_float \<le> 1 / 10000"
    by (simp_all add: GetEpsilon_float_def)
  have d: "0 < GetEpsilon_double" "GetEpsilon_double \<le> 1 / 10000"
    by (simp_all add: GetEpsilon_double_def)
  have "wavefrontEdges heptagon_collapsed ! 1 = \<lparr>head = 9, tail = 1, leftFace = NoIndex, rightFace = 1\<rparr>"
    by (simp add: heptagon_collapsed_def)
  with build_heptagon [OF f] heptagon_step1 [OF f] heptagon_late [OF f] heptagon_run [OF f]
    heptagon_run [OF d]
  show ?thesis by simp
qed

end
